(* ===== verification/Prelude.thy ===== *)
theory Prelude
  imports Main "HOL-Library.AList" "HOL-Library.Sublist" "HOL-Library.Multiset"
begin

text \<open>
  Shared vocabulary of the development: the types that stand for Go's built-in
  ones, the part of the package \<open>strings\<close> the program calls, dictionaries as
  association lists (a Go \<open>map\<close> is iterated, so its entries have to be
  enumerable), the rule collections the component proofs feed to the simplifier,
  and the generic lemmas on lists, dictionaries and runs that several components
  use.
\<close>

section \<open>Types\<close>

text \<open>
  A \<open>time.Time\<close> is the number of nanoseconds since January 1, year 1, 00:00 UTC, so that the
  zero \<open>time.Time\<close> is \<open>0\<close>; a \<open>time.Duration\<close> is a number of nanoseconds. An
  \<open>error\<close> is its message (the program only ever wraps it or sends its text). A Go string is
  its bytes. A \<open>PacketConn\<close> is an interface value that holds a pointer: it is identified by
  a number.
\<close>

type_synonym time = int
type_synonym duration = int
type_synonym error = string
type_synonym conn = nat
type_synonym 'v dict = "(string \<times> 'v) list"

named_theorems keeps_keys \<open>operations that keep the primary keys of the tables\<close>
named_theorems keeps_balance \<open>handlers that keep the count of sent packets exact\<close>

definition IsZero :: "time \<Rightarrow> bool" where
  "IsZero t = (t = 0)"

section \<open>The part of package strings that the program uses\<close>

fun Split :: "char \<Rightarrow> string \<Rightarrow> string list" where
  "Split sep [] = [[]]"
| "Split sep (c # s) =
     (if c = sep then [] # Split sep s
      else (case Split sep s of [] \<Rightarrow> [[c]] | p # ps \<Rightarrow> (c # p) # ps))"

fun Join :: "char \<Rightarrow> string list \<Rightarrow> string" where
  "Join sep [] = []"
| "Join sep [p] = p"
| "Join sep (p # ps) = p @ sep # Join sep ps"

definition HasPrefix :: "string \<Rightarrow> string \<Rightarrow> bool" where
  "HasPrefix s p = (take (length p) s = p)"

definition HasSuffix :: "string \<Rightarrow> string \<Rightarrow> bool" where
  "HasSuffix s p = (length p \<le> length s \<and> drop (length s - length p) s = p)"

section \<open>Runs\<close>

text \<open>A predicate that every step keeps holds after every run.\<close>

locale step_invariant =
  fixes step :: "'s \<Rightarrow> 's \<Rightarrow> bool"
    and inv :: "'s \<Rightarrow> bool"
  assumes step_keeps: "step s s' \<Longrightarrow> inv s \<Longrightarrow> inv s'"
begin

lemma run_keeps: "step\<^sup>*\<^sup>* s s' \<Longrightarrow> inv s \<Longrightarrow> inv s'"
  by (induction rule: rtranclp_induct) (auto intro: step_keeps)

end

section \<open>Strings\<close>

lemma Split_nonempty [simp]: "Split sep s \<noteq> []"
  by (induction s) (auto split: list.splits)

lemma Split_Cons_obtain:
  obtains p ps where "Split sep s = p # ps"
  by (cases "Split sep s") auto

lemma Join_Cons: "ps \<noteq> [] \<Longrightarrow> Join sep (p # ps) = p @ sep # Join sep ps"
  by (cases ps) auto

lemma Join_head: "Join sep ((c # p) # ps) = c # Join sep (p # ps)"
  by (cases ps) auto

lemma Join_Split: "Join sep (Split sep s) = s"
proof (induction s)
  case Nil
  then show ?case by simp
next
  case (Cons c s)
  then show ?case
    by (auto simp: Join_Cons Join_head split: list.splits)
qed

lemma Split_inject: "Split sep s = Split sep t \<longleftrightarrow> s = t"
  by (metis Join_Split)

lemma Split_parts_free: "p \<in> set (Split sep s) \<Longrightarrow> sep \<notin> set p"
  by (induction s arbitrary: p) (auto split: list.splits if_splits)

lemma Split_atom: "sep \<notin> set s \<Longrightarrow> Split sep s = [s]"
  by (induction s) auto

lemma Split_append: "Split sep (s @ sep # t) = Split sep s @ Split sep t"
proof (induction s)
  case Nil
  then show ?case by simp
next
  case (Cons c s)
  then show ?case by (auto split: list.splits)
qed

lemma HasPrefix_iff: "HasPrefix s p \<longleftrightarrow> (\<exists>t. s = p @ t)"
  unfolding HasPrefix_def by (metis append_eq_conv_conj append_take_drop_id)

lemma HasSuffix_iff: "HasSuffix s p \<longleftrightarrow> (\<exists>t. s = t @ p)"
proof
  assume "HasSuffix s p"
  then have "s = take (length s - length p) s @ p"
    unfolding HasSuffix_def by (metis append_take_drop_id)
  then show "\<exists>t. s = t @ p" ..
next
  assume "\<exists>t. s = t @ p"
  then show "HasSuffix s p" by (auto simp: HasSuffix_def)
qed

section \<open>Dictionaries\<close>

lemmas dict_simps [simp] = update_conv' delete_conv'

lemma map_of_SomeD_set: "map_of d k = Some v \<Longrightarrow> (k, v) \<in> set d"
  by (rule map_of_SomeD)

lemma dom_map_of_keys: "map_of d k \<noteq> None \<longleftrightarrow> k \<in> fst ` set d"
  by (simp add: map_of_eq_None_iff)

lemma keys_update_mem:
  "fst ` set (AList.update k v d) = insert k (fst ` set d)"
  by (simp add: dom_update)

lemma distinct_keys_update [simp]:
  "distinct (map fst d) \<Longrightarrow> distinct (map fst (AList.update k v d))"
  by (rule distinct_update)

lemma update_new: "k \<notin> fst ` set d \<Longrightarrow> AList.update k v d = d @ [(k, v)]"
  by (induction d) auto

lemma in_set_map_of: "distinct (map fst d) \<Longrightarrow> (k, v) \<in> set d \<longleftrightarrow> map_of d k = Some v"
  by (meson map_of_SomeD map_of_is_SomeI)

text \<open>
  How a count over the entries of a dictionary moves when one entry is written.
\<close>

lemma count_update:
  assumes "distinct (map fst d)"
  shows "length (filter (\<lambda>e. P (snd e)) (AList.update k v d))
       + (case map_of d k of Some u \<Rightarrow> if P u then 1 else 0 | None \<Rightarrow> 0)
       = length (filter (\<lambda>e. P (snd e)) d) + (if P v then 1 else 0)"
  using assms
  by (induction d) (auto simp: map_of_eq_None_iff split: option.splits)

section \<open>Sorting\<close>

text \<open>The first elements of a sorted list: what is left out is not smaller.\<close>

lemma take_sort_key_least:
  fixes f :: "'a \<Rightarrow> 'b::linorder"
  assumes "x \<in> set xs"
  shows "x \<in> set (take n (sort_key f xs)) \<or> (\<forall>y \<in> set (take n (sort_key f xs)). f y \<le> f x)"
proof -
  let ?s = "sort_key f xs"
  have "sorted (map f (take n ?s) @ map f (drop n ?s))"
    by (simp flip: map_append)
  then have "\<forall>y \<in> set (take n ?s). \<forall>z \<in> set (drop n ?s). f y \<le> f z"
    by (auto simp: sorted_append)
  moreover have "x \<in> set (take n ?s) \<union> set (drop n ?s)"
    using assms by (metis append_take_drop_id set_append set_sort)
  ultimately show ?thesis by auto
qed

end
