(* ===== verification/Packets.thy ===== *)
theory Packets
  imports Prelude
begin

text \<open>
  The QTT packet model of \<open>pkg/qtt/types/packet.go\<close> and the broker's packet
  builders of \<open>internal/protocol/packets/builders.go\<close>. Each field of a Go struct is a
  record field whose name starts with an abbreviation of the struct's name. A
  \<open>json.RawMessage\<close> is \<open>None\<close> when it is the nil slice. The timestamp a builder
  reads from the clock is an argument.
\<close>

section \<open>Data\<close>

type_synonym PacketType = string
type_synonym RawMessage = "string option"

definition PacketConnect :: PacketType where "PacketConnect = ''CONNECT''"
definition PacketConnAck :: PacketType where "PacketConnAck = ''CONNACK''"
definition PacketPublish :: PacketType where "PacketPublish = ''PUBLISH''"
definition PacketPubAck :: PacketType where "PacketPubAck = ''PUBACK''"
definition PacketSubscribe :: PacketType where "PacketSubscribe = ''SUBSCRIBE''"
definition PacketSubAck :: PacketType where "PacketSubAck = ''SUBACK''"
definition PacketPing :: PacketType where "PacketPing = ''PING''"
definition PacketPong :: PacketType where "PacketPong = ''PONG''"
definition PacketDisconnect :: PacketType where "PacketDisconnect = ''DISCONNECT''"
definition PacketError :: PacketType where "PacketError = ''ERROR''"

record Subscription =
  sub_Topic :: string
  sub_QoS :: int

record Packet =
  pkt_Type :: PacketType
  pkt_PacketID :: string
  pkt_ClientID :: string
  pkt_Token :: string
  pkt_Topic :: string
  pkt_QoS :: int
  pkt_Payload :: RawMessage
  pkt_Timestamp :: time
  pkt_Subscriptions :: "Subscription list"
  pkt_SessionPresent :: bool
  pkt_Status :: string
  pkt_Code :: string
  pkt_Error :: string
  pkt_Metadata :: "string dict"

text \<open>The zero value \<open>Packet{}\<close>, from which every composite literal starts.\<close>

definition zero_Packet :: Packet where
  "zero_Packet =
     \<lparr>pkt_Type = [], pkt_PacketID = [], pkt_ClientID = [], pkt_Token = [], pkt_Topic = [],
      pkt_QoS = 0, pkt_Payload = None, pkt_Timestamp = 0, pkt_Subscriptions = [],
      pkt_SessionPresent = False, pkt_Status = [], pkt_Code = [], pkt_Error = [],
      pkt_Metadata = []\<rparr>"

section \<open>Operations\<close>

text \<open>\<open>append(json.RawMessage(nil), b...)\<close>: the copy of an empty slice is nil.\<close>

definition copy_raw :: "string \<Rightarrow> RawMessage" where
  "copy_raw b = (if b = [] then None else Some b)"

definition raw_len :: "RawMessage \<Rightarrow> nat" where
  "raw_len r = (case r of None \<Rightarrow> 0 | Some b \<Rightarrow> length b)"

definition Clone :: "Packet \<Rightarrow> Packet" where
  "Clone p =
     (let cloned = p;
          cloned = (case pkt_Payload p of
                      None \<Rightarrow> cloned
                    | Some b \<Rightarrow> cloned\<lparr>pkt_Payload := copy_raw b\<rparr>);
          cloned = (if 0 < length (pkt_Subscriptions p)
                    then cloned\<lparr>pkt_Subscriptions := [] @ pkt_Subscriptions p\<rparr> else cloned);
          cloned = (if 0 < length (pkt_Metadata p)
                    then cloned\<lparr>pkt_Metadata :=
                      foldl (\<lambda>m (key, value). AList.update key value m) [] (pkt_Metadata p)\<rparr>
                    else cloned)
      in cloned)"

definition ConnAck :: "string \<Rightarrow> bool \<Rightarrow> time \<Rightarrow> Packet" where
  "ConnAck status sessionPresent now =
     zero_Packet\<lparr>pkt_Type := PacketConnAck, pkt_Status := status,
       pkt_SessionPresent := sessionPresent, pkt_Timestamp := now\<rparr>"

definition SubAck :: "string \<Rightarrow> time \<Rightarrow> Packet" where
  "SubAck packetID now =
     zero_Packet\<lparr>pkt_Type := PacketSubAck, pkt_PacketID := packetID,
       pkt_Status := ''subscribed'', pkt_Timestamp := now\<rparr>"

definition PubAck :: "string \<Rightarrow> time \<Rightarrow> Packet" where
  "PubAck packetID now =
     zero_Packet\<lparr>pkt_Type := PacketPubAck, pkt_PacketID := packetID,
       pkt_Status := ''acknowledged'', pkt_Timestamp := now\<rparr>"

definition Pong :: "time \<Rightarrow> Packet" where
  "Pong now =
     zero_Packet\<lparr>pkt_Type := PacketPong, pkt_Status := ''ok'', pkt_Timestamp := now\<rparr>"

definition Error :: "string \<Rightarrow> string \<Rightarrow> time \<Rightarrow> Packet" where
  "Error code message now =
     zero_Packet\<lparr>pkt_Type := PacketError, pkt_Code := code, pkt_Error := message,
       pkt_Timestamp := now\<rparr>"

section \<open>Lemmas\<close>

lemmas packet_type_defs =
  PacketConnect_def PacketConnAck_def PacketPublish_def PacketPubAck_def PacketSubscribe_def
  PacketSubAck_def PacketPing_def PacketPong_def PacketDisconnect_def PacketError_def

lemmas builder_defs = ConnAck_def SubAck_def PubAck_def Pong_def Error_def

text \<open>The ten packet types are ten different strings.\<close>

lemma packet_types_distinct:
  "distinct [PacketConnect, PacketConnAck, PacketPublish, PacketPubAck, PacketSubscribe,
     PacketSubAck, PacketPing, PacketPong, PacketDisconnect, PacketError]"
  by (simp add: packet_type_defs)

lemmas packet_types_neq [simp] = packet_types_distinct [simplified distinct.simps list.set
    insert_iff empty_iff de_Morgan_disj conj_assoc, simplified]

lemma packet_types_distinct_rev:
  "distinct [PacketError, PacketDisconnect, PacketPong, PacketPing, PacketSubAck, PacketSubscribe,
     PacketPubAck, PacketPublish, PacketConnAck, PacketConnect]"
  by (simp add: packet_type_defs)

lemmas packet_types_neq_rev [simp] = packet_types_distinct_rev [simplified distinct.simps list.set
    insert_iff empty_iff de_Morgan_disj conj_assoc, simplified]

lemma builder_types [simp]:
  "pkt_Type (ConnAck st sp now) = PacketConnAck"
  "pkt_Type (SubAck i now) = PacketSubAck"
  "pkt_Type (PubAck i now) = PacketPubAck"
  "pkt_Type (Pong now) = PacketPong"
  "pkt_Type (Error c m now) = PacketError"
  by (simp_all add: builder_defs)

lemma Clone_fields [simp]:
  "pkt_Type (Clone p) = pkt_Type p"
  "pkt_PacketID (Clone p) = pkt_PacketID p"
  "pkt_ClientID (Clone p) = pkt_ClientID p"
  "pkt_Token (Clone p) = pkt_Token p"
  "pkt_Topic (Clone p) = pkt_Topic p"
  "pkt_QoS (Clone p) = pkt_QoS p"
  "pkt_Timestamp (Clone p) = pkt_Timestamp p"
  "pkt_Subscriptions (Clone p) = pkt_Subscriptions p"
  "pkt_SessionPresent (Clone p) = pkt_SessionPresent p"
  "pkt_Status (Clone p) = pkt_Status p"
  "pkt_Code (Clone p) = pkt_Code p"
  "pkt_Error (Clone p) = pkt_Error p"
  by (auto simp: Clone_def Let_def split: option.splits)

lemma Clone_payload [simp]:
  "pkt_Payload (Clone p) = (if pkt_Payload p = Some [] then None else pkt_Payload p)"
  by (auto simp: Clone_def Let_def copy_raw_def split: option.splits)

end
