(* ===== verification/Database.thy ===== *)
theory Database
  imports Packets
begin

text \<open>
  The PostgreSQL store, \<open>api/db/store.go\<close>: the three tables of \<open>EnsureSchema\<close>
  and one operation per method of \<open>Store\<close>, each running the SQL statement of the
  source on the rows. The server behind the statements is not part of the repository; what a
  statement leaves open is an oracle field of the store:
  \<^item> \<open>db_fault n\<close> is the error, if any, with which the \<open>n\<close>-th statement fails
    (a failed statement changes no row), and \<open>db_rows_err n\<close> the error \<open>rows.Err()\<close>
    reports after its rows were read;
  \<^item> \<open>db_jsonb\<close> and \<open>db_jsonb_doc\<close> are what a \<open>JSONB\<close> column makes of a
    document (it may reject it), \<open>db_timestamptz\<close> what a \<open>TIMESTAMPTZ\<close> column makes
    of a time (it keeps microseconds), and \<open>db_smallint_error\<close> the error for a number out
    of the range of \<open>SMALLINT\<close>;
  \<^item> \<open>db_rank n\<close> ranks primary keys: the order in which the \<open>n\<close>-th statement meets
    the rows. \<open>ORDER BY\<close> leaves open how rows with equal keys are ordered, and every order
    of the rows comes from some ranking;
  \<^item> \<open>db_now n\<close> is the server's \<open>NOW()\<close> in the \<open>n\<close>-th statement.
\<close>

section \<open>Data\<close>

datatype json =
    JNull
  | JBool bool
  | JNum string
  | JStr string
  | JArr "json list"
  | JObj "(string \<times> json) list"

text \<open>A \<open>map[string]any\<close> that came from JSON; \<open>None\<close> is the nil map.\<close>

type_synonym metadata = "(string \<times> json) list option"

record Device =
  dev_ID :: string
  dev_Name :: string
  dev_Metadata :: metadata
  dev_CreatedAt :: time

record Message =
  msg_PacketID :: string
  msg_ClientID :: string
  msg_Topic :: string
  msg_QoS :: int
  msg_Payload :: RawMessage
  msg_PacketType :: string
  msg_Direction :: string
  msg_Timestamp :: time
  msg_Acknowledged :: bool

record OfflineMessage =
  off_PacketID :: string
  off_ClientID :: string
  off_Topic :: string
  off_QoS :: int
  off_Payload :: RawMessage
  off_EnqueuedAt :: time
  off_AvailableAt :: time

record MetricsSummary =
  sum_DeviceCount :: int
  sum_MessageCount :: int
  sum_OfflineQueueDepth :: int
  sum_RecentMessageCount :: int

text \<open>A row of \<open>devices\<close> has its metadata as a JSON document.\<close>

record DeviceRow =
  row_id :: string
  row_name :: string
  row_metadata :: json
  row_created_at :: time

record Store =
  db_devices :: "DeviceRow list"
  db_messages :: "Message list"
  db_offline :: "OfflineMessage list"
  db_stmts :: nat
  db_fault :: "nat \<Rightarrow> error option"
  db_rows_err :: "nat \<Rightarrow> error option"
  db_jsonb :: "string \<Rightarrow> error + string"
  db_jsonb_doc :: "json \<Rightarrow> error + json"
  db_timestamptz :: "time \<Rightarrow> time"
  db_smallint_error :: "int \<Rightarrow> error"
  db_rank :: "nat \<Rightarrow> string \<Rightarrow> nat"
  db_now :: "nat \<Rightarrow> time"

text \<open>The tables as \<open>EnsureSchema\<close> creates them, behind a server that never fails.\<close>

definition empty_store :: Store where
  "empty_store =
     \<lparr>db_devices = [], db_messages = [], db_offline = [], db_stmts = 0,
      db_fault = (\<lambda>_. None), db_rows_err = (\<lambda>_. None), db_jsonb = Inr, db_jsonb_doc = Inr,
      db_timestamptz = (\<lambda>t. t), db_smallint_error = (\<lambda>_. ''out of range''),
      db_rank = (\<lambda>_ _. 0), db_now = (\<lambda>_. 0)\<rparr>"

section \<open>Statements and columns\<close>

definition db_exec :: "Store \<Rightarrow> error option \<times> Store" where
  "db_exec st = (db_fault st (db_stmts st), st\<lparr>db_stmts := Suc (db_stmts st)\<rparr>)"

definition scan :: "Store \<Rightarrow> ('r \<Rightarrow> string) \<Rightarrow> 'r list \<Rightarrow> 'r list" where
  "scan st key rows = sort_key (\<lambda>r. db_rank st (db_stmts st) (key r)) rows"

definition column_smallint :: "Store \<Rightarrow> int \<Rightarrow> error + int" where
  "column_smallint st q = (if - 32768 \<le> q \<and> q \<le> 32767 then Inr q else Inl (db_smallint_error st q))"

text \<open>\<open>[]byte(payload)\<close> into a \<open>JSONB\<close> column.\<close>

definition column_jsonb :: "Store \<Rightarrow> RawMessage \<Rightarrow> error + RawMessage" where
  "column_jsonb st p =
     (case db_jsonb st (case p of None \<Rightarrow> [] | Some b \<Rightarrow> b) of Inl e \<Rightarrow> Inl e | Inr b \<Rightarrow> Inr (Some b))"

text \<open>The pattern language of \<open>LIKE\<close>, where \<open>_\<close> is one UTF-8 character.\<close>

definition utf8_cont :: "char \<Rightarrow> bool" where
  "utf8_cont c = (128 \<le> (of_char c :: nat) \<and> (of_char c :: nat) < 192)"

function sql_like :: "string \<Rightarrow> string \<Rightarrow> bool" where
  "sql_like [] s = (s = [])"
| "sql_like (p # ps) s =
     (if p = CHR ''%'' then
        sql_like ps s \<or> (case s of [] \<Rightarrow> False | _ # t \<Rightarrow> sql_like (p # ps) t)
      else if p = CHR ''_'' then
        (case s of [] \<Rightarrow> False | _ # t \<Rightarrow> sql_like ps (dropWhile utf8_cont t))
      else if p = CHR 0x5C then
        (case ps of [] \<Rightarrow> False
         | q # qs \<Rightarrow> (case s of [] \<Rightarrow> False | c # t \<Rightarrow> c = q \<and> sql_like qs t))
      else (case s of [] \<Rightarrow> False | c # t \<Rightarrow> c = p \<and> sql_like ps t))"
  by pat_completeness auto
termination
  by (relation "measure (\<lambda>(p, s). length p + length s)")
    (auto simp: less_Suc_eq_le length_dropWhile_le add_mono intro: le_SucI)

section \<open>Devices\<close>

definition scanDevice :: "DeviceRow \<Rightarrow> error + Device" where
  "scanDevice row =
     (let device = \<lparr>dev_ID = row_id row, dev_Name = row_name row, dev_Metadata = None,
                    dev_CreatedAt = row_created_at row\<rparr>
      in case row_metadata row of
           JNull \<Rightarrow> Inr device
         | JObj m \<Rightarrow> Inr (device\<lparr>dev_Metadata := Some m\<rparr>)
         | _ \<Rightarrow> Inl ''unmarshal device metadata: json: cannot unmarshal into map[string]interface {}'')"

text \<open>\<open>json.Marshal\<close> of the metadata: a nil map is \<open>null\<close>.\<close>

definition marshal_metadata :: "metadata \<Rightarrow> json" where
  "marshal_metadata m = (case m of None \<Rightarrow> JNull | Some kvs \<Rightarrow> JObj kvs)"

text \<open>\<open>INSERT ... ON CONFLICT (id) DO UPDATE\<close>: the rows and the row returned.\<close>

definition upsert_device :: "DeviceRow \<Rightarrow> DeviceRow list \<Rightarrow> DeviceRow \<times> DeviceRow list" where
  "upsert_device row rows =
     (case find (\<lambda>r. row_id r = row_id row) rows of
        None \<Rightarrow> (row, rows @ [row])
      | Some old \<Rightarrow>
          (let new = old\<lparr>row_name := row_name row, row_metadata := row_metadata row\<rparr>
           in (new, map (\<lambda>r. if row_id r = row_id row then new else r) rows)))"

definition RegisterDevice ::
  "string \<Rightarrow> string \<Rightarrow> metadata \<Rightarrow> Store \<Rightarrow> (error + Device) \<times> Store" where
  "RegisterDevice ident name meta st =
     (if ident = [] then (Inl ''device id is required'', st)
      else
        (let name = (if name = [] then ident else name);
             payload = marshal_metadata meta
         in case db_exec st of
              (Some e, st') \<Rightarrow> (Inl e, st')
            | (None, st') \<Rightarrow>
                (case db_jsonb_doc st payload of
                   Inl e \<Rightarrow> (Inl e, st')
                 | Inr doc \<Rightarrow>
                     (let row = \<lparr>row_id = ident, row_name = name, row_metadata = doc,
                                 row_created_at = db_now st (db_stmts st)\<rparr>;
                          (ret, rows) = upsert_device row (db_devices st)
                      in (scanDevice ret, st'\<lparr>db_devices := rows\<rparr>)))))"

definition GetDevice :: "string \<Rightarrow> Store \<Rightarrow> (error + Device) \<times> Store" where
  "GetDevice ident st =
     (case db_exec st of
        (Some e, st') \<Rightarrow> (Inl e, st')
      | (None, st') \<Rightarrow>
          (case find (\<lambda>r. row_id r = ident) (db_devices st) of
             None \<Rightarrow> (Inl (''device '' @ ident @ '' not found''), st')
           | Some row \<Rightarrow> (scanDevice row, st')))"

text \<open>The loop over the rows stops at the first row that cannot be scanned.\<close>

fun scanDevices :: "DeviceRow list \<Rightarrow> error + Device list" where
  "scanDevices [] = Inr []"
| "scanDevices (r # rs) =
     (case scanDevice r of
        Inl e \<Rightarrow> Inl e
      | Inr d \<Rightarrow> (case scanDevices rs of Inl e \<Rightarrow> Inl e | Inr ds \<Rightarrow> Inr (d # ds)))"

definition ListDevices :: "Store \<Rightarrow> (error + Device list) \<times> Store" where
  "ListDevices st =
     (case db_exec st of
        (Some e, st') \<Rightarrow> (Inl (''list devices: '' @ e), st')
      | (None, st') \<Rightarrow>
          (case scanDevices (sort_key (\<lambda>r. - row_created_at r)
                   (scan st row_id (db_devices st))) of
             Inl e \<Rightarrow> (Inl e, st')
           | Inr ds \<Rightarrow> (case db_rows_err st (db_stmts st) of
                          Some e \<Rightarrow> (Inl e, st') | None \<Rightarrow> (Inr ds, st'))))"

section \<open>Messages\<close>

definition default_payload :: "RawMessage \<Rightarrow> RawMessage" where
  "default_payload p = (if raw_len p = 0 then Some ''{}'' else p)"

definition message_row :: "Store \<Rightarrow> Message \<Rightarrow> error + Message" where
  "message_row st m =
     (case column_smallint st (msg_QoS m) of
        Inl e \<Rightarrow> Inl e
      | Inr _ \<Rightarrow>
          (case column_jsonb st (msg_Payload m) of
             Inl e \<Rightarrow> Inl e
           | Inr p \<Rightarrow> Inr (m\<lparr>msg_Payload := p,
                             msg_Timestamp := db_timestamptz st (msg_Timestamp m)\<rparr>)))"

text \<open>\<open>INSERT ... ON CONFLICT (packet_id) DO NOTHING\<close>.\<close>

definition insert_message :: "Message \<Rightarrow> Message list \<Rightarrow> Message list" where
  "insert_message row rows =
     (if msg_PacketID row \<in> msg_PacketID ` set rows then rows else rows @ [row])"

definition SaveMessage :: "Message \<Rightarrow> Store \<Rightarrow> error option \<times> Store" where
  "SaveMessage message st =
     (let message = message\<lparr>msg_Payload := default_payload (msg_Payload message)\<rparr>
      in case db_exec st of
           (Some e, st') \<Rightarrow> (Some (''save message: '' @ e), st')
         | (None, st') \<Rightarrow>
             (case message_row st message of
                Inl e \<Rightarrow> (Some (''save message: '' @ e), st')
              | Inr row \<Rightarrow>
                  (None, st'\<lparr>db_messages := insert_message row (db_messages st)\<rparr>)))"

definition MarkMessageAcknowledged :: "string \<Rightarrow> Store \<Rightarrow> error option \<times> Store" where
  "MarkMessageAcknowledged packetID st =
     (case db_exec st of
        (Some e, st') \<Rightarrow> (Some (''mark acknowledged: '' @ e), st')
      | (None, st') \<Rightarrow>
          (None, st'\<lparr>db_messages :=
             map (\<lambda>m. if msg_PacketID m = packetID then m\<lparr>msg_Acknowledged := True\<rparr> else m)
               (db_messages st)\<rparr>))"

text \<open>A scanned row: the payload is copied with \<open>append(json.RawMessage(nil), ...)\<close>.\<close>

definition scanMessage :: "Message \<Rightarrow> Message" where
  "scanMessage m =
     m\<lparr>msg_Payload := (case msg_Payload m of None \<Rightarrow> None | Some b \<Rightarrow> copy_raw b)\<rparr>"

text \<open>
  \<open>queryMessages\<close> with the two queries it is called with: a condition on the topic,
  \<open>ORDER BY timestamp DESC LIMIT limit\<close>.
\<close>

definition queryMessages ::
  "(string \<Rightarrow> bool) \<Rightarrow> int \<Rightarrow> Store \<Rightarrow> (error + Message list) \<times> Store" where
  "queryMessages cond limit st =
     (case db_exec st of
        (Some e, st') \<Rightarrow> (Inl (''query messages: '' @ e), st')
      | (None, st') \<Rightarrow>
          (let rows = take (nat limit) (sort_key (\<lambda>m. - msg_Timestamp m)
                        (filter (\<lambda>m. cond (msg_Topic m))
                          (scan st msg_PacketID (db_messages st))))
           in case db_rows_err st (db_stmts st) of
                Some e \<Rightarrow> (Inl e, st')
              | None \<Rightarrow> (Inr (map scanMessage rows), st')))"

definition GetTelemetry :: "string \<Rightarrow> int \<Rightarrow> Store \<Rightarrow> (error + Message list) \<times> Store" where
  "GetTelemetry deviceID limit st =
     (let limit = (if limit \<le> 0 then 50 else limit)
      in queryMessages (sql_like (''device/'' @ deviceID @ ''/telemetry%'')) limit st)"

definition ListMessages :: "int \<Rightarrow> Store \<Rightarrow> (error + Message list) \<times> Store" where
  "ListMessages limit st =
     (let limit = (if limit \<le> 0 then 100 else limit)
      in queryMessages (\<lambda>_. True) limit st)"

section \<open>The offline queue's table\<close>

definition offline_row :: "Store \<Rightarrow> OfflineMessage \<Rightarrow> error + OfflineMessage" where
  "offline_row st m =
     (case column_smallint st (off_QoS m) of
        Inl e \<Rightarrow> Inl e
      | Inr _ \<Rightarrow>
          (case column_jsonb st (off_Payload m) of
             Inl e \<Rightarrow> Inl e
           | Inr p \<Rightarrow> Inr (m\<lparr>off_Payload := p,
                             off_EnqueuedAt := db_timestamptz st (off_EnqueuedAt m),
                             off_AvailableAt := db_timestamptz st (off_AvailableAt m)\<rparr>)))"

definition insert_offline :: "OfflineMessage \<Rightarrow> OfflineMessage list \<Rightarrow> OfflineMessage list" where
  "insert_offline row rows =
     (if off_PacketID row \<in> off_PacketID ` set rows then rows else rows @ [row])"

definition EnqueueOfflineMessage :: "OfflineMessage \<Rightarrow> Store \<Rightarrow> error option \<times> Store" where
  "EnqueueOfflineMessage message st =
     (let message = message\<lparr>off_Payload := default_payload (off_Payload message)\<rparr>
      in case db_exec st of
           (Some e, st') \<Rightarrow> (Some (''enqueue offline message: '' @ e), st')
         | (None, st') \<Rightarrow>
             (case offline_row st message of
                Inl e \<Rightarrow> (Some (''enqueue offline message: '' @ e), st')
              | Inr row \<Rightarrow>
                  (None, st'\<lparr>db_offline := insert_offline row (db_offline st)\<rparr>)))"

definition scanOffline :: "OfflineMessage \<Rightarrow> OfflineMessage" where
  "scanOffline m =
     m\<lparr>off_Payload := (case off_Payload m of None \<Rightarrow> None | Some b \<Rightarrow> copy_raw b)\<rparr>"

definition GetOfflineMessages ::
  "string \<Rightarrow> Store \<Rightarrow> (error + OfflineMessage list) \<times> Store" where
  "GetOfflineMessages clientID st =
     (case db_exec st of
        (Some e, st') \<Rightarrow> (Inl (''get offline messages: '' @ e), st')
      | (None, st') \<Rightarrow>
          (let rows = sort_key off_AvailableAt
                        (filter (\<lambda>m. off_ClientID m = clientID)
                          (scan st off_PacketID (db_offline st)))
           in case db_rows_err st (db_stmts st) of
                Some e \<Rightarrow> (Inl e, st')
              | None \<Rightarrow> (Inr (map scanOffline rows), st')))"

definition DeleteOfflineMessage :: "string \<Rightarrow> Store \<Rightarrow> error option \<times> Store" where
  "DeleteOfflineMessage packetID st =
     (case db_exec st of
        (Some e, st') \<Rightarrow> (Some (''delete offline message: '' @ e), st')
      | (None, st') \<Rightarrow>
          (None, st'\<lparr>db_offline := filter (\<lambda>m. off_PacketID m \<noteq> packetID) (db_offline st)\<rparr>))"

section \<open>The summary\<close>

text \<open>
  Four statements in a row; the last one counts the messages of the last hour
  (\<open>3600 * 10 ^ 9\<close> nanoseconds).
\<close>

definition GetMetricsSummary :: "Store \<Rightarrow> (error + MetricsSummary) \<times> Store" where
  "GetMetricsSummary st =
     (case db_exec st of
        (Some e, st) \<Rightarrow> (Inl (''count devices: '' @ e), st)
      | (None, st) \<Rightarrow>
     (case db_exec st of
        (Some e, st) \<Rightarrow> (Inl (''count messages: '' @ e), st)
      | (None, st) \<Rightarrow>
     (case db_exec st of
        (Some e, st) \<Rightarrow> (Inl (''count offline messages: '' @ e), st)
      | (None, st) \<Rightarrow>
          (let now = db_now st (db_stmts st) in
           case db_exec st of
             (Some e, st) \<Rightarrow> (Inl (''count recent messages: '' @ e), st)
           | (None, st) \<Rightarrow>
               (Inr \<lparr>sum_DeviceCount = int (length (db_devices st)),
                     sum_MessageCount = int (length (db_messages st)),
                     sum_OfflineQueueDepth = int (length (db_offline st)),
                     sum_RecentMessageCount =
                       int (length (filter (\<lambda>m. now - 3600000000000 \<le> msg_Timestamp m)
                         (db_messages st)))\<rparr>, st)))))"

section \<open>Invariant\<close>

text \<open>
  What the schema promises of the three tables: the primary keys are unique, a QoS fits its
  \<open>SMALLINT\<close> column and no payload is \<open>NULL\<close>.
\<close>

definition typed_columns :: "int \<Rightarrow> RawMessage \<Rightarrow> bool" where
  "typed_columns q p \<longleftrightarrow> - 32768 \<le> q \<and> q \<le> 32767 \<and> p \<noteq> None"

definition store_wf :: "Store \<Rightarrow> bool" where
  "store_wf st \<longleftrightarrow> distinct (map row_id (db_devices st))
     \<and> distinct (map msg_PacketID (db_messages st))
     \<and> distinct (map off_PacketID (db_offline st))
     \<and> (\<forall>m \<in> set (db_messages st). typed_columns (msg_QoS m) (msg_Payload m))
     \<and> (\<forall>m \<in> set (db_offline st). typed_columns (off_QoS m) (off_Payload m))"

section \<open>Lemmas\<close>

lemma db_exec_frame [simp]:
  "db_devices (snd (db_exec st)) = db_devices st"
  "db_messages (snd (db_exec st)) = db_messages st"
  "db_offline (snd (db_exec st)) = db_offline st"
  by (simp_all add: db_exec_def)

lemma set_scan [simp]: "set (scan st key rows) = set rows"
  by (simp add: scan_def)

lemma mset_scan [simp]: "mset (scan st key rows) = mset rows"
  by (simp add: scan_def)

lemma column_smallint_InrD: "column_smallint st q = Inr q' \<Longrightarrow> q' = q \<and> - 32768 \<le> q \<and> q \<le> 32767"
  by (auto simp: column_smallint_def split: if_splits)

lemma message_row_id: "message_row st m = Inr row \<Longrightarrow> msg_PacketID row = msg_PacketID m"
  by (auto simp: message_row_def split: sum.splits)

lemma offline_row_InrD:
  "offline_row st m = Inr row \<Longrightarrow>
     off_PacketID row = off_PacketID m \<and> off_ClientID row = off_ClientID m
     \<and> off_Topic row = off_Topic m \<and> off_QoS row = off_QoS m
     \<and> off_EnqueuedAt row = db_timestamptz st (off_EnqueuedAt m)
     \<and> off_AvailableAt row = db_timestamptz st (off_AvailableAt m)
     \<and> column_jsonb st (off_Payload m) = Inr (off_Payload row)"
  by (auto simp: offline_row_def split: sum.splits)

lemma row_typed:
  "message_row st m = Inr row \<Longrightarrow> typed_columns (msg_QoS row) (msg_Payload row)"
  "offline_row st om = Inr orow \<Longrightarrow> typed_columns (off_QoS orow) (off_Payload orow)"
  by (auto simp: message_row_def offline_row_def column_smallint_def column_jsonb_def typed_columns_def
      split: sum.splits if_splits)

lemma set_insert_row:
  "set (insert_message row rows) \<subseteq> insert row (set rows)"
  "set (insert_offline orow orows) \<subseteq> insert orow (set orows)"
  by (auto simp: insert_message_def insert_offline_def)

lemma distinct_insert_message:
  "distinct (map msg_PacketID rows) \<Longrightarrow> distinct (map msg_PacketID (insert_message row rows))"
  by (auto simp: insert_message_def)

lemma distinct_insert_offline:
  "distinct (map off_PacketID rows) \<Longrightarrow> distinct (map off_PacketID (insert_offline row rows))"
  by (auto simp: insert_offline_def)

lemma store_wf_SaveMessage [keeps_keys]: "store_wf st \<Longrightarrow> store_wf (snd (SaveMessage m st))"
  using set_insert_row(1)
  by (fastforce simp: SaveMessage_def Let_def db_exec_def store_wf_def distinct_insert_message
      split: option.splits sum.splits dest: row_typed)

lemma store_wf_MarkMessageAcknowledged [keeps_keys]:
  "store_wf st \<Longrightarrow> store_wf (snd (MarkMessageAcknowledged i st))"
proof -
  have "map msg_PacketID
      (map (\<lambda>m. if msg_PacketID m = i then m\<lparr>msg_Acknowledged := True\<rparr> else m) rows)
    = map msg_PacketID rows" for rows :: "Message list"
    by simp
  then show "store_wf st \<Longrightarrow> store_wf (snd (MarkMessageAcknowledged i st))"
    by (auto simp: MarkMessageAcknowledged_def db_exec_def store_wf_def split: option.splits
        simp del: map_map)
qed

lemma store_wf_EnqueueOfflineMessage [keeps_keys]:
  "store_wf st \<Longrightarrow> store_wf (snd (EnqueueOfflineMessage m st))"
  using set_insert_row(2)
  by (fastforce simp: EnqueueOfflineMessage_def Let_def db_exec_def store_wf_def distinct_insert_offline
      split: option.splits sum.splits dest: row_typed)

lemma store_wf_DeleteOfflineMessage [keeps_keys]: "store_wf st \<Longrightarrow> store_wf (snd (DeleteOfflineMessage i st))"
  by (auto simp: DeleteOfflineMessage_def db_exec_def store_wf_def distinct_map_filter
      split: option.splits)

lemma map_row_id_update:
  "map row_id (map (\<lambda>r. if row_id r = i then new else r) rows) = map row_id rows"
  if "row_id new = i"
  using that by (induction rows) auto

lemma store_wf_RegisterDevice [keeps_keys]: "store_wf st \<Longrightarrow> store_wf (snd (RegisterDevice i n m st))"
proof -
  have "distinct (map row_id (snd (upsert_device row rows)))" if "distinct (map row_id rows)"
    for row rows
  proof (cases "find (\<lambda>r. row_id r = row_id row) rows")
    case None
    then have "row_id row \<notin> row_id ` set rows" by (auto simp: find_None_iff)
    with None that show ?thesis by (simp add: upsert_device_def)
  next
    case (Some old)
    then have "row_id old = row_id row" by (auto simp: find_Some_iff)
    with Some that show ?thesis
      by (simp add: upsert_device_def Let_def map_row_id_update del: map_map)
  qed
  then show "store_wf st \<Longrightarrow> store_wf (snd (RegisterDevice i n m st))"
    by (auto simp: RegisterDevice_def Let_def case_prod_beta db_exec_def store_wf_def
        split: option.splits sum.splits)
qed

lemma queries_frame [simp]:
  "store_wf (snd (GetDevice i st)) = store_wf st"
  "store_wf (snd (ListDevices st)) = store_wf st"
  "store_wf (snd (queryMessages cond n st)) = store_wf st"
  "store_wf (snd (GetOfflineMessages c st)) = store_wf st"
  by (auto simp: GetDevice_def ListDevices_def queryMessages_def GetOfflineMessages_def db_exec_def
      Let_def store_wf_def split: option.splits sum.splits)

lemma SaveMessage_offline [simp]: "db_offline (snd (SaveMessage m st)) = db_offline st"
  by (auto simp: SaveMessage_def Let_def db_exec_def split: option.splits sum.splits)

lemma MarkMessageAcknowledged_offline [simp]:
  "db_offline (snd (MarkMessageAcknowledged i st)) = db_offline st"
  by (auto simp: MarkMessageAcknowledged_def db_exec_def split: option.splits)

lemma DeleteOfflineMessage_offline:
  "db_offline (snd (DeleteOfflineMessage i st)) =
     (if fst (DeleteOfflineMessage i st) = None
      then filter (\<lambda>m. off_PacketID m \<noteq> i) (db_offline st) else db_offline st)"
  by (auto simp: DeleteOfflineMessage_def db_exec_def split: option.splits)

lemma GetOfflineMessages_offline [simp]:
  "db_offline (snd (GetOfflineMessages c st)) = db_offline st"
  by (auto simp: GetOfflineMessages_def db_exec_def Let_def split: option.splits)

section \<open>Patterns of LIKE\<close>

definition like_plain :: "string \<Rightarrow> bool" where
  "like_plain d = (\<forall>c \<in> set d. c \<noteq> CHR ''%'' \<and> c \<noteq> CHR ''_'' \<and> c \<noteq> CHR 0x5C)"

declare sql_like.simps(2) [simp del]

lemma sql_like_any: "sql_like ''%'' s"
  by (induction s) (auto simp: sql_like.simps(2))

lemma sql_like_prefix: "like_plain p \<Longrightarrow> sql_like (p @ ''%'') s \<longleftrightarrow> HasPrefix s p"
proof (induction p arbitrary: s)
  case Nil
  then show ?case by (simp add: sql_like_any HasPrefix_def)
next
  case (Cons c p)
  then show ?case
    by (cases s) (auto simp: like_plain_def sql_like.simps(2) HasPrefix_def)
qed

lemma telemetry_pattern:
  assumes "like_plain d"
  shows "sql_like (''device/'' @ d @ ''/telemetry%'') s \<longleftrightarrow> HasPrefix s (''device/'' @ d @ ''/telemetry'')"
proof -
  have "like_plain (''device/'' @ d @ ''/telemetry'')"
    using assms by (auto simp: like_plain_def)
  from sql_like_prefix [OF this, of s] show ?thesis by simp
qed

lemma scanMessage_fields [simp]:
  "msg_Topic (scanMessage m) = msg_Topic m"
  "msg_Timestamp (scanMessage m) = msg_Timestamp m"
  "msg_PacketID (scanMessage m) = msg_PacketID m"
  by (simp_all add: scanMessage_def)

text \<open>What \<open>queryMessages\<close> returns: the newest rows that fulfil the condition.\<close>

lemma queryMessages_newest:
  assumes "queryMessages cond limit st = (Inr ms, st')"
  defines "rows \<equiv> filter (\<lambda>m. cond (msg_Topic m)) (db_messages st)"
  shows "length ms = min (nat limit) (length rows)"
    and "sorted (map (\<lambda>m. - msg_Timestamp m) ms)"
    and "set ms \<subseteq> scanMessage ` set rows"
    and "row \<in> set rows \<Longrightarrow> scanMessage row \<in> set ms \<or> (\<forall>m \<in> set ms. msg_Timestamp row \<le> msg_Timestamp m)"
proof -
  let ?xs = "filter (\<lambda>m. cond (msg_Topic m)) (scan st msg_PacketID (db_messages st))"
  let ?ys = "take (nat limit) (sort_key (\<lambda>m. - msg_Timestamp m) ?xs)"
  have ms: "ms = map scanMessage ?ys"
    using assms(1) by (auto simp: queryMessages_def db_exec_def Let_def split: option.splits)
  have mset: "mset ?xs = mset rows" by (simp add: rows_def)
  then have set: "set ?xs = set rows" and len: "length ?xs = length rows"
    by (rule mset_eq_setD, rule mset_eq_length)
  from len show "length ms = min (nat limit) (length rows)" by (simp add: ms)
  show "sorted (map (\<lambda>m. - msg_Timestamp m) ms)"
    by (simp add: ms comp_def sorted_wrt_take flip: take_map)
  show "set ms \<subseteq> scanMessage ` set rows"
    using set set_take_subset [of "nat limit" "sort_key (\<lambda>m. - msg_Timestamp m) ?xs"]
    by (auto simp: ms)
  show "scanMessage row \<in> set ms \<or> (\<forall>m \<in> set ms. msg_Timestamp row \<le> msg_Timestamp m)"
    if "row \<in> set rows"
    using take_sort_key_least [of row ?xs "nat limit" "\<lambda>m. - msg_Timestamp m"] that set
    by (auto simp: ms)
qed

section \<open>Results\<close>

lemma message_row_InrD:
  "message_row st m = Inr row \<Longrightarrow>
     msg_PacketID row = msg_PacketID m \<and> msg_Topic row = msg_Topic m
     \<and> msg_ClientID row = msg_ClientID m"
  by (auto simp: message_row_def split: sum.splits)

lemma SaveMessage_NoneD:
  "SaveMessage m st = (None, st') \<Longrightarrow>
     \<exists>row. message_row st (m\<lparr>msg_Payload := default_payload (msg_Payload m)\<rparr>) = Inr row
       \<and> db_messages st' = insert_message row (db_messages st)"
  by (auto simp: SaveMessage_def Let_def db_exec_def split: option.splits sum.splits)

lemma RegisterDevice_InrD:
  "RegisterDevice i n meta st = (Inr dev, st') \<Longrightarrow>
     \<exists>doc. db_jsonb_doc st (marshal_metadata meta) = Inr doc
       \<and> (let row = \<lparr>row_id = i, row_name = (if n = [] then i else n), row_metadata = doc,
                     row_created_at = db_now st (db_stmts st)\<rparr>
          in scanDevice (fst (upsert_device row (db_devices st))) = Inr dev
             \<and> db_devices st' = snd (upsert_device row (db_devices st)))"
  by (auto simp: RegisterDevice_def Let_def db_exec_def case_prod_beta
      split: if_splits option.splits sum.splits)

lemma scanDevice_InrD:
  "scanDevice r = Inr dev \<Longrightarrow>
     dev_ID dev = row_id r \<and> dev_Name dev = row_name r \<and> dev_CreatedAt dev = row_created_at r"
  by (auto simp: scanDevice_def Let_def split: json.splits)

text \<open>Reading a device after its row was inserted or updated.\<close>

lemma find_upsert_device:
  assumes "row_id row = i"
  shows "find (\<lambda>r. row_id r = i) (snd (upsert_device row rows)) = Some (fst (upsert_device row rows))"
proof -
  have find_app: "find P (xs @ [x]) = Some x" if "find P xs = None" "P x"
    for P :: "DeviceRow \<Rightarrow> bool" and xs x
    using that by (induction xs) (auto split: if_splits)
  have find_upd: "find (\<lambda>r. row_id r = i) (map (\<lambda>r. if row_id r = i then new else r) xs) = Some new"
    if "find (\<lambda>r. row_id r = i) xs = Some old" "row_id new = i" for xs old new
    using that by (induction xs) (auto split: if_splits)
  show ?thesis
  proof (cases "find (\<lambda>r. row_id r = i) rows")
    case None
    with assms show ?thesis by (simp add: upsert_device_def find_app)
  next
    case (Some old)
    then have "row_id old = i" by (auto simp: find_Some_iff)
    with Some assms show ?thesis by (simp add: upsert_device_def Let_def find_upd)
  qed
qed

lemma find_row_id: "find (\<lambda>r. row_id r = i) rows = Some old \<Longrightarrow> row_id old = i"
  by (auto simp: find_Some_iff)

lemma upsert_device_fields:
  "row_id (fst (upsert_device row rows)) = row_id row"
  "row_name (fst (upsert_device row rows)) = row_name row"
  "find (\<lambda>r. row_id r = row_id row) rows = Some old \<Longrightarrow>
     row_created_at (fst (upsert_device row rows)) = row_created_at old"
  by (auto simp: upsert_device_def Let_def dest: find_row_id split: option.splits)

section \<open>Properties\<close>

text \<open>
  C30: the telemetry of a device whose identifier has no pattern character of
  \<open>LIKE\<close>: at most \<open>limit\<close> rows (50 when no positive limit is given), as many as there
  are otherwise, newest first, all on topics under \<open>device/\<close>id\<open>/telemetry\<close>; a row of
  such a topic that is left out is no newer than any row returned.
\<close>

theorem GetTelemetry_newest:
  assumes "GetTelemetry d limit st = (Inr ms, st')" and "like_plain d"
  shows "length ms = min (nat (if limit \<le> 0 then 50 else limit))
        (length (filter (\<lambda>m. HasPrefix (msg_Topic m) (''device/'' @ d @ ''/telemetry'')) (db_messages st)))
    \<and> sorted (map (\<lambda>m. - msg_Timestamp m) ms)
    \<and> (\<forall>m \<in> set ms. HasPrefix (msg_Topic m) (''device/'' @ d @ ''/telemetry''))
    \<and> (\<forall>row \<in> set (db_messages st). HasPrefix (msg_Topic row) (''device/'' @ d @ ''/telemetry'') \<longrightarrow>
         scanMessage row \<in> set ms \<or> (\<forall>m \<in> set ms. msg_Timestamp row \<le> msg_Timestamp m))"
proof -
  let ?l = "if limit \<le> 0 then 50 else limit"
  have "queryMessages (\<lambda>t. HasPrefix t (''device/'' @ d @ ''/telemetry'')) ?l st = (Inr ms, st')"
    using assms(1) unfolding GetTelemetry_def Let_def telemetry_pattern [OF assms(2)] .
  note newest = queryMessages_newest [OF this]
  from newest(1,2) newest(3,4) show ?thesis by auto
qed


text \<open>
  C35: a device that was registered is read back as it was returned, under the name given
  (its identifier when the name is empty); registering it again keeps the time of its creation.
\<close>

theorem RegisterDevice_GetDevice:
  assumes "RegisterDevice i n meta st = (Inr dev, st1)" and "db_fault st1 (db_stmts st1) = None"
  shows "fst (GetDevice i st1) = Inr dev \<and> dev_ID dev = i \<and> dev_Name dev = (if n = [] then i else n)
    \<and> (\<forall>old. fst (GetDevice i (st\<lparr>db_fault := (\<lambda>_. None)\<rparr>)) = Inr old \<longrightarrow>
         dev_CreatedAt dev = dev_CreatedAt old)"
proof -
  from RegisterDevice_InrD [OF assms(1)] obtain doc where "db_jsonb_doc st (marshal_metadata meta) = Inr doc"
      and r: "(let row = \<lparr>row_id = i, row_name = (if n = [] then i else n), row_metadata = doc,
                     row_created_at = db_now st (db_stmts st)\<rparr>
          in scanDevice (fst (upsert_device row (db_devices st))) = Inr dev
             \<and> db_devices st1 = snd (upsert_device row (db_devices st)))" by blast
  define row where "row = \<lparr>row_id = i, row_name = (if n = [] then i else n), row_metadata = doc,
                     row_created_at = db_now st (db_stmts st)\<rparr>"
  have ret: "scanDevice (fst (upsert_device row (db_devices st))) = Inr dev"
    and st1: "db_devices st1 = snd (upsert_device row (db_devices st))"
    using r by (simp_all only: Let_def row_def)
  have row: "row_id row = i" "row_name row = (if n = [] then i else n)"
    by (simp_all add: row_def)
  have "fst (GetDevice i st1) = Inr dev"
    using find_upsert_device [OF row(1), of "db_devices st"] ret st1 assms(2)
    by (simp add: GetDevice_def db_exec_def)
  moreover have "dev_CreatedAt dev = dev_CreatedAt old"
    if "fst (GetDevice i (st\<lparr>db_fault := (\<lambda>_. None)\<rparr>)) = Inr old" for old
    using that scanDevice_InrD [OF ret] upsert_device_fields(3) [of row] row(1)
    by (auto simp: GetDevice_def db_exec_def dest: scanDevice_InrD split: option.splits)
  ultimately show ?thesis
    using scanDevice_InrD [OF ret] row upsert_device_fields(1,2) by simp
qed

section \<open>Concrete runs\<close>

definition sample_message :: "string \<Rightarrow> string \<Rightarrow> time \<Rightarrow> Message" where
  "sample_message i topic t =
     \<lparr>msg_PacketID = i, msg_ClientID = ''c'', msg_Topic = topic, msg_QoS = 0,
      msg_Payload = Some ''{}'', msg_PacketType = PacketPublish, msg_Direction = ''inbound'',
      msg_Timestamp = t, msg_Acknowledged = True\<rparr>"

definition sample_store :: Store where
  "sample_store = empty_store\<lparr>db_messages :=
     [sample_message ''1'' ''device/d1/telemetry'' 5, sample_message ''2'' ''device/d2/telemetry'' 6,
      sample_message ''3'' ''device/d1/telemetry/a'' 7]\<rparr>"

theorem GetTelemetry_newest_witness:
  "fst (GetTelemetry ''d1'' 1 sample_store) = Inr [sample_message ''3'' ''device/d1/telemetry/a'' 7]
   \<and> HasPrefix (msg_Topic (sample_message ''3'' ''device/d1/telemetry/a'' 7)) ''device/d1/telemetry''"
proof -
  have r: "GetTelemetry ''d1'' 1 sample_store =
      (Inr [sample_message ''3'' ''device/d1/telemetry/a'' 7], sample_store\<lparr>db_stmts := 1\<rparr>)"
    by (simp add: GetTelemetry_def queryMessages_def telemetry_pattern [of "''d1''", simplified]
        like_plain_def sample_store_def empty_store_def db_exec_def scan_def sample_message_def
        HasPrefix_def insort_key_def scanMessage_def copy_raw_def)
  show ?thesis using GetTelemetry_newest [OF r] by (simp add: like_plain_def r)
qed


theorem RegisterDevice_GetDevice_witness:
  "fst (GetDevice ''d1'' (snd (RegisterDevice ''d1'' [] None empty_store))) =
     Inr \<lparr>dev_ID = ''d1'', dev_Name = ''d1'', dev_Metadata = None, dev_CreatedAt = 0\<rparr>"
proof -
  have "RegisterDevice ''d1'' [] None empty_store =
      (Inr \<lparr>dev_ID = ''d1'', dev_Name = ''d1'', dev_Metadata = None, dev_CreatedAt = 0\<rparr>,
       snd (RegisterDevice ''d1'' [] None empty_store))"
    by (simp add: RegisterDevice_def empty_store_def db_exec_def marshal_metadata_def
        upsert_device_def scanDevice_def Let_def)
  from RegisterDevice_GetDevice [OF this] show ?thesis
    by (simp add: RegisterDevice_def empty_store_def db_exec_def marshal_metadata_def
        upsert_device_def Let_def)
qed

text \<open>
  The device identifier is put into the \<open>LIKE\<close> pattern as it is: the telemetry of
  a device whose identifier has an underscore includes the messages of other devices.
\<close>

lemma GetTelemetry_underscore_leak:
  "fst (GetTelemetry ''d_'' 10 sample_store) =
     Inr [sample_message ''3'' ''device/d1/telemetry/a'' 7,
          sample_message ''2'' ''device/d2/telemetry'' 6,
          sample_message ''1'' ''device/d1/telemetry'' 5]"
  by code_simp

end
