(* ===== verification/Jwt.thy ===== *)
theory Jwt
  imports Prelude
begin

text \<open>
  Token issuance and verification, \<open>internal/auth/jwt/service.go\<close>. The JWT library
  (\<open>golang-jwt\<close>) is not part of the repository: its three entry points are the fields of
  a record that the operations take as an argument, and what the program relies on is stated as
  a named condition on that record.
\<close>

section \<open>Data\<close>

record Claims =
  clm_ClientID :: string
  clm_DeviceID :: string
  clm_Role :: string
  clm_Subject :: string
  clm_IssuedAt :: time
  clm_ExpiresAt :: time

record Service =
  svc_secret :: string
  svc_adminTTL :: duration
  svc_deviceTTL :: duration

record AuthConfig =
  cfg_JWTSecret :: string
  cfg_AdminTokenTTL :: duration
  cfg_DeviceTokenTTL :: duration

text \<open>
  The dynamic type of a token's signing method: an HMAC method or another one, whose type name
  (\<open>%T\<close>) is printed. \<open>tok_Claims\<close> is \<open>None\<close> when the type assertion to
  \<open>*Claims\<close> fails.
\<close>

datatype SigningMethod = HMAC string | OtherMethod string

record Token =
  tok_Method :: SigningMethod
  tok_Claims :: "Claims option"
  tok_Valid :: bool

type_synonym Keyfunc = "SigningMethod \<Rightarrow> error + string"

record jwt_lib =
  lib_ParseWithClaims :: "time \<Rightarrow> string \<Rightarrow> Keyfunc \<Rightarrow> error + Token"
  lib_SignedString :: "SigningMethod \<Rightarrow> Claims \<Rightarrow> string \<Rightarrow> error + string"
  lib_NewNumericDate :: "time \<Rightarrow> time"

definition SigningMethodHS256 :: SigningMethod where
  "SigningMethodHS256 = HMAC ''HS256''"

section \<open>Operations\<close>

definition Service_New :: "AuthConfig \<Rightarrow> Service" where
  "Service_New cfg =
     \<lparr>svc_secret = cfg_JWTSecret cfg, svc_adminTTL = cfg_AdminTokenTTL cfg,
      svc_deviceTTL = cfg_DeviceTokenTTL cfg\<rparr>"

fun Parse_keyfunc :: "Service \<Rightarrow> Keyfunc" where
  "Parse_keyfunc s (HMAC _) = Inr (svc_secret s)"
| "Parse_keyfunc s (OtherMethod ty) = Inl (''unexpected signing method '' @ ty)"

definition Parse :: "jwt_lib \<Rightarrow> time \<Rightarrow> Service \<Rightarrow> string \<Rightarrow> error + Claims" where
  "Parse lib now s token =
     (if token = [] then Inl ''missing token''
      else case lib_ParseWithClaims lib now token (Parse_keyfunc s) of
             Inl err \<Rightarrow> Inl (''parse jwt: '' @ err)
           | Inr parsed \<Rightarrow>
               (case tok_Claims parsed of
                  None \<Rightarrow> Inl ''invalid token''
                | Some claims \<Rightarrow>
                    if \<not> tok_Valid parsed then Inl ''invalid token'' else Inr claims))"

definition issueToken ::
  "jwt_lib \<Rightarrow> time \<Rightarrow> Service \<Rightarrow> string \<Rightarrow> string \<Rightarrow> string \<Rightarrow> duration \<Rightarrow> error + string" where
  "issueToken lib now s clientID deviceID role ttl =
     (let claims = \<lparr>clm_ClientID = clientID, clm_DeviceID = deviceID, clm_Role = role,
                    clm_Subject = clientID, clm_IssuedAt = lib_NewNumericDate lib now,
                    clm_ExpiresAt = lib_NewNumericDate lib (now + ttl)\<rparr>
      in case lib_SignedString lib SigningMethodHS256 claims (svc_secret s) of
           Inl err \<Rightarrow> Inl (''sign jwt: '' @ err)
         | Inr signed \<Rightarrow> Inr signed)"

definition IssueDeviceToken ::
  "jwt_lib \<Rightarrow> time \<Rightarrow> Service \<Rightarrow> string \<Rightarrow> duration \<Rightarrow> error + string" where
  "IssueDeviceToken lib now s deviceID ttl =
     (let ttl = (if ttl \<le> 0 then svc_deviceTTL s else ttl)
      in issueToken lib now s deviceID deviceID ''device'' ttl)"

definition IssueAdminToken ::
  "jwt_lib \<Rightarrow> time \<Rightarrow> Service \<Rightarrow> string \<Rightarrow> duration \<Rightarrow> error + string" where
  "IssueAdminToken lib now s clientID ttl =
     (let ttl = (if ttl \<le> 0 then svc_adminTTL s else ttl)
      in issueToken lib now s clientID [] ''admin'' ttl)"

section \<open>What the program relies on of the library\<close>

text \<open>
  The library asks the key function for the key of the token's own signing method and returns a
  token only when that key verifies the signature (\<open>verify\<close> is the signature check).
\<close>

definition lib_verifies :: "(SigningMethod \<Rightarrow> string \<Rightarrow> string \<Rightarrow> bool) \<Rightarrow> jwt_lib \<Rightarrow> bool" where
  "lib_verifies verify lib =
     (\<forall>now token kf parsed. lib_ParseWithClaims lib now token kf = Inr parsed \<longrightarrow>
        (\<exists>key. kf (tok_Method parsed) = Inr key \<and> verify (tok_Method parsed) key token))"

text \<open>
  A token signed with HS256 is not empty, and until its expiry it is read back with the claims
  it was signed with, when the key function gives the signing key.
\<close>

definition lib_round_trip :: "jwt_lib \<Rightarrow> bool" where
  "lib_round_trip lib =
     (\<forall>claims key token now kf.
        lib_SignedString lib SigningMethodHS256 claims key = Inr token \<longrightarrow>
        now < clm_ExpiresAt claims \<longrightarrow> kf SigningMethodHS256 = Inr key \<longrightarrow>
        token \<noteq> [] \<and>
        lib_ParseWithClaims lib now token kf =
          Inr \<lparr>tok_Method = SigningMethodHS256, tok_Claims = Some claims, tok_Valid = True\<rparr>)"

section \<open>Lemmas\<close>

lemma Parse_keyfunc_InrD: "Parse_keyfunc s m = Inr key \<Longrightarrow> key = svc_secret s \<and> (\<exists>a. m = HMAC a)"
  by (cases m) auto

lemma Parse_InrD:
  "Parse lib now s token = Inr claims \<Longrightarrow>
     token \<noteq> [] \<and> (\<exists>parsed. lib_ParseWithClaims lib now token (Parse_keyfunc s) = Inr parsed
       \<and> tok_Claims parsed = Some claims \<and> tok_Valid parsed)"
  by (auto simp: Parse_def split: if_splits sum.splits option.splits)

lemma issueToken_InrD:
  "issueToken lib now s c d r ttl = Inr token \<Longrightarrow>
     lib_SignedString lib SigningMethodHS256
       \<lparr>clm_ClientID = c, clm_DeviceID = d, clm_Role = r, clm_Subject = c,
        clm_IssuedAt = lib_NewNumericDate lib now,
        clm_ExpiresAt = lib_NewNumericDate lib (now + ttl)\<rparr> (svc_secret s) = Inr token"
  by (auto simp: issueToken_def Let_def split: sum.splits)

lemma Parse_issueToken:
  assumes "lib_round_trip lib" and "issueToken lib now s c d r ttl = Inr token"
    and "later < lib_NewNumericDate lib (now + ttl)"
  shows "Parse lib later s token =
    Inr \<lparr>clm_ClientID = c, clm_DeviceID = d, clm_Role = r, clm_Subject = c,
         clm_IssuedAt = lib_NewNumericDate lib now,
         clm_ExpiresAt = lib_NewNumericDate lib (now + ttl)\<rparr>"
proof -
  have "Parse_keyfunc s SigningMethodHS256 = Inr (svc_secret s)"
    by (simp add: SigningMethodHS256_def)
  with assms(1) issueToken_InrD [OF assms(2)] assms(3) show ?thesis
    unfolding lib_round_trip_def Parse_def by fastforce
qed

text \<open>
  A token is accepted only when it was signed with an HMAC method and its signature verifies
  under the service's own secret, whatever algorithm its header names.
\<close>

lemma Parse_verified:
  assumes "lib_verifies verify lib" and "Parse lib now s token = Inr claims"
  shows "\<exists>alg. verify (HMAC alg) (svc_secret s) token"
proof -
  from Parse_InrD [OF assms(2)] obtain parsed
    where "lib_ParseWithClaims lib now token (Parse_keyfunc s) = Inr parsed" by blast
  with assms(1) obtain key where "Parse_keyfunc s (tok_Method parsed) = Inr key"
    and "verify (tok_Method parsed) key token"
    unfolding lib_verifies_def by blast
  with Parse_keyfunc_InrD show ?thesis by metis
qed

text \<open>
  A device token the service issues is accepted by the same service until it expires, and carries
  the device's identifier as client, device and subject.
\<close>

lemma IssueDeviceToken_accepted:
  assumes "lib_round_trip lib" and "IssueDeviceToken lib now s d ttl = Inr token"
    and "later < lib_NewNumericDate lib (now + (if ttl \<le> 0 then svc_deviceTTL s else ttl))"
  shows "\<exists>claims. Parse lib later s token = Inr claims \<and> clm_ClientID claims = d
    \<and> clm_DeviceID claims = d \<and> clm_Subject claims = d \<and> clm_Role claims = ''device''
    \<and> clm_ExpiresAt claims = lib_NewNumericDate lib (now + (if ttl \<le> 0 then svc_deviceTTL s else ttl))"
  using Parse_issueToken [OF assms(1) assms(2) [unfolded IssueDeviceToken_def Let_def] assms(3)]
  by simp

section \<open>Concrete runs\<close>

text \<open>
  A library that knows one secret and a table of signed tokens: \<open>SignedString\<close> signs only
  the claims of the table, \<open>ParseWithClaims\<close> accepts only its tokens, until they expire.
\<close>

definition table_lib :: "Claims dict \<Rightarrow> string \<Rightarrow> jwt_lib" where
  "table_lib tbl key =
     \<lparr>lib_ParseWithClaims = (\<lambda>now token kf.
        case kf SigningMethodHS256 of
          Inl e \<Rightarrow> Inl e
        | Inr k \<Rightarrow>
            (case map_of tbl token of
               None \<Rightarrow> Inl ''signature is invalid''
             | Some claims \<Rightarrow>
                 if k \<noteq> key then Inl ''signature is invalid''
                 else if clm_ExpiresAt claims \<le> now then Inl ''token is expired''
                 else Inr \<lparr>tok_Method = SigningMethodHS256, tok_Claims = Some claims, tok_Valid = True\<rparr>)),
      lib_SignedString = (\<lambda>m claims k.
        if m = SigningMethodHS256 \<and> k = key then
          (case find (\<lambda>e. snd e = claims) tbl of None \<Rightarrow> Inl ''no such token'' | Some e \<Rightarrow> Inr (fst e))
        else Inl ''no such token''),
      lib_NewNumericDate = (\<lambda>t. t)\<rparr>"

lemma table_lib_verifies:
  "lib_verifies (\<lambda>m k t. k = key \<and> t \<in> fst ` set tbl) (table_lib tbl key)"
  by (force simp: lib_verifies_def table_lib_def dest: map_of_SomeD
      split: sum.splits if_splits option.splits)

lemma table_lib_round_trip:
  assumes "distinct (map fst tbl)" and "[] \<notin> fst ` set tbl"
  shows "lib_round_trip (table_lib tbl key)"
proof -
  have entry: "map_of tbl token = Some claims \<and> token \<noteq> [] \<and> k = key"
    if signed: "lib_SignedString (table_lib tbl key) SigningMethodHS256 claims k = Inr token"
    for claims k token
  proof -
    from signed obtain e where e: "find (\<lambda>e. snd e = claims) tbl = Some e" and k: "k = key"
      and token: "token = fst e"
      by (auto simp: table_lib_def split: option.splits if_splits)
    from e have "e \<in> set tbl" and "snd e = claims" by (auto simp: find_Some_iff)
    moreover from this have "map_of tbl (fst e) = Some (snd e)"
      by (intro map_of_is_SomeI [OF assms(1)]) auto
    moreover have "fst e \<noteq> []" using \<open>e \<in> set tbl\<close> assms(2) by (metis imageI)
    ultimately show ?thesis using token k by simp
  qed
  show ?thesis
    unfolding lib_round_trip_def
  proof (intro allI impI)
    fix claims k token now and kf :: Keyfunc
    assume signed: "lib_SignedString (table_lib tbl key) SigningMethodHS256 claims k = Inr token"
      and now: "now < clm_ExpiresAt claims" and kf: "kf SigningMethodHS256 = Inr k"
    show "token \<noteq> [] \<and> lib_ParseWithClaims (table_lib tbl key) now token kf =
        Inr \<lparr>tok_Method = SigningMethodHS256, tok_Claims = Some claims, tok_Valid = True\<rparr>"
      using entry [OF signed] now kf by (simp add: table_lib_def)
  qed
qed

definition d1_claims :: Claims where
  "d1_claims = \<lparr>clm_ClientID = ''d1'', clm_DeviceID = ''d1'', clm_Role = ''device'',
     clm_Subject = ''d1'', clm_IssuedAt = 0, clm_ExpiresAt = 1000\<rparr>"

definition admin_claims :: Claims where
  "admin_claims = \<lparr>clm_ClientID = ''ops'', clm_DeviceID = [], clm_Role = ''admin'',
     clm_Subject = ''ops'', clm_IssuedAt = 0, clm_ExpiresAt = 1000\<rparr>"

definition sample_auth :: AuthConfig where
  "sample_auth = \<lparr>cfg_JWTSecret = ''key'', cfg_AdminTokenTTL = 1000, cfg_DeviceTokenTTL = 1000\<rparr>"

definition sample_lib :: jwt_lib where
  "sample_lib = table_lib [(''tok'', d1_claims), (''adm'', admin_claims)] ''key''"

lemma sample_lib_round_trip: "lib_round_trip sample_lib"
  unfolding sample_lib_def by (rule table_lib_round_trip) simp_all

lemma sample_lib_verifies:
  "lib_verifies (\<lambda>m k t. k = ''key'' \<and> t \<in> {''tok'', ''adm''}) sample_lib"
  using table_lib_verifies [of "''key''" "[(''tok'', d1_claims), (''adm'', admin_claims)]"]
  by (simp add: sample_lib_def)

lemma sample_token: "IssueDeviceToken sample_lib 0 (Service_New sample_auth) ''d1'' 0 = Inr ''tok''"
  by (simp add: IssueDeviceToken_def issueToken_def sample_lib_def table_lib_def d1_claims_def
      Service_New_def sample_auth_def)

end
