(* ===== verification/World.thy ===== *)
theory World
  imports Database Jwt
begin

text \<open>
  What the broker's code reads from and writes to its surroundings: the clock and the
  identifier generator (\<open>TimestampNow\<close>, \<open>NewPacketID\<close> of \<open>pkg/qtt/utils\<close>),
  the QUIC streams behind the connections (\<open>packetConn\<close> of
  \<open>internal/transport/quic/server.go\<close>), the order of Go's map iteration, the JWT library
  and the database. Each source of answers is a function of the number of the call, so that two
  readings of the clock may differ and no law about them is built in:
  \<^item> \<open>w_clock n\<close> is the \<open>n\<close>-th reading of the clock, \<open>w_uuid n\<close> the
    \<open>n\<close>-th identifier of the UUID library;
  \<^item> \<open>w_link n c p\<close> is the error, if any, of the \<open>n\<close>-th write, of packet \<open>p\<close> on
    connection \<open>c\<close> (encoding, deadline and stream errors alike), and \<open>w_wire\<close> the log of
    the packets that were written; \<open>w_closed\<close> lists the connections that were closed;
  \<^item> \<open>w_rank n\<close> ranks the keys of the map that is ranged over for the \<open>n\<close>-th time.
\<close>

record world =
  w_store :: Store
  w_jwt :: jwt_lib
  w_clock :: "nat \<Rightarrow> time"
  w_ticks :: nat
  w_uuid :: "nat \<Rightarrow> string"
  w_uuids :: nat
  w_rank :: "nat \<Rightarrow> string \<Rightarrow> nat"
  w_ranges :: nat
  w_link :: "nat \<Rightarrow> conn \<Rightarrow> Packet \<Rightarrow> error option"
  w_sends :: nat
  w_wire :: "(conn \<times> Packet) list"
  w_closed :: "conn list"

section \<open>Operations\<close>

definition TimestampNow :: "world \<Rightarrow> time \<times> world" where
  "TimestampNow w = (w_clock w (w_ticks w), w\<lparr>w_ticks := Suc (w_ticks w)\<rparr>)"

definition NewPacketID :: "world \<Rightarrow> string \<times> world" where
  "NewPacketID w = (w_uuid w (w_uuids w), w\<lparr>w_uuids := Suc (w_uuids w)\<rparr>)"

text \<open>The keys of a map in the order in which a \<open>range\<close> loop meets them.\<close>

definition range_keys :: "string list \<Rightarrow> world \<Rightarrow> string list \<times> world" where
  "range_keys keys w = (sort_key (w_rank w (w_ranges w)) keys, w\<lparr>w_ranges := Suc (w_ranges w)\<rparr>)"

definition Send :: "conn \<Rightarrow> Packet \<Rightarrow> world \<Rightarrow> error option \<times> world" where
  "Send c packet w =
     (case w_link w (w_sends w) c packet of
        Some err \<Rightarrow> (Some err, w\<lparr>w_sends := Suc (w_sends w)\<rparr>)
      | None \<Rightarrow> (None, w\<lparr>w_sends := Suc (w_sends w), w_wire := w_wire w @ [(c, packet)]\<rparr>))"

definition Close :: "conn \<Rightarrow> world \<Rightarrow> world" where
  "Close c w = w\<lparr>w_closed := c # w_closed w\<rparr>"

text \<open>An operation of the database, run on the world's store.\<close>

definition on_store :: "(Store \<Rightarrow> 'a \<times> Store) \<Rightarrow> world \<Rightarrow> 'a \<times> world" where
  "on_store f w = (case f (w_store w) of (r, st) \<Rightarrow> (r, w\<lparr>w_store := st\<rparr>))"

section \<open>Lemmas\<close>

lemma TimestampNow_frame [simp]:
  "w_store (snd (TimestampNow w)) = w_store w"
  "w_jwt (snd (TimestampNow w)) = w_jwt w"
  "w_clock (snd (TimestampNow w)) = w_clock w"
  "w_uuid (snd (TimestampNow w)) = w_uuid w"
  "w_uuids (snd (TimestampNow w)) = w_uuids w"
  "w_rank (snd (TimestampNow w)) = w_rank w"
  "w_ranges (snd (TimestampNow w)) = w_ranges w"
  "w_link (snd (TimestampNow w)) = w_link w"
  "w_sends (snd (TimestampNow w)) = w_sends w"
  "w_wire (snd (TimestampNow w)) = w_wire w"
  by (simp_all add: TimestampNow_def)

lemma NewPacketID_frame [simp]:
  "w_store (snd (NewPacketID w)) = w_store w"
  "w_jwt (snd (NewPacketID w)) = w_jwt w"
  "w_wire (snd (NewPacketID w)) = w_wire w"
  by (simp_all add: NewPacketID_def)

lemma range_keys_frame [simp]:
  "w_store (snd (range_keys ks w)) = w_store w"
  "w_jwt (snd (range_keys ks w)) = w_jwt w"
  "w_wire (snd (range_keys ks w)) = w_wire w"
  by (simp_all add: range_keys_def)

lemma set_range_keys [simp]: "set (fst (range_keys ks w)) = set ks"
  by (simp add: range_keys_def)

lemma distinct_range_keys [simp]: "distinct (fst (range_keys ks w)) = distinct ks"
  by (simp add: range_keys_def)

lemma Send_frame [simp]:
  "w_store (snd (Send c p w)) = w_store w"
  "w_jwt (snd (Send c p w)) = w_jwt w"
  by (auto simp: Send_def split: option.splits)

lemma Close_frame [simp]:
  "w_store (Close c w) = w_store w"
  "w_jwt (Close c w) = w_jwt w"
  "w_wire (Close c w) = w_wire w"
  by (simp_all add: Close_def)

lemma Send_wire:
  "w_wire (snd (Send c p w)) = w_wire w @ (if fst (Send c p w) = None then [(c, p)] else [])"
  by (auto simp: Send_def split: option.splits)

lemma on_store_frame [simp]:
  "w_store (snd (on_store f w)) = snd (f (w_store w))"
  "fst (on_store f w) = fst (f (w_store w))"
  "w_jwt (snd (on_store f w)) = w_jwt w"
  "w_wire (snd (on_store f w)) = w_wire w"
  by (simp_all add: on_store_def split: prod.splits)

end
