(* ===== verification/Queues.thy ===== *)
theory Queues
  imports World
begin

text \<open>
  The two queues of \<open>internal/queue\<close>: the PostgreSQL-backed offline queue
  (\<open>persistent/store.go\<close>) that the router and the broker use, and the in-memory one
  (\<open>memory/store.go\<close>).
\<close>

section \<open>The persistent queue\<close>

text \<open>
  The queue holds the repository and a time to live; no operation reads the latter.
\<close>

definition Enqueue :: "string \<Rightarrow> Packet \<Rightarrow> world \<Rightarrow> error option \<times> world" where
  "Enqueue clientID packet w =
     (case TimestampNow w of
        (now, w) \<Rightarrow>
          on_store (EnqueueOfflineMessage
            \<lparr>off_PacketID = pkt_PacketID packet, off_ClientID = clientID,
             off_Topic = pkt_Topic packet, off_QoS = pkt_QoS packet,
             off_Payload = pkt_Payload packet, off_EnqueuedAt = now, off_AvailableAt = now\<rparr>) w)"

definition pending_packet :: "OfflineMessage \<Rightarrow> Packet" where
  "pending_packet item =
     zero_Packet\<lparr>pkt_Type := PacketPublish, pkt_PacketID := off_PacketID item,
       pkt_Topic := off_Topic item, pkt_QoS := off_QoS item, pkt_Payload := off_Payload item,
       pkt_Timestamp := off_EnqueuedAt item\<rparr>"

definition Pending :: "string \<Rightarrow> world \<Rightarrow> (error + Packet list) \<times> world" where
  "Pending clientID w =
     (case on_store (GetOfflineMessages clientID) w of
        (Inl err, w) \<Rightarrow> (Inl err, w)
      | (Inr items, w) \<Rightarrow> (Inr (map pending_packet items), w))"

definition Ack :: "string \<Rightarrow> world \<Rightarrow> error option \<times> world" where
  "Ack packetID w = on_store (DeleteOfflineMessage packetID) w"

section \<open>The in-memory queue\<close>

type_synonym MemoryStore = "Packet list dict"

definition memory_NewStore :: MemoryStore where
  "memory_NewStore = []"

definition memory_items :: "MemoryStore \<Rightarrow> string \<Rightarrow> Packet list" where
  "memory_items s clientID = (case map_of s clientID of None \<Rightarrow> [] | Some ps \<Rightarrow> ps)"

definition memory_Enqueue :: "string \<Rightarrow> Packet \<Rightarrow> MemoryStore \<Rightarrow> MemoryStore" where
  "memory_Enqueue clientID packet s =
     AList.update clientID (memory_items s clientID @ [Clone packet]) s"

definition memory_Drain :: "string \<Rightarrow> MemoryStore \<Rightarrow> Packet list \<times> MemoryStore" where
  "memory_Drain clientID s = (memory_items s clientID, AList.delete clientID s)"

section \<open>Contracts\<close>

text \<open>A first-in first-out queue per client that stores a transformed copy.\<close>

locale client_queue =
  fixes empty :: "'q"
    and enq :: "string \<Rightarrow> 'p \<Rightarrow> 'q \<Rightarrow> 'q"
    and drain :: "string \<Rightarrow> 'q \<Rightarrow> 'p list \<times> 'q"
    and items :: "'q \<Rightarrow> string \<Rightarrow> 'p list"
    and stored :: "'p \<Rightarrow> 'p"
  assumes items_empty: "items empty c = []"
    and items_enq: "items (enq c p q) d = (if d = c then items q d @ [stored p] else items q d)"
    and drain_items: "fst (drain c q) = items q c"
    and items_drain: "items (snd (drain c q)) d = (if d = c then [] else items q d)"
begin

lemma items_enqs:
  "items (foldl (\<lambda>q (c, p). enq c p q) q cps) d =
     items q d @ map (stored \<circ> snd) (filter (\<lambda>(c, _). c = d) cps)"
  by (induction cps arbitrary: q) (auto simp: items_enq)

lemma drain_after_enqs:
  "fst (drain d (foldl (\<lambda>q (c, p). enq c p q) empty cps)) =
     map (stored \<circ> snd) (filter (\<lambda>(c, _). c = d) cps)"
  by (simp add: drain_items items_enqs items_empty)

lemma drain_drain: "fst (drain c (snd (drain c q))) = []"
  by (simp add: drain_items items_drain)

end

interpretation memory: client_queue memory_NewStore memory_Enqueue memory_Drain memory_items Clone
  by unfold_locales
    (auto simp: memory_NewStore_def memory_items_def memory_Enqueue_def memory_Drain_def
      split: option.splits)

section \<open>Lemmas\<close>

definition queued_ids :: "world \<Rightarrow> string set" where
  "queued_ids w = off_PacketID ` set (db_offline (w_store w))"

lemma EnqueueOfflineMessage_ids:
  "off_PacketID ` set (db_offline (snd (EnqueueOfflineMessage m st))) =
     (if fst (EnqueueOfflineMessage m st) = None
      then insert (off_PacketID m) (off_PacketID ` set (db_offline st))
      else off_PacketID ` set (db_offline st))"
  by (auto simp: EnqueueOfflineMessage_def db_exec_def offline_row_def insert_offline_def Let_def
      split: option.splits sum.splits)

lemma Enqueue_queued:
  "queued_ids (snd (Enqueue c p w)) =
     (if fst (Enqueue c p w) = None then insert (pkt_PacketID p) (queued_ids w) else queued_ids w)"
  by (simp add: Enqueue_def queued_ids_def EnqueueOfflineMessage_ids split: prod.splits)
    (metis TimestampNow_frame(1) snd_conv)

lemma Enqueue_frame [simp]:
  "w_jwt (snd (Enqueue c p w)) = w_jwt w"
  "w_wire (snd (Enqueue c p w)) = w_wire w"
  by (auto simp: Enqueue_def TimestampNow_def)

lemma Pending_frame [simp]:
  "w_jwt (snd (Pending c w)) = w_jwt w"
  "w_wire (snd (Pending c w)) = w_wire w"
  by (auto simp: Pending_def on_store_def split: sum.splits prod.splits)

lemma Ack_frame [simp]:
  "w_jwt (snd (Ack i w)) = w_jwt w"
  "w_wire (snd (Ack i w)) = w_wire w"
  by (simp_all add: Ack_def)

lemma queued_ids_frame [simp]:
  "queued_ids (snd (Send c p w)) = queued_ids w"
  "queued_ids (snd (range_keys ks w)) = queued_ids w"
  by (simp_all add: queued_ids_def)

lemma Pending_offline [simp]: "db_offline (w_store (snd (Pending c w))) = db_offline (w_store w)"
  by (simp add: Pending_def case_prod_beta split: sum.splits)

text \<open>\<open>Pending\<close> returns all rows of the client, the earliest available first.\<close>

lemma Pending_rows:
  assumes "fst (Pending c w) = Inr ps"
  obtains rows where "ps = map (pending_packet \<circ> scanOffline) rows"
    and "mset rows = filter_mset (\<lambda>r. off_ClientID r = c) (mset (db_offline (w_store w)))"
    and "sorted (map off_AvailableAt rows)"
    and "set rows = {r \<in> set (db_offline (w_store w)). off_ClientID r = c}"
proof (rule that)
  let ?rows = "sort_key off_AvailableAt (filter (\<lambda>r. off_ClientID r = c)
      (scan (w_store w) off_PacketID (db_offline (w_store w))))"
  show "ps = map (pending_packet \<circ> scanOffline) ?rows"
    using assms by (auto simp: Pending_def case_prod_beta GetOfflineMessages_def db_exec_def Let_def
        split: sum.splits option.splits)
qed auto

lemma EnqueueOfflineMessage_NoneD:
  "EnqueueOfflineMessage m st = (None, st') \<Longrightarrow>
     \<exists>row. offline_row st (m\<lparr>off_Payload := default_payload (off_Payload m)\<rparr>) = Inr row
       \<and> db_offline st' = insert_offline row (db_offline st)"
  by (auto simp: EnqueueOfflineMessage_def Let_def db_exec_def split: option.splits sum.splits)

lemma Enqueue_NoneD:
  assumes "fst (Enqueue c p w) = None"
  shows "\<exists>row. off_PacketID row = pkt_PacketID p \<and> off_ClientID row = c
    \<and> off_Topic row = pkt_Topic p \<and> off_QoS row = pkt_QoS p
    \<and> column_jsonb (w_store w) (default_payload (pkt_Payload p)) = Inr (off_Payload row)
    \<and> db_offline (w_store (snd (Enqueue c p w))) = insert_offline row (db_offline (w_store w))"
proof -
  let ?now = "fst (TimestampNow w)"
  let ?m = "\<lparr>off_PacketID = pkt_PacketID p, off_ClientID = c, off_Topic = pkt_Topic p,
     off_QoS = pkt_QoS p, off_Payload = pkt_Payload p, off_EnqueuedAt = ?now, off_AvailableAt = ?now\<rparr>"
  have "EnqueueOfflineMessage ?m (w_store w) = (None, w_store (snd (Enqueue c p w)))"
    using assms by (auto simp: Enqueue_def case_prod_beta on_store_def prod_eq_iff)
  from EnqueueOfflineMessage_NoneD [OF this] offline_row_InrD show ?thesis by fastforce
qed

section \<open>Properties\<close>

text \<open>
  C29: what is queued for a client comes back: a packet whose identifier the queue does
  not hold yet is, once \<open>Enqueue\<close> succeeded, among the client's pending packets, as a
  \<open>PUBLISH\<close> with its identifier, topic and QoS and the payload the \<open>JSONB\<close> column
  stored (the empty object when it had none).
\<close>

theorem Enqueue_Pending_roundtrip:
  assumes "fst (Enqueue c p w) = None" and "pkt_PacketID p \<notin> queued_ids w"
    and "fst (Pending c (snd (Enqueue c p w))) = Inr ps"
  shows "\<exists>q \<in> set ps. pkt_Type q = PacketPublish \<and> pkt_PacketID q = pkt_PacketID p
    \<and> pkt_Topic q = pkt_Topic p \<and> pkt_QoS q = pkt_QoS p
    \<and> (\<exists>b. db_jsonb (w_store w) (if raw_len (pkt_Payload p) = 0 then ''{}'' else the (pkt_Payload p)) = Inr b
         \<and> pkt_Payload q = copy_raw b)"
proof -
  from Enqueue_NoneD [OF assms(1)] obtain row where row: "off_PacketID row = pkt_PacketID p"
      "off_ClientID row = c" "off_Topic row = pkt_Topic p" "off_QoS row = pkt_QoS p"
    and payload: "column_jsonb (w_store w) (default_payload (pkt_Payload p)) = Inr (off_Payload row)"
    and db: "db_offline (w_store (snd (Enqueue c p w))) = insert_offline row (db_offline (w_store w))" by blast
  from Pending_rows [OF assms(3)] obtain rows where ps: "ps = map (pending_packet \<circ> scanOffline) rows"
    and rows: "set rows = {r \<in> set (db_offline (w_store (snd (Enqueue c p w)))). off_ClientID r = c}"
    by blast
  have "row \<in> set (db_offline (w_store (snd (Enqueue c p w))))"
    using db row assms(2) by (simp add: insert_offline_def queued_ids_def)
  with row(2) have "row \<in> set rows"
    using rows by simp
  then have "pending_packet (scanOffline row) \<in> set ps" by (simp add: ps)
  with row payload show ?thesis
    by (intro bexI [of _ "pending_packet (scanOffline row)"])
      (auto simp: pending_packet_def scanOffline_def column_jsonb_def default_payload_def raw_len_def
        split: sum.splits option.splits if_splits)
qed


text \<open>
  The in-memory queue is first in, first out per client: draining a client returns
  copies of exactly the packets enqueued for it, in order, however the enqueues for other clients
  are interleaved; a second drain returns nothing.
\<close>

lemma memory_queue_fifo:
  "let q = foldl (\<lambda>q (c, p). memory_Enqueue c p q) memory_NewStore cps
   in fst (memory_Drain d q) = map Clone (map snd (filter (\<lambda>(c, _). c = d) cps))
      \<and> fst (memory_Drain d (snd (memory_Drain d q))) = []"
  by (simp add: memory.drain_after_enqs memory.drain_drain)

section \<open>Concrete runs\<close>

text \<open>Surroundings in which the clock counts, nothing fails and the store is given.\<close>

definition calm_world :: "jwt_lib \<Rightarrow> Store \<Rightarrow> world" where
  "calm_world lib st =
     \<lparr>w_store = st, w_jwt = lib, w_clock = (\<lambda>n. int n + 1), w_ticks = 0,
      w_uuid = (\<lambda>n. CHR ''u'' # replicate n (CHR ''1'')), w_uuids = 0, w_rank = (\<lambda>_ _. 0),
      w_ranges = 0, w_link = (\<lambda>_ _ _. None), w_sends = 0, w_wire = [], w_closed = []\<rparr>"

definition d1_world :: world where
  "d1_world = calm_world sample_lib empty_store"

definition sample_packet :: "string \<Rightarrow> string \<Rightarrow> Packet" where
  "sample_packet i topic = zero_Packet\<lparr>pkt_Type := PacketPublish, pkt_PacketID := i,
     pkt_Topic := topic, pkt_QoS := 1, pkt_Payload := Some ''{}''\<rparr>"

theorem Enqueue_Pending_roundtrip_witness:
  "\<exists>q \<in> set [sample_packet ''1'' ''t''\<lparr>pkt_Timestamp := 1\<rparr>]. pkt_PacketID q = ''1''"
proof -
  have e: "fst (Enqueue ''d1'' (sample_packet ''1'' ''t'') d1_world) = None"
    and n: "pkt_PacketID (sample_packet ''1'' ''t'') \<notin> queued_ids d1_world"
    and p: "fst (Pending ''d1'' (snd (Enqueue ''d1'' (sample_packet ''1'' ''t'') d1_world))) =
      Inr [sample_packet ''1'' ''t''\<lparr>pkt_Timestamp := 1\<rparr>]"
    by code_simp+
  from Enqueue_Pending_roundtrip [OF e n p] show ?thesis by (auto simp: sample_packet_def)
qed

definition two_queued :: world where
  "two_queued = snd (Enqueue ''d1'' (sample_packet ''1'' ''t'')
     (snd (Enqueue ''d2'' (sample_packet ''0'' ''t'') d1_world)))"


end
