(* ===== verification/Topics.thy ===== *)
theory Topics
  imports Prelude
begin

text \<open>
  The topic functions of \<open>pkg/qtt/utils/helpers.go\<close>: who owns a topic and whether a
  subscription filter with the wildcards \<open>+\<close> and \<open>#\<close> matches a topic. The loop of
  \<open>MatchTopic\<close> keeps its index; a reference definition says what the wildcards mean, and
  the two agree.
\<close>

section \<open>Operations\<close>

definition TopicOwner :: "string \<Rightarrow> string" where
  "TopicOwner topic =
     (let parts = Split (CHR ''/'') topic
      in if length parts < 2 then []
         else if parts ! 0 \<noteq> ''device'' then []
         else parts ! 1)"

function MatchTopic_loop :: "string list \<Rightarrow> string list \<Rightarrow> nat \<Rightarrow> bool" where
  "MatchTopic_loop filterParts topicParts idx =
     (if idx < length filterParts then
        (if length topicParts \<le> idx then filterParts ! idx = ''#''
         else if filterParts ! idx = ''#'' then True
         else if filterParts ! idx = ''+'' then MatchTopic_loop filterParts topicParts (Suc idx)
         else if filterParts ! idx \<noteq> topicParts ! idx then False
         else MatchTopic_loop filterParts topicParts (Suc idx))
      else length filterParts = length topicParts)"
  by pat_completeness auto
termination
  by (relation "measure (\<lambda>(fs, ts, idx). length fs - idx)") auto

definition MatchTopic :: "string \<Rightarrow> string \<Rightarrow> bool" where
  "MatchTopic flt topic =
     MatchTopic_loop (Split (CHR ''/'') flt) (Split (CHR ''/'') topic) 0"

section \<open>What the wildcards mean\<close>

text \<open>
  A filter level matches a topic level when it is \<open>+\<close> or equal to it. The levels before the
  first \<open>#\<close> are matched one by one; after a \<open>#\<close> every rest of the topic is
  accepted, the empty one included, and without a \<open>#\<close> the topic has no further level.
\<close>

definition level_match :: "string \<Rightarrow> string \<Rightarrow> bool" where
  "level_match f t = (f = ''+'' \<or> f = t)"

definition filter_accepts :: "string list \<Rightarrow> string list \<Rightarrow> bool" where
  "filter_accepts fs ts =
     (let ls = takeWhile (\<lambda>f. f \<noteq> ''#'') fs
      in if ''#'' \<in> set fs
         then length ls \<le> length ts \<and> list_all2 level_match ls (take (length ls) ts)
         else list_all2 level_match ls ts)"

definition wildcard_free :: "string \<Rightarrow> bool" where
  "wildcard_free s = (\<forall>l \<in> set (Split (CHR ''/'') s). l \<noteq> ''+'' \<and> l \<noteq> ''#'')"

section \<open>Lemmas\<close>

declare MatchTopic_loop.simps [simp del]

lemma filter_accepts_Nil [simp]: "filter_accepts [] ts \<longleftrightarrow> ts = []"
  by (auto simp: filter_accepts_def)

lemma filter_accepts_Cons [simp]:
  "filter_accepts (f # fs) ts \<longleftrightarrow>
     f = ''#'' \<or> (\<exists>t ts'. ts = t # ts' \<and> level_match f t \<and> filter_accepts fs ts')"
  by (cases ts) (auto simp: filter_accepts_def Let_def)

text \<open>The loop at index \<open>idx\<close> decides the rest of the two lists from there.\<close>

lemma MatchTopic_loop_accepts:
  "idx \<le> length fs \<Longrightarrow> idx \<le> length ts \<Longrightarrow>
     MatchTopic_loop fs ts idx \<longleftrightarrow> filter_accepts (drop idx fs) (drop idx ts)"
proof (induction fs ts idx rule: MatchTopic_loop.induct)
  case (1 fs ts idx)
  show ?case
  proof (cases "idx < length fs \<and> idx < length ts")
    case True
    then have "drop idx fs = fs ! idx # drop (Suc idx) fs"
      and "drop idx ts = ts ! idx # drop (Suc idx) ts"
      by (simp_all add: Cons_nth_drop_Suc)
    with True "1.IH" show ?thesis
      by (auto simp: MatchTopic_loop.simps [of fs ts idx] level_match_def)
  next
    case False
    show ?thesis
    proof (cases "idx < length fs")
      case True
      with False "1.prems" have "drop idx fs = fs ! idx # drop (Suc idx) fs" and "idx = length ts"
        by (simp_all add: Cons_nth_drop_Suc)
      with True show ?thesis unfolding MatchTopic_loop.simps [of fs ts idx] by simp
    next
      case False
      with "1.prems" show ?thesis unfolding MatchTopic_loop.simps [of fs ts idx] by auto
    qed
  qed
qed

lemma MatchTopic_accepts:
  "MatchTopic f t \<longleftrightarrow> filter_accepts (Split (CHR ''/'') f) (Split (CHR ''/'') t)"
  by (simp add: MatchTopic_def MatchTopic_loop_accepts)

lemma filter_accepts_plain:
  "\<forall>l \<in> set fs. l \<noteq> ''+'' \<and> l \<noteq> ''#'' \<Longrightarrow> filter_accepts fs ts \<longleftrightarrow> fs = ts"
  by (induction fs arbitrary: ts) (auto simp: level_match_def)

lemma MatchTopic_plain: "wildcard_free f \<Longrightarrow> MatchTopic f t \<longleftrightarrow> f = t"
  by (simp add: MatchTopic_accepts wildcard_free_def filter_accepts_plain Split_inject)

lemma MatchTopic_refl: "MatchTopic t t"
proof -
  have "filter_accepts ls ls" for ls by (induction ls) (auto simp: level_match_def)
  then show ?thesis by (simp add: MatchTopic_accepts)
qed

lemma Split_device_topic:
  "CHR ''/'' \<notin> set d \<Longrightarrow>
     Split (CHR ''/'') (''device/'' @ d @ CHR ''/'' # rest) =
       ''device'' # d # Split (CHR ''/'') rest"
  using Split_append [of "CHR ''/''" "''device''" "d @ CHR ''/'' # rest"]
  by (simp add: Split_append Split_atom)

section \<open>Properties\<close>

text \<open>
  C21: the indexed loop of \<open>MatchTopic\<close> computes the meaning of the wildcards: the
  levels before the first \<open>#\<close> match one by one (\<open>+\<close> matches any level), a
  \<open>#\<close> accepts every rest, and a filter without one has as many levels as the topic.
\<close>

theorem MatchTopic_meaning:
  "MatchTopic flt topic \<longleftrightarrow>
     filter_accepts (Split (CHR ''/'') flt) (Split (CHR ''/'') topic)"
  by (rule MatchTopic_accepts)

end
