(* ===== verification/Subscriptions.thy ===== *)
theory Subscriptions
  imports Packets Topics
begin

text \<open>
  The subscription registry, \<open>internal/broker/subscription/registry.go\<close>: a map from
  client identifiers to their subscriptions. The loop that adds a batch of subscriptions to a
  list also occurs, with the same text, in the session store; the locale
  \<open>subscription_store\<close> is the contract of the two.
\<close>

section \<open>Data\<close>

record Match =
  mt_ClientID :: string
  mt_Filter :: string
  mt_QoS :: int

text \<open>The registry is its mutex-protected map \<open>byClient\<close>.\<close>

type_synonym Registry = "Subscription list dict"

section \<open>Operations\<close>

definition NewRegistry :: Registry where
  "NewRegistry = []"

text \<open>
  The inner loop: overwrite the first entry with the same topic; the flag is \<open>replaced\<close>.
\<close>

fun replace_topic :: "Subscription \<Rightarrow> Subscription list \<Rightarrow> bool \<times> Subscription list" where
  "replace_topic new [] = (False, [])"
| "replace_topic new (s # ss) =
     (if sub_Topic s = sub_Topic new then (True, new # ss)
      else (case replace_topic new ss of (replaced, ss') \<Rightarrow> (replaced, s # ss')))"

definition upsert_sub :: "Subscription list \<Rightarrow> Subscription \<Rightarrow> Subscription list" where
  "upsert_sub existing new =
     (case replace_topic new existing of
        (replaced, existing') \<Rightarrow> if \<not> replaced then existing' @ [new] else existing')"

definition upsert_subs :: "Subscription list \<Rightarrow> Subscription list \<Rightarrow> Subscription list" where
  "upsert_subs existing subscriptions = foldl upsert_sub existing subscriptions"

text \<open>A missing key reads as the nil slice.\<close>

definition Registry_List :: "Registry \<Rightarrow> string \<Rightarrow> Subscription list" where
  "Registry_List r clientID = (case map_of r clientID of None \<Rightarrow> [] | Some values \<Rightarrow> values)"

definition Registry_Add :: "Registry \<Rightarrow> string \<Rightarrow> Subscription list \<Rightarrow> Registry" where
  "Registry_Add r clientID subscriptions =
     (let existing = Registry_List r clientID
      in AList.update clientID (upsert_subs existing subscriptions) r)"

text \<open>
  \<open>Match\<close> ranges over the map in an order the language leaves open: \<open>order\<close> is the
  sequence of keys it visits.
\<close>

fun match_subscriptions :: "string \<Rightarrow> string \<Rightarrow> Subscription list \<Rightarrow> Match list" where
  "match_subscriptions topic clientID [] = []"
| "match_subscriptions topic clientID (s # ss) =
     (if MatchTopic (sub_Topic s) topic
      then \<lparr>mt_ClientID = clientID, mt_Filter = sub_Topic s, mt_QoS = sub_QoS s\<rparr>
             # match_subscriptions topic clientID ss
      else match_subscriptions topic clientID ss)"

definition Registry_Match :: "string list \<Rightarrow> Registry \<Rightarrow> string \<Rightarrow> Match list" where
  "Registry_Match order r topic =
     concat (map (\<lambda>clientID. match_subscriptions topic clientID (Registry_List r clientID)) order)"

section \<open>The contract of a subscription store\<close>

text \<open>What a list of subscriptions grants: the QoS of a topic filter.\<close>

definition granted :: "Subscription list \<Rightarrow> (string \<rightharpoonup> int)" where
  "granted subs = map_of (map (\<lambda>s. (sub_Topic s, sub_QoS s)) subs)"

definition distinct_topics :: "Subscription list \<Rightarrow> bool" where
  "distinct_topics subs = distinct (map sub_Topic subs)"

lemma replace_topic_spec:
  "replace_topic new ss = (b, ss') \<Longrightarrow>
     (b \<longleftrightarrow> sub_Topic new \<in> sub_Topic ` set ss) \<and> map sub_Topic ss' = map sub_Topic ss
     \<and> (b \<longrightarrow> granted ss' = (granted ss)(sub_Topic new \<mapsto> sub_QoS new)) \<and> (\<not> b \<longrightarrow> ss' = ss)
     \<and> set ss' \<subseteq> insert new (set ss)"
proof (induction ss arbitrary: b ss')
  case Nil
  then show ?case by simp
next
  case (Cons s ss)
  show ?case
  proof (cases "sub_Topic s = sub_Topic new")
    case True
    with Cons.prems show ?thesis by (auto simp: granted_def fun_eq_iff)
  next
    case False
    with Cons.prems obtain ss1 where "replace_topic new ss = (b, ss1)" and "ss' = s # ss1"
      by (auto split: prod.splits)
    with Cons.IH False show ?thesis
      by (auto simp: granted_def fun_eq_iff)
  qed
qed

lemma granted_append:
  "granted (xs @ [s]) = (\<lambda>t. if t \<in> sub_Topic ` set xs then granted xs t
     else if t = sub_Topic s then Some (sub_QoS s) else None)"
  by (induction xs) (auto simp: granted_def fun_eq_iff)

lemma granted_None_iff: "granted xs t = None \<longleftrightarrow> t \<notin> sub_Topic ` set xs"
  by (simp add: granted_def map_of_eq_None_iff image_image)

lemma granted_upsert_sub:
  "granted (upsert_sub xs s) = (granted xs)(sub_Topic s \<mapsto> sub_QoS s)"
proof -
  obtain b xs' where r: "replace_topic s xs = (b, xs')" by fastforce
  show ?thesis
    using replace_topic_spec [OF r]
    by (cases b) (auto simp: upsert_sub_def r granted_append fun_eq_iff granted_None_iff [THEN iffD2])
qed

lemma topics_upsert_sub:
  "map sub_Topic (upsert_sub xs s) =
     (if sub_Topic s \<in> sub_Topic ` set xs then map sub_Topic xs
      else map sub_Topic xs @ [sub_Topic s])"
proof -
  obtain b xs' where r: "replace_topic s xs = (b, xs')" by fastforce
  show ?thesis
    using replace_topic_spec [OF r] by (cases b) (auto simp: upsert_sub_def r)
qed

lemma set_upsert_sub: "set (upsert_sub xs s) \<subseteq> insert s (set xs)"
proof -
  obtain b xs' where r: "replace_topic s xs = (b, xs')" by fastforce
  show ?thesis
    using replace_topic_spec [OF r] by (cases b) (auto simp: upsert_sub_def r)
qed

lemma granted_upsert_subs:
  "granted (upsert_subs xs subs) =
     foldl (\<lambda>g s. g(sub_Topic s \<mapsto> sub_QoS s)) (granted xs) subs"
  by (induction subs arbitrary: xs) (auto simp: upsert_subs_def granted_upsert_sub)

lemma foldl_map_upd_last:
  "foldl (\<lambda>g s. g(sub_Topic s \<mapsto> sub_QoS s)) g subs t =
     (case find (\<lambda>s. sub_Topic s = t) (rev subs) of Some s \<Rightarrow> Some (sub_QoS s) | None \<Rightarrow> g t)"
  by (induction subs rule: rev_induct) auto

lemma distinct_upsert_subs: "distinct_topics xs \<Longrightarrow> distinct_topics (upsert_subs xs subs)"
  by (induction subs arbitrary: xs)
    (auto simp: upsert_subs_def distinct_topics_def topics_upsert_sub)

lemma set_upsert_subs: "set (upsert_subs xs subs) \<subseteq> set xs \<union> set subs"
proof (induction subs arbitrary: xs)
  case Nil
  then show ?case by (simp add: upsert_subs_def)
next
  case (Cons s subs)
  then show ?case
    using set_upsert_sub [of xs s] unfolding upsert_subs_def by fastforce
qed

lemma upsert_subs_append: "upsert_subs (upsert_subs xs as) bs = upsert_subs xs (as @ bs)"
  by (simp add: upsert_subs_def)

locale subscription_store =
  fixes add :: "'m \<Rightarrow> string \<Rightarrow> Subscription list \<Rightarrow> 'm"
    and subs_of :: "'m \<Rightarrow> string \<Rightarrow> Subscription list"
    and known :: "'m \<Rightarrow> string \<Rightarrow> bool"
  assumes subs_add: "known m c \<Longrightarrow> subs_of (add m c subs) c = upsert_subs (subs_of m c) subs"
    and subs_add_other: "d \<noteq> c \<Longrightarrow> subs_of (add m c subs) d = subs_of m d"
    and known_add: "known (add m c subs) d = known m d"
begin

text \<open>The last request for a filter wins; a filter that is not asked for keeps its QoS.\<close>

lemma granted_add:
  assumes "known m c"
  shows "granted (subs_of (add m c subs) c) t =
    (case find (\<lambda>s. sub_Topic s = t) (rev subs) of
       Some s \<Rightarrow> Some (sub_QoS s) | None \<Rightarrow> granted (subs_of m c) t)"
  using assms by (simp add: subs_add granted_upsert_subs foldl_map_upd_last)

lemma distinct_add:
  assumes "known m c" and "\<And>d. distinct_topics (subs_of m d)"
  shows "distinct_topics (subs_of (add m c subs) d)"
  using assms by (cases "d = c") (auto simp: subs_add subs_add_other distinct_upsert_subs)

lemma set_add:
  assumes "known m c"
  shows "set (subs_of (add m c subs) c) \<subseteq> set (subs_of m c) \<union> set subs"
  using assms set_upsert_subs by (simp add: subs_add)

lemma add_add:
  assumes "known m c"
  shows "subs_of (add (add m c as) c bs) c = subs_of (add m c (as @ bs)) c"
  using assms by (simp add: subs_add known_add upsert_subs_append)

text \<open>A batch is a sequence of single requests.\<close>

lemma add_batch:
  assumes "known m c"
  shows "subs_of (foldl (\<lambda>m s. add m c [s]) m subs) c = subs_of (add m c subs) c"
  using assms
proof (induction subs arbitrary: m)
  case Nil
  then show ?case by (simp add: subs_add upsert_subs_def)
next
  case (Cons s subs)
  have "subs_of (foldl (\<lambda>m s. add m c [s]) (add m c [s]) subs) c = subs_of (add (add m c [s]) c subs) c"
    using Cons.IH Cons.prems by (simp add: known_add)
  also have "\<dots> = subs_of (add m c (s # subs)) c"
    using add_add [of m c "[s]" subs] Cons.prems by simp
  finally show ?case by simp
qed

end

interpretation registry: subscription_store Registry_Add Registry_List "\<lambda>_ _. True"
  by unfold_locales (auto simp: Registry_Add_def Registry_List_def Let_def)

section \<open>Matching\<close>

lemma set_match_subscriptions:
  "set (match_subscriptions topic c ss) =
     (\<lambda>s. \<lparr>mt_ClientID = c, mt_Filter = sub_Topic s, mt_QoS = sub_QoS s\<rparr>) `
       {s \<in> set ss. MatchTopic (sub_Topic s) topic}"
  by (induction ss) auto

lemma set_Registry_Match:
  "m \<in> set (Registry_Match order r topic) \<longleftrightarrow>
     mt_ClientID m \<in> set order \<and>
     (\<exists>s \<in> set (Registry_List r (mt_ClientID m)).
        MatchTopic (sub_Topic s) topic \<and>
        m = \<lparr>mt_ClientID = mt_ClientID m, mt_Filter = sub_Topic s, mt_QoS = sub_QoS s\<rparr>)"
  by (force simp: Registry_Match_def set_match_subscriptions)

lemma Registry_Match_keys:
  assumes "fst ` set r \<subseteq> set order"
  shows "m \<in> set (Registry_Match order r topic) \<longleftrightarrow>
     (\<exists>s \<in> set (Registry_List r (mt_ClientID m)).
        MatchTopic (sub_Topic s) topic \<and>
        m = \<lparr>mt_ClientID = mt_ClientID m, mt_Filter = sub_Topic s, mt_QoS = sub_QoS s\<rparr>)"
proof -
  have "Registry_List r c = []" if "c \<notin> set order" for c
  proof -
    from that assms have "map_of r c = None" by (metis map_of_eq_None_iff subsetD)
    then show ?thesis by (simp add: Registry_List_def)
  qed
  then show ?thesis unfolding set_Registry_Match by force
qed

lemma mset_Registry_Match:
  "mset order = mset order' \<Longrightarrow>
     mset (Registry_Match order r topic) = mset (Registry_Match order' r topic)"
proof -
  have "mset (Registry_Match ks r topic) =
      sum_mset (image_mset (\<lambda>c. mset (match_subscriptions topic c (Registry_List r c))) (mset ks))" for ks
    by (induction ks) (simp_all add: Registry_Match_def)
  then show "mset order = mset order' \<Longrightarrow>
     mset (Registry_Match order r topic) = mset (Registry_Match order' r topic)" by simp
qed

section \<open>Properties\<close>

text \<open>
  C31: the matches of a topic are exactly the clients' subscriptions whose filter accepts
  it, with their QoS, whatever order the map is ranged over: two orders give the same matches as
  often.
\<close>

theorem Registry_Match_exact:
  assumes "mset order = mset (map fst r)"
  shows "(m \<in> set (Registry_Match order r topic) \<longleftrightarrow>
      (\<exists>s \<in> set (Registry_List r (mt_ClientID m)).
         filter_accepts (Split (CHR ''/'') (sub_Topic s)) (Split (CHR ''/'') topic)
         \<and> mt_Filter m = sub_Topic s \<and> mt_QoS m = sub_QoS s))
    \<and> mset (Registry_Match order r topic) = mset (Registry_Match (map fst r) r topic)"
proof -
  have "set order = fst ` set r" using mset_eq_setD [OF assms] by simp
  then have "m \<in> set (Registry_Match order r topic) \<longleftrightarrow>
     (\<exists>s \<in> set (Registry_List r (mt_ClientID m)). MatchTopic (sub_Topic s) topic \<and>
        m = \<lparr>mt_ClientID = mt_ClientID m, mt_Filter = sub_Topic s, mt_QoS = sub_QoS s\<rparr>)"
    by (intro Registry_Match_keys) simp
  also have "\<dots> \<longleftrightarrow> (\<exists>s \<in> set (Registry_List r (mt_ClientID m)).
      filter_accepts (Split (CHR ''/'') (sub_Topic s)) (Split (CHR ''/'') topic)
      \<and> mt_Filter m = sub_Topic s \<and> mt_QoS m = sub_QoS s)"
    by (cases m) (auto simp: MatchTopic_accepts)
  finally show ?thesis using mset_Registry_Match [OF assms] by simp
qed

theorem Registry_Match_exact_witness:
  "\<lparr>mt_ClientID = ''b'', mt_Filter = ''x/+'', mt_QoS = 1\<rparr> \<in> set (Registry_Match [''b'', ''a'']
     [(''a'', [\<lparr>sub_Topic = ''y'', sub_QoS = 0\<rparr>]), (''b'', [\<lparr>sub_Topic = ''x/+'', sub_QoS = 1\<rparr>])]
     ''x/1'')"
  using Registry_Match_exact [of "[''b'', ''a'']"
      "[(''a'', [\<lparr>sub_Topic = ''y'', sub_QoS = 0\<rparr>]), (''b'', [\<lparr>sub_Topic = ''x/+'', sub_QoS = 1\<rparr>])]"
      "\<lparr>mt_ClientID = ''b'', mt_Filter = ''x/+'', mt_QoS = 1\<rparr>" "''x/1''"]
  by (simp add: Registry_List_def level_match_def)

end
