(* ===== verification/Sessions.thy ===== *)
theory Sessions
  imports Subscriptions Jwt
begin

text \<open>
  The session store, \<open>internal/broker/session/store.go\<close>: one session per client
  identifier, kept when the client goes offline. The clock readings of an operation are its
  arguments. A nil \<open>Conn\<close> is \<open>None\<close>.
\<close>

section \<open>Data\<close>

record Session =
  ses_ClientID :: string
  ses_DeviceID :: string
  ses_Role :: string
  ses_Claims :: Claims
  ses_Conn :: "conn option"
  ses_Online :: bool
  ses_Subscriptions :: "Subscription list"
  ses_ConnectedAt :: time
  ses_LastSeenAt :: time

type_synonym Sessions = "Session dict"

section \<open>Operations\<close>

definition NewStore :: Sessions where
  "NewStore = []"

text \<open>
  \<open>now_connected\<close> is the reading used when \<open>next.ConnectedAt\<close> is zero,
  \<open>now_seen\<close> the one for \<open>LastSeenAt\<close>.
\<close>

definition UpsertConnected ::
  "Session \<Rightarrow> time \<Rightarrow> time \<Rightarrow> Sessions \<Rightarrow> (bool \<times> Subscription list) \<times> Sessions" where
  "UpsertConnected new now_connected now_seen sess =
     (let existing = map_of sess (ses_ClientID new);
          new = (case existing of
                   Some old \<Rightarrow> new\<lparr>ses_Subscriptions := ses_Subscriptions old\<rparr>
                 | None \<Rightarrow> new);
          new = new\<lparr>ses_Online := True\<rparr>;
          new = (if IsZero (ses_ConnectedAt new) then new\<lparr>ses_ConnectedAt := now_connected\<rparr> else new);
          new = new\<lparr>ses_LastSeenAt := now_seen\<rparr>
      in ((existing \<noteq> None, ses_Subscriptions new), AList.update (ses_ClientID new) new sess))"

definition AddSubscriptions :: "Sessions \<Rightarrow> string \<Rightarrow> Subscription list \<Rightarrow> Sessions" where
  "AddSubscriptions sess clientID subscriptions =
     (case map_of sess clientID of
        None \<Rightarrow> sess
      | Some s \<Rightarrow>
          AList.update clientID
            (s\<lparr>ses_Subscriptions := upsert_subs (ses_Subscriptions s) subscriptions\<rparr>) sess)"

definition Touch :: "string \<Rightarrow> time \<Rightarrow> Sessions \<Rightarrow> Sessions" where
  "Touch clientID now sess =
     (case map_of sess clientID of
        None \<Rightarrow> sess
      | Some s \<Rightarrow> AList.update clientID (s\<lparr>ses_LastSeenAt := now\<rparr>) sess)"

definition Disconnect :: "string \<Rightarrow> time \<Rightarrow> Sessions \<Rightarrow> Sessions" where
  "Disconnect clientID now sess =
     (case map_of sess clientID of
        None \<Rightarrow> sess
      | Some s \<Rightarrow>
          AList.update clientID
            (s\<lparr>ses_Online := False, ses_Conn := None, ses_LastSeenAt := now\<rparr>) sess)"

definition Sessions_Get :: "Sessions \<Rightarrow> string \<Rightarrow> Session option" where
  "Sessions_Get sess clientID = map_of sess clientID"

fun online_loop :: "Sessions \<Rightarrow> int \<Rightarrow> int" where
  "online_loop [] tot = tot"
| "online_loop ((c, s) # rest) tot = online_loop rest (if ses_Online s then tot + 1 else tot)"

definition OnlineCount :: "Sessions \<Rightarrow> int" where
  "OnlineCount sess = online_loop sess 0"

section \<open>Invariant\<close>

text \<open>
  The keys are the sessions' client identifiers, and a session is online exactly when it has a
  connection.
\<close>

definition sessions_wf :: "Sessions \<Rightarrow> bool" where
  "sessions_wf sess \<longleftrightarrow> distinct (map fst sess)
     \<and> (\<forall>c s. map_of sess c = Some s \<longrightarrow>
          ses_ClientID s = c \<and> (ses_Online s \<longleftrightarrow> ses_Conn s \<noteq> None))"

definition session_subs :: "Sessions \<Rightarrow> string \<Rightarrow> Subscription list" where
  "session_subs sess c = (case map_of sess c of None \<Rightarrow> [] | Some s \<Rightarrow> ses_Subscriptions s)"

definition session_known :: "Sessions \<Rightarrow> string \<Rightarrow> bool" where
  "session_known sess c = (map_of sess c \<noteq> None)"

text \<open>The connection a message for a client is sent on, if any.\<close>

definition live_conn :: "Sessions \<Rightarrow> string \<Rightarrow> conn option" where
  "live_conn sess c =
     (case map_of sess c of
        None \<Rightarrow> None
      | Some s \<Rightarrow> if ses_Online s then ses_Conn s else None)"

section \<open>Lemmas\<close>

interpretation sessions: subscription_store AddSubscriptions session_subs session_known
  by unfold_locales (auto simp: AddSubscriptions_def session_subs_def session_known_def
      split: option.splits)

lemma online_loop_length:
  "online_loop sess tot = tot + int (length (filter (\<lambda>e. ses_Online (snd e)) sess))"
  by (induction sess tot rule: online_loop.induct) auto

lemma OnlineCount_length: "OnlineCount sess = int (length (filter (\<lambda>e. ses_Online (snd e)) sess))"
  by (simp add: OnlineCount_def online_loop_length)

text \<open>How writing one session moves the online count.\<close>

lemma OnlineCount_update:
  assumes "distinct (map fst sess)"
  shows "OnlineCount (AList.update c s sess) =
    OnlineCount sess + (if ses_Online s then 1 else 0)
      - (case map_of sess c of Some u \<Rightarrow> if ses_Online u then 1 else 0 | None \<Rightarrow> 0)"
  using count_update [OF assms, of ses_Online c s]
  by (auto simp: OnlineCount_length split: option.splits)

lemma sessions_wfI_update:
  assumes "sessions_wf sess" and "ses_ClientID s = c" and "ses_Online s \<longleftrightarrow> ses_Conn s \<noteq> None"
  shows "sessions_wf (AList.update c s sess)"
  using assms by (auto simp: sessions_wf_def)

lemma sessions_wf_lookup:
  assumes "sessions_wf sess" and "map_of sess c = Some s"
  shows "ses_ClientID s = c" and "ses_Online s \<longleftrightarrow> ses_Conn s \<noteq> None"
  using assms by (auto simp: sessions_wf_def)

lemma sessions_wf_New: "sessions_wf NewStore"
  by (simp add: sessions_wf_def NewStore_def)

lemma sessions_wf_UpsertConnected:
  assumes "sessions_wf sess" and "ses_Conn new \<noteq> None"
  shows "sessions_wf (snd (UpsertConnected new t1 t2 sess))"
  using assms
  by (auto simp: UpsertConnected_def Let_def intro!: sessions_wfI_update split: option.splits)

lemma sessions_wf_AddSubscriptions:
  "sessions_wf sess \<Longrightarrow> sessions_wf (AddSubscriptions sess c subs)"
  by (auto simp: AddSubscriptions_def sessions_wf_lookup intro!: sessions_wfI_update
      split: option.splits)

lemma sessions_wf_Touch: "sessions_wf sess \<Longrightarrow> sessions_wf (Touch c now sess)"
  by (auto simp: Touch_def sessions_wf_lookup intro!: sessions_wfI_update split: option.splits)

lemma sessions_wf_Disconnect: "sessions_wf sess \<Longrightarrow> sessions_wf (Disconnect c now sess)"
  by (auto simp: Disconnect_def sessions_wf_lookup intro!: sessions_wfI_update
      split: option.splits)

lemmas sessions_wf_ops =
  sessions_wf_UpsertConnected sessions_wf_AddSubscriptions sessions_wf_Touch sessions_wf_Disconnect

lemma session_subs_ops [simp]:
  "session_subs (Touch c now sess) d = session_subs sess d"
  "session_subs (Disconnect c now sess) d = session_subs sess d"
  "session_known (Touch c now sess) d = session_known sess d"
  "session_known (Disconnect c now sess) d = session_known sess d"
  "session_known (AddSubscriptions sess c subs) d = session_known sess d"
  by (auto simp: Touch_def Disconnect_def AddSubscriptions_def session_subs_def session_known_def
      split: option.splits)

lemma session_subs_UpsertConnected:
  "session_subs (snd (UpsertConnected new t1 t2 sess)) d =
     (if d = ses_ClientID new \<and> \<not> session_known sess d then ses_Subscriptions new
      else session_subs sess d)"
  by (auto simp: UpsertConnected_def Let_def session_subs_def session_known_def split: option.splits)

lemma session_subs_unknown: "\<not> session_known sess c \<Longrightarrow> session_subs sess c = []"
  by (simp add: session_known_def session_subs_def)

lemma session_known_UpsertConnected:
  "session_known (snd (UpsertConnected new t1 t2 sess)) d \<longleftrightarrow>
     d = ses_ClientID new \<or> session_known sess d"
  by (auto simp: UpsertConnected_def Let_def session_known_def split: option.splits)

lemma OnlineCount_quiet [simp]:
  assumes "sessions_wf sess"
  shows "OnlineCount (Touch c now sess) = OnlineCount sess"
    and "OnlineCount (AddSubscriptions sess c subs) = OnlineCount sess"
  using assms
  by (auto simp: Touch_def AddSubscriptions_def OnlineCount_update sessions_wf_def
      split: option.splits)

text \<open>The online sessions are the clients that can be reached.\<close>

lemma OnlineCount_reachable:
  assumes "sessions_wf sess"
  shows "OnlineCount sess = int (card {c. live_conn sess c \<noteq> None})"
proof -
  let ?on = "filter (\<lambda>e. ses_Online (snd e)) sess"
  have dist: "distinct (map fst sess)" using assms by (simp add: sessions_wf_def)
  then have "distinct (map fst ?on)" by (rule distinct_map_filter)
  then have "length ?on = card (fst ` set ?on)" by (metis distinct_card length_map list.set_map)
  moreover have "fst ` set ?on = {c. live_conn sess c \<noteq> None}"
  proof (rule set_eqI)
    fix c
    have "c \<in> fst ` set ?on \<longleftrightarrow> (\<exists>s. map_of sess c = Some s \<and> ses_Online s)"
      using in_set_map_of [OF dist] by force
    also have "\<dots> \<longleftrightarrow> live_conn sess c \<noteq> None"
      using sessions_wf_lookup [OF assms] by (auto simp: live_conn_def split: option.splits)
    finally show "c \<in> fst ` set ?on \<longleftrightarrow> c \<in> {c. live_conn sess c \<noteq> None}" by simp
  qed
  ultimately show ?thesis by (simp add: OnlineCount_length)
qed

section \<open>Properties\<close>

text \<open>
  A client that goes away and comes back finds its session: it is told so, its
  subscriptions are the old ones, it is unreachable in between and reachable on the new
  connection afterwards, and no other session changes.
\<close>

lemma reconnect_resumes_session:
  assumes "map_of sess c = Some old" and "ses_ClientID new = c"
  shows "live_conn (Disconnect c t0 sess) c = None
    \<and> fst (UpsertConnected new t1 t2 (Disconnect c t0 sess)) = (True, ses_Subscriptions old)
    \<and> live_conn (snd (UpsertConnected new t1 t2 (Disconnect c t0 sess))) c = ses_Conn new
    \<and> session_subs (snd (UpsertConnected new t1 t2 (Disconnect c t0 sess))) c = ses_Subscriptions old
    \<and> (\<forall>d. d \<noteq> c \<longrightarrow>
         map_of (snd (UpsertConnected new t1 t2 (Disconnect c t0 sess))) d = map_of sess d)"
  using assms
  by (simp add: live_conn_def session_subs_def Disconnect_def UpsertConnected_def Let_def)

definition sample_session :: "string \<Rightarrow> conn \<Rightarrow> Session" where
  "sample_session c k =
     \<lparr>ses_ClientID = c, ses_DeviceID = c, ses_Role = ''device'', ses_Claims = d1_claims,
      ses_Conn = Some k, ses_Online = True,
      ses_Subscriptions = [\<lparr>sub_Topic = ''device/d1/command'', sub_QoS = 1\<rparr>],
      ses_ConnectedAt = 1, ses_LastSeenAt = 1\<rparr>"

lemma reconnect_resumes_session_instance:
  "live_conn (snd (UpsertConnected (sample_session ''d1'' 2) 5 6
     (Disconnect ''d1'' 4 [(''d1'', sample_session ''d1'' 1)]))) ''d1'' = Some 2"
  using reconnect_resumes_session [of "[(''d1'', sample_session ''d1'' 1)]" "''d1''"
      "sample_session ''d1'' 1" "sample_session ''d1'' 2" 4 5 6]
  by (simp add: sample_session_def)

end
