(* ===== verification/Metrics.thy ===== *)
theory Metrics
  imports Prelude
begin

text \<open>
  The broker's Prometheus metrics, \<open>internal/metrics/metrics.go\<close>: seven counters and two
  gauges, all zero at the start. The library keeps them as 64-bit floats, on which the unit
  steps the broker takes are exact below \<open>2 ^ 53\<close>; here they are integers. Registration and
  the HTTP endpoint are the library's.
\<close>

record Metrics =
  m_PacketsIn :: int
  m_PacketsOut :: int
  m_Publishes :: int
  m_Subscriptions :: int
  m_AuthFailures :: int
  m_RateLimited :: int
  m_FailedDeliveries :: int
  m_ActiveSessions :: int
  m_OfflineQueue :: int

definition Metrics_New :: Metrics where
  "Metrics_New =
     \<lparr>m_PacketsIn = 0, m_PacketsOut = 0, m_Publishes = 0, m_Subscriptions = 0,
      m_AuthFailures = 0, m_RateLimited = 0, m_FailedDeliveries = 0, m_ActiveSessions = 0,
      m_OfflineQueue = 0\<rparr>"

definition inc_PacketsIn :: "Metrics \<Rightarrow> Metrics" where
  "inc_PacketsIn m = m\<lparr>m_PacketsIn := m_PacketsIn m + 1\<rparr>"

definition inc_PacketsOut :: "Metrics \<Rightarrow> Metrics" where
  "inc_PacketsOut m = m\<lparr>m_PacketsOut := m_PacketsOut m + 1\<rparr>"

definition inc_Publishes :: "Metrics \<Rightarrow> Metrics" where
  "inc_Publishes m = m\<lparr>m_Publishes := m_Publishes m + 1\<rparr>"

definition add_Subscriptions :: "int \<Rightarrow> Metrics \<Rightarrow> Metrics" where
  "add_Subscriptions n m = m\<lparr>m_Subscriptions := m_Subscriptions m + n\<rparr>"

definition inc_AuthFailures :: "Metrics \<Rightarrow> Metrics" where
  "inc_AuthFailures m = m\<lparr>m_AuthFailures := m_AuthFailures m + 1\<rparr>"

definition inc_RateLimited :: "Metrics \<Rightarrow> Metrics" where
  "inc_RateLimited m = m\<lparr>m_RateLimited := m_RateLimited m + 1\<rparr>"

definition inc_FailedDeliveries :: "Metrics \<Rightarrow> Metrics" where
  "inc_FailedDeliveries m = m\<lparr>m_FailedDeliveries := m_FailedDeliveries m + 1\<rparr>"

definition set_ActiveSessions :: "int \<Rightarrow> Metrics \<Rightarrow> Metrics" where
  "set_ActiveSessions n m = m\<lparr>m_ActiveSessions := n\<rparr>"

definition add_OfflineQueue :: "int \<Rightarrow> Metrics \<Rightarrow> Metrics" where
  "add_OfflineQueue n m = m\<lparr>m_OfflineQueue := m_OfflineQueue m + n\<rparr>"

lemmas metric_defs =
  inc_PacketsIn_def inc_PacketsOut_def inc_Publishes_def add_Subscriptions_def
  inc_AuthFailures_def inc_RateLimited_def inc_FailedDeliveries_def set_ActiveSessions_def
  add_OfflineQueue_def

end
