(* ===== verification/Router.thy ===== *)
theory Router
  imports Sessions Metrics
begin

text \<open>
  Publish fan-out, \<open>internal/broker/router/router.go\<close>. The router calls two interfaces,
  \<open>connection.PacketConn\<close> (\<open>send\<close>) and its own \<open>OfflineQueue\<close>
  (\<open>enqueue\<close>): they are arguments of the operations, on an arbitrary type of worlds, and
  the locales state what the router relies on.
\<close>

section \<open>Operations\<close>

text \<open>
  The copy that goes to one subscriber: its QoS is lowered to the subscription's.
\<close>

definition outbound :: "Packet \<Rightarrow> Match \<Rightarrow> Packet" where
  "outbound packet m =
     (let out = Clone packet
      in if mt_QoS m < pkt_QoS out then out\<lparr>pkt_QoS := mt_QoS m\<rparr> else out)"

fun Route_loop ::
  "(conn \<Rightarrow> Packet \<Rightarrow> 'w \<Rightarrow> error option \<times> 'w) \<Rightarrow>
   (string \<Rightarrow> Packet \<Rightarrow> 'w \<Rightarrow> error option \<times> 'w) \<Rightarrow>
   Sessions \<Rightarrow> Packet \<Rightarrow> Match list \<Rightarrow> int \<Rightarrow> Metrics \<Rightarrow> 'w \<Rightarrow>
   (int \<times> error option) \<times> Metrics \<times> 'w" where
  "Route_loop send enqueue sess packet [] delivered m w = ((delivered, None), m, w)"
| "Route_loop send enqueue sess packet (match # matches) delivered m w =
     (case Sessions_Get sess (mt_ClientID match) of
        None \<Rightarrow> Route_loop send enqueue sess packet matches delivered m w
      | Some target \<Rightarrow>
          (let out = outbound packet match
           in case (if ses_Online target then ses_Conn target else None) of
                Some c \<Rightarrow>
                  (case send c out w of
                     (Some err, w) \<Rightarrow>
                       (let m = inc_FailedDeliveries m
                        in if 0 < pkt_QoS out then
                             (case enqueue (ses_ClientID target) out w of
                                (Some queueErr, w) \<Rightarrow> ((delivered, Some queueErr), m, w)
                              | (None, w) \<Rightarrow>
                                  Route_loop send enqueue sess packet matches delivered
                                    (add_OfflineQueue 1 m) w)
                           else Route_loop send enqueue sess packet matches delivered m w)
                   | (None, w) \<Rightarrow>
                       Route_loop send enqueue sess packet matches (delivered + 1)
                         (inc_PacketsOut m) w)
              | None \<Rightarrow>
                  (if 0 < pkt_QoS out then
                     (case enqueue (ses_ClientID target) out w of
                        (Some err, w) \<Rightarrow> ((delivered, Some err), m, w)
                      | (None, w) \<Rightarrow>
                          Route_loop send enqueue sess packet matches delivered
                            (add_OfflineQueue 1 m) w)
                   else Route_loop send enqueue sess packet matches delivered m w)))"

text \<open>\<open>range_order\<close> is the order in which \<open>Match\<close> ranges over the registry.\<close>

definition Route ::
  "(conn \<Rightarrow> Packet \<Rightarrow> 'w \<Rightarrow> error option \<times> 'w) \<Rightarrow>
   (string \<Rightarrow> Packet \<Rightarrow> 'w \<Rightarrow> error option \<times> 'w) \<Rightarrow>
   (string list \<Rightarrow> 'w \<Rightarrow> string list \<times> 'w) \<Rightarrow>
   Sessions \<Rightarrow> Registry \<Rightarrow> Packet \<Rightarrow> Metrics \<Rightarrow> 'w \<Rightarrow>
   (int \<times> error option) \<times> Metrics \<times> 'w" where
  "Route send enqueue range_order sess reg packet m w =
     (case range_order (map fst reg) w of
        (order, w) \<Rightarrow>
          Route_loop send enqueue sess packet (Registry_Match order reg (pkt_Topic packet)) 0 m w)"

section \<open>The interfaces\<close>

text \<open>
  A connection: a successful \<open>send\<close> puts exactly this packet on the wire, a failed one
  nothing.
\<close>

locale packet_conn =
  fixes send :: "conn \<Rightarrow> Packet \<Rightarrow> 'w \<Rightarrow> error option \<times> 'w"
    and wire :: "'w \<Rightarrow> (conn \<times> Packet) list"
  assumes send_wire:
    "wire (snd (send c p w)) = wire w @ (if fst (send c p w) = None then [(c, p)] else [])"

text \<open>An offline queue: it holds the packet after \<open>enqueue\<close> succeeded, and loses none.\<close>

locale offline_queue =
  fixes enqueue :: "string \<Rightarrow> Packet \<Rightarrow> 'w \<Rightarrow> error option \<times> 'w"
    and queued :: "'w \<Rightarrow> string set"
  assumes enqueue_queued:
    "queued (snd (enqueue c p w)) =
       (if fst (enqueue c p w) = None then insert (pkt_PacketID p) (queued w) else queued w)"

locale router_env = packet_conn send wire + offline_queue enqueue queued
  for send :: "conn \<Rightarrow> Packet \<Rightarrow> 'w \<Rightarrow> error option \<times> 'w"
    and wire :: "'w \<Rightarrow> (conn \<times> Packet) list"
    and enqueue :: "string \<Rightarrow> Packet \<Rightarrow> 'w \<Rightarrow> error option \<times> 'w"
    and queued :: "'w \<Rightarrow> string set" +
  fixes range_order :: "string list \<Rightarrow> 'w \<Rightarrow> string list \<times> 'w"
  assumes send_queued: "queued (snd (send c p w)) = queued w"
    and enqueue_wire: "wire (snd (enqueue d p w)) = wire w"
    and range_frame: "wire (snd (range_order ks w)) = wire w"
      "queued (snd (range_order ks w)) = queued w"
    and range_set: "set (fst (range_order ks w)) = set ks"

section \<open>Induction over a fan-out\<close>

text \<open>
  What holds of the counters and the world after a fan-out: a predicate that the four effects of
  an iteration keep. The QoS of a copy that is enqueued is positive.
\<close>

lemma Route_loop_invariant:
  fixes P :: "int \<Rightarrow> Metrics \<Rightarrow> 'w \<Rightarrow> bool"
  assumes sent: "\<And>mt c d m w. mt \<in> M \<Longrightarrow> live_conn sess (mt_ClientID mt) = Some c \<Longrightarrow>
      fst (send c (outbound packet mt) w) = None \<Longrightarrow> P d m w \<Longrightarrow>
      P (d + 1) (inc_PacketsOut m) (snd (send c (outbound packet mt) w))"
    and failed: "\<And>mt c d m w. mt \<in> M \<Longrightarrow> live_conn sess (mt_ClientID mt) = Some c \<Longrightarrow>
      fst (send c (outbound packet mt) w) \<noteq> None \<Longrightarrow> P d m w \<Longrightarrow>
      P d (inc_FailedDeliveries m) (snd (send c (outbound packet mt) w))"
    and stored: "\<And>mt s d m w. mt \<in> M \<Longrightarrow> map_of sess (mt_ClientID mt) = Some s \<Longrightarrow>
      0 < pkt_QoS (outbound packet mt) \<Longrightarrow>
      fst (enqueue (ses_ClientID s) (outbound packet mt) w) = None \<Longrightarrow> P d m w \<Longrightarrow>
      P d (add_OfflineQueue 1 m) (snd (enqueue (ses_ClientID s) (outbound packet mt) w))"
    and refused: "\<And>mt s d m w. mt \<in> M \<Longrightarrow> map_of sess (mt_ClientID mt) = Some s \<Longrightarrow>
      0 < pkt_QoS (outbound packet mt) \<Longrightarrow>
      fst (enqueue (ses_ClientID s) (outbound packet mt) w) \<noteq> None \<Longrightarrow> P d m w \<Longrightarrow>
      P d m (snd (enqueue (ses_ClientID s) (outbound packet mt) w))"
  shows "set matches \<subseteq> M \<Longrightarrow> P d m w \<Longrightarrow>
    Route_loop send enqueue sess packet matches d m w = ((d', e), m', w') \<Longrightarrow> P d' m' w'"
proof (induction matches arbitrary: d m w)
  case Nil
  then show ?case by simp
next
  case (Cons mt matches)
  let ?out = "outbound packet mt" and ?loop = "Route_loop send enqueue sess packet matches"
  have mt: "mt \<in> M" and IH: "\<And>d m w. P d m w \<Longrightarrow> ?loop d m w = ((d', e), m', w') \<Longrightarrow> P d' m' w'"
    using Cons.prems(1) Cons.IH by auto
  show ?case
  proof (cases "map_of sess (mt_ClientID mt)")
    case None
    with Cons.prems(2,3) show ?thesis by (intro IH) (auto simp: Sessions_Get_def)
  next
    case (Some s)
    have queue: "P d' m' w'"
      if P: "P d m1 w1" and q: "0 < pkt_QoS ?out"
        and r: "(case enqueue (ses_ClientID s) ?out w1 of
             (None, w) \<Rightarrow> ?loop d (add_OfflineQueue 1 m1) w
           | (Some e, w) \<Rightarrow> ((d, Some e), m1, w))
          = ((d', e), m', w')" for m1 w1
      using r refused [OF mt Some q _ P] stored [OF mt Some q _ P] IH
      by (auto split: prod.splits option.splits)
    show ?thesis
    proof (cases "live_conn sess (mt_ClientID mt)")
      case None
      with Some Cons.prems(2,3) queue IH show ?thesis
        by (auto simp: Sessions_Get_def live_conn_def Let_def split: if_splits)
    next
      case conn: (Some c)
      then have c: "(if ses_Online s then ses_Conn s else None) = Some c"
        using Some by (simp add: live_conn_def)
      obtain e1 w1 where send: "send c ?out w = (e1, w1)" by fastforce
      show ?thesis
        using Cons.prems(2,3) sent [OF mt conn, of w d m] failed [OF mt conn, of w d m]
          queue [of "inc_FailedDeliveries m" w1] IH
        by (cases e1) (auto simp: Sessions_Get_def Some c send Let_def split: if_splits)
    qed
  qed
qed

lemma outbound_simps [simp]:
  "pkt_Type (outbound p mt) = pkt_Type p"
  "pkt_PacketID (outbound p mt) = pkt_PacketID p"
  "pkt_ClientID (outbound p mt) = pkt_ClientID p"
  "pkt_Topic (outbound p mt) = pkt_Topic p"
  "pkt_QoS (outbound p mt) = min (pkt_QoS p) (mt_QoS mt)"
  "pkt_Payload (outbound p mt) = (if pkt_Payload p = Some [] then None else pkt_Payload p)"
  by (auto simp: outbound_def Let_def)

section \<open>The fan-out over any connection and any queue\<close>

text \<open>
  \<open>addressed\<close>: the copies a fan-out may put on the wire, one per matching subscription of
  a client with a live connection.
\<close>

definition addressed :: "Sessions \<Rightarrow> Packet \<Rightarrow> Match set \<Rightarrow> (conn \<times> Packet) set" where
  "addressed sess packet M =
     {(c, outbound packet mt) | c mt. mt \<in> M \<and> live_conn sess (mt_ClientID mt) = Some c}"

context router_env
begin

text \<open>
  The wire grows by addressed copies only, and \<open>delivered\<close> and the counter of sent packets
  grow by their number.
\<close>

lemma Route_loop_wire:
  assumes "Route_loop send enqueue sess packet matches d m w = ((d', e), m', w')"
  shows "\<exists>outs. wire w' = wire w @ outs \<and> set outs \<subseteq> addressed sess packet (set matches)
    \<and> d' = d + int (length outs) \<and> m_PacketsOut m' = m_PacketsOut m + int (length outs)"
    (is "?P d' m' w'")
  by (rule Route_loop_invariant [where P = ?P and M = "set matches", OF _ _ _ _ _ _ assms])
    (force simp: send_wire enqueue_wire metric_defs addressed_def)+

lemma Route_loop_queued:
  assumes "Route_loop send enqueue sess packet matches d m w = ((d', e), m', w')"
  shows "queued w \<subseteq> queued w' \<and> queued w' \<subseteq> insert (pkt_PacketID packet) (queued w)"
    (is "?P d' m' w'")
  by (rule Route_loop_invariant [where P = ?P and M = "set matches", OF _ _ _ _ _ _ assms])
    (auto simp: send_queued enqueue_queued split: if_splits)

text \<open>One iteration, when the whole loop returns no error.\<close>

lemma Route_loop_first:
  assumes "Route_loop send enqueue sess packet (mt # matches) d m w = ((d', None), m', w')"
  shows "\<exists>d1 m1 w1 outs. Route_loop send enqueue sess packet matches d1 m1 w1 = ((d', None), m', w')
    \<and> wire w1 = wire w @ outs"
proof -
  have "\<exists>outs. wire w1 = wire w @ outs" if "send c p w = (e, w1)" for c p e w1
    using send_wire [of c p w] that by simp
  moreover have "wire w2 = wire w1" if "enqueue c p w1 = (e, w2)" for c p e w1 w2
    using enqueue_wire [of c p w1] that by simp
  ultimately show ?thesis
    using assms by (fastforce simp: Let_def split: option.splits prod.splits if_splits)
qed

text \<open>
  Nothing is lost when the fan-out returns no error: each matching subscription of a known
  client was served on the client's live connection, or its copy has QoS 0, or the queue holds
  the packet.
\<close>

lemma Route_loop_no_loss:
  assumes "Route_loop send enqueue sess packet matches d m w = ((d', None), m', w')"
    and "mt \<in> set matches" and "session_known sess (mt_ClientID mt)"
  shows "(\<exists>c. live_conn sess (mt_ClientID mt) = Some c
      \<and> (c, outbound packet mt) \<in> set (drop (length (wire w)) (wire w')))
    \<or> min (pkt_QoS packet) (mt_QoS mt) \<le> 0 \<or> pkt_PacketID packet \<in> queued w'"
  using assms
proof (induction matches arbitrary: d m w)
  case Nil
  then show ?case by simp
next
  case (Cons m0 matches)
  let ?loop = "Route_loop send enqueue sess packet matches" and ?out = "outbound packet m0"
  show ?case
  proof (cases "mt \<in> set matches")
    case True
    from Route_loop_first [OF Cons.prems(1)] obtain d1 m1 w1 outs
      where rest: "?loop d1 m1 w1 = ((d', None), m', w')" and w1: "wire w1 = wire w @ outs" by blast
    have "set (drop (length (wire w1)) (wire w')) \<subseteq> set (drop (length (wire w)) (wire w'))"
      using w1 by (simp add: set_drop_subset_set_drop)
    with Cons.IH [OF rest True Cons.prems(3)] show ?thesis by blast
  next
    case False
    with Cons.prems(2) have mt: "mt = m0" by simp
    with Cons.prems(3) obtain s where s: "map_of sess (mt_ClientID m0) = Some s"
      by (auto simp: session_known_def)
    have keep_wire: "(c, p) \<in> set (drop (length (wire w)) (wire w'))"
      if "?loop d1 m1 w1 = ((d', None), m', w')" "wire w1 = wire w @ [(c, p)]" for d1 m1 w1 c p
      using Route_loop_wire [OF that(1)] that(2) by auto
    have keep_queued: "i \<in> queued w'"
      if "?loop d1 m1 w1 = ((d', None), m', w')" "i \<in> queued w1" for d1 m1 w1 i
      using Route_loop_queued [OF that(1)] that(2) by auto
    have served: "pkt_PacketID packet \<in> queued w'"
      if "(case enqueue (ses_ClientID s) ?out w1 of
             (None, w) \<Rightarrow> ?loop d1 (add_OfflineQueue 1 m1) w
           | (Some e, w) \<Rightarrow> ((d1, Some e), m1, w)) = ((d', None), m', w')" for d1 m1 w1
      using that keep_queued enqueue_queued [of "ses_ClientID s" ?out w1]
      by (auto split: prod.splits option.splits)
    show ?thesis
    proof (cases "live_conn sess (mt_ClientID m0)")
      case None
      with Cons.prems(1) served s mt show ?thesis
        by (auto simp: Sessions_Get_def live_conn_def Let_def split: if_splits)
    next
      case (Some c)
      then have c: "(if ses_Online s then ses_Conn s else None) = Some c"
        using s by (simp add: live_conn_def)
      obtain e1 w1 where snd: "send c ?out w = (e1, w1)" by fastforce
      have "wire w1 = wire w @ [(c, ?out)]" if "e1 = None"
        using send_wire [of c ?out w] snd that by simp
      with Cons.prems(1) served keep_wire Some mt show ?thesis
        by (cases e1) (auto simp: Sessions_Get_def s c snd Let_def split: if_splits)
    qed
  qed
qed

end

end
