(* ===== verification/Limiter.thy ===== *)
theory Limiter
  imports Prelude
begin

text \<open>
  The broker's rate limiter, \<open>internal/broker/server/limiter.go\<close>: a fixed window per
  client. The clock reading of \<open>Allow\<close> is an argument.
\<close>

section \<open>Data and operations\<close>

record rateWindow =
  rw_resetAt :: time
  rw_count :: int

record rateLimiter =
  rl_limit :: int
  rl_window :: duration
  rl_seen :: "rateWindow dict"

definition newRateLimiter :: "int \<Rightarrow> duration \<Rightarrow> rateLimiter" where
  "newRateLimiter limit window = \<lparr>rl_limit = limit, rl_window = window, rl_seen = []\<rparr>"

definition Allow :: "string \<Rightarrow> time \<Rightarrow> rateLimiter \<Rightarrow> bool \<times> rateLimiter" where
  "Allow clientID now r =
     (case map_of (rl_seen r) clientID of
        None \<Rightarrow>
          (True, r\<lparr>rl_seen := AList.update clientID
                     \<lparr>rw_resetAt = now + rl_window r, rw_count = 1\<rparr> (rl_seen r)\<rparr>)
      | Some entry \<Rightarrow>
          if rw_resetAt entry < now then
            (True, r\<lparr>rl_seen := AList.update clientID
                       \<lparr>rw_resetAt = now + rl_window r, rw_count = 1\<rparr> (rl_seen r)\<rparr>)
          else if rl_limit r \<le> rw_count entry then (False, r)
          else (True, r\<lparr>rl_seen := AList.update clientID
                          (entry\<lparr>rw_count := rw_count entry + 1\<rparr>) (rl_seen r)\<rparr>))"

section \<open>Runs of the limiter\<close>

text \<open>A run is the sequence of calls \<open>(client, time)\<close>; its result is the list of answers.\<close>

fun allow_run :: "rateLimiter \<Rightarrow> (string \<times> time) list \<Rightarrow> bool list" where
  "allow_run r [] = []"
| "allow_run r ((c, t) # calls) =
     (case Allow c t r of (ok, r') \<Rightarrow> ok # allow_run r' calls)"

text \<open>The number of calls of client \<open>c\<close> that a run lets through.\<close>

definition grants :: "string \<Rightarrow> rateLimiter \<Rightarrow> (string \<times> time) list \<Rightarrow> nat" where
  "grants c r calls = length (filter (\<lambda>((d, _), ok). d = c \<and> ok) (zip calls (allow_run r calls)))"

text \<open>The most packets one window admits: the first one is always let through.\<close>

definition quota :: "rateLimiter \<Rightarrow> nat" where
  "quota r = nat (max 1 (rl_limit r))"

definition limiter_wf :: "rateLimiter \<Rightarrow> bool" where
  "limiter_wf r \<longleftrightarrow>
     (\<forall>c e. map_of (rl_seen r) c = Some e \<longrightarrow> 1 \<le> rw_count e \<and> rw_count e \<le> int (quota r))"

text \<open>How many more calls the window of \<open>c\<close> admits while it lasts.\<close>

definition remaining :: "rateLimiter \<Rightarrow> string \<Rightarrow> nat" where
  "remaining r c =
     (case map_of (rl_seen r) c of None \<Rightarrow> 0 | Some e \<Rightarrow> nat (int (quota r) - rw_count e))"

definition open_until :: "rateLimiter \<Rightarrow> string \<Rightarrow> time \<Rightarrow> bool" where
  "open_until r c t = (\<exists>e. map_of (rl_seen r) c = Some e \<and> t \<le> rw_resetAt e)"

section \<open>Lemmas\<close>

lemma Allow_config [simp]:
  "rl_limit (snd (Allow c t r)) = rl_limit r"
  "rl_window (snd (Allow c t r)) = rl_window r"
  "quota (snd (Allow c t r)) = quota r"
  by (auto simp: Allow_def quota_def split: option.splits)

lemma Allow_other:
  "d \<noteq> c \<Longrightarrow> map_of (rl_seen (snd (Allow c t r))) d = map_of (rl_seen r) d"
  by (auto simp: Allow_def split: option.splits)

lemma limiter_wf_new: "limiter_wf (newRateLimiter limit window)"
  by (simp add: limiter_wf_def newRateLimiter_def)

lemma limiter_wf_Allow: "limiter_wf r \<Longrightarrow> limiter_wf (snd (Allow c t r))"
  unfolding limiter_wf_def Allow_config
  by (auto simp: Allow_def quota_def split: option.splits if_splits) fastforce+

text \<open>The three cases of a call: it opens a window, it uses up one unit, it is refused.\<close>

lemma Allow_opens:
  assumes "\<not> open_until r c t"
  shows "fst (Allow c t r)" and "open_until (snd (Allow c t r)) c (t + rl_window r)"
    and "remaining (snd (Allow c t r)) c = quota r - 1"
  using assms
  by (auto simp: Allow_def open_until_def remaining_def quota_def nat_diff_distrib' not_le
      split: option.splits)

lemma Allow_uses:
  assumes "limiter_wf r" and "open_until r c t"
  shows "fst (Allow c t r) \<longleftrightarrow> 0 < remaining r c"
    and "remaining (snd (Allow c t r)) c = remaining r c - 1"
    and "open_until (snd (Allow c t r)) c t' = open_until r c t'"
proof -
  from assms obtain e where e: "map_of (rl_seen r) c = Some e" and t: "t \<le> rw_resetAt e"
    and n: "1 \<le> rw_count e" "rw_count e \<le> int (quota r)"
    by (auto simp: open_until_def limiter_wf_def)
  then show "fst (Allow c t r) \<longleftrightarrow> 0 < remaining r c"
    and "remaining (snd (Allow c t r)) c = remaining r c - 1"
    and "open_until (snd (Allow c t r)) c t' = open_until r c t'"
    by (auto simp: Allow_def open_until_def remaining_def quota_def nat_diff_distrib')
qed

lemma open_until_mono: "open_until r c t \<Longrightarrow> u \<le> t \<Longrightarrow> open_until r c u"
  by (auto simp: open_until_def)

lemma Allow_other_view:
  assumes "d \<noteq> c"
  shows "open_until (snd (Allow d t r)) c u = open_until r c u"
    and "remaining (snd (Allow d t r)) c = remaining r c"
  using assms by (simp_all add: open_until_def remaining_def Allow_other split: option.split)

lemma grants_Nil [simp]: "grants c r [] = 0"
  by (simp add: grants_def)

lemma grants_Cons [simp]:
  "grants c r ((d, t) # calls) =
     (if d = c \<and> fst (Allow d t r) then 1 else 0) + grants c (snd (Allow d t r)) calls"
  by (auto simp: grants_def split: prod.splits)

lemma remaining_le: "limiter_wf r \<Longrightarrow> remaining r c \<le> quota r - 1"
proof (cases "map_of (rl_seen r) c")
  case (Some e)
  moreover assume "limiter_wf r"
  ultimately have "1 \<le> rw_count e" by (simp add: limiter_wf_def)
  with Some show ?thesis by (simp add: remaining_def)
qed (simp add: remaining_def)

text \<open>Inside an open window the grants are the calls, up to what remains.\<close>

lemma grants_open:
  assumes "limiter_wf r" and "\<And>t. (c, t) \<in> set calls \<Longrightarrow> open_until r c t"
  shows "grants c r calls = min (remaining r c) (length (filter (\<lambda>(d, _). d = c) calls))"
  using assms
proof (induction calls arbitrary: r)
  case Nil
  then show ?case by simp
next
  case (Cons call calls)
  obtain d t where call: "call = (d, t)" by (cases call)
  let ?r = "snd (Allow d t r)"
  show ?case
  proof (cases "d = c")
    case True
    have op: "open_until r c t" using Cons.prems(2) call True by auto
    have "grants c ?r calls = min (remaining ?r c) (length (filter (\<lambda>(d, _). d = c) calls))"
      using Cons.prems Allow_uses(3) [OF Cons.prems(1) op] True
      by (intro Cons.IH limiter_wf_Allow) auto
    with Allow_uses [OF Cons.prems(1) op] True call show ?thesis by auto
  next
    case False
    have "grants c ?r calls = min (remaining ?r c) (length (filter (\<lambda>(d, _). d = c) calls))"
      using Cons.prems False by (intro Cons.IH limiter_wf_Allow) (auto simp: Allow_other_view)
    with False call show ?thesis by (simp add: Allow_other_view)
  qed
qed

text \<open>
  In a stretch of time no longer than a window at most one new window opens: what remains of
  the old window and one whole quota is the most that gets through.
\<close>

lemma grants_stretch:
  assumes "limiter_wf r" and "\<And>t. (c, t) \<in> set calls \<Longrightarrow> lo \<le> t \<and> t \<le> lo + rl_window r"
  shows "grants c r calls \<le> remaining r c + quota r"
  using assms
proof (induction calls arbitrary: r)
  case Nil
  then show ?case by simp
next
  case (Cons call calls)
  obtain d t where call: "call = (d, t)" by (cases call)
  let ?r = "snd (Allow d t r)"
  note wf' = limiter_wf_Allow [OF Cons.prems(1), of d t]
  have IH: "grants c ?r calls \<le> remaining ?r c + quota ?r"
    using Cons.prems(2) wf' by (intro Cons.IH) auto
  have q: "1 \<le> quota r" by (simp add: quota_def)
  show ?case
  proof (cases "d = c \<and> \<not> open_until r c t")
    case True
    then have opens: "open_until ?r c (t + rl_window r)" "remaining ?r c = quota r - 1"
      using Allow_opens by auto
    have "grants c ?r calls \<le> remaining ?r c"
    proof -
      have "lo \<le> t" using Cons.prems(2) [of t] call True by auto
      have "open_until ?r c u" if "(c, u) \<in> set calls" for u
      proof (rule open_until_mono [OF opens(1)])
        have "u \<le> lo + rl_window r" using Cons.prems(2) [of u] that by simp
        with \<open>lo \<le> t\<close> show "u \<le> t + rl_window r" by simp
      qed
      then show ?thesis using grants_open [OF wf'] by simp
    qed
    with opens(2) q call show ?thesis by auto
  next
    case False
    show ?thesis
    proof (cases "d = c")
      case True
      with False have op: "open_until r c t" by simp
      show ?thesis using IH Allow_uses [OF Cons.prems(1) op] True call by auto
    next
      case other: False
      with IH call show ?thesis by (simp add: Allow_other_view)
    qed
  qed
qed

text \<open>A client's answers depend on its own window only.\<close>

lemma Allow_agree:
  assumes "rl_limit r = rl_limit r'" and "rl_window r = rl_window r'"
    and "map_of (rl_seen r) c = map_of (rl_seen r') c"
  shows "fst (Allow c t r) = fst (Allow c t r')"
    and "map_of (rl_seen (snd (Allow c t r))) c = map_of (rl_seen (snd (Allow c t r'))) c"
  using assms by (auto simp: Allow_def split: option.splits)

lemma answers_agree:
  assumes "rl_limit r = rl_limit r'" and "rl_window r = rl_window r'"
    and "map_of (rl_seen r) c = map_of (rl_seen r') c"
  shows "map snd (filter (\<lambda>((d, _), _). d = c) (zip calls (allow_run r calls))) =
     allow_run r' (filter (\<lambda>(d, _). d = c) calls)"
  using assms
proof (induction calls arbitrary: r r')
  case Nil
  then show ?case by simp
next
  case (Cons call calls)
  obtain d t where call: "call = (d, t)" by (cases call)
  show ?case
  proof (cases "d = c")
    case True
    with Cons.IH [of "snd (Allow c t r)" "snd (Allow c t r')"] Cons.prems call
    show ?thesis by (simp add: case_prod_beta Allow_agree [OF Cons.prems])
  next
    case False
    with Cons.IH [of "snd (Allow d t r)" r'] Cons.prems call
    show ?thesis by (simp add: case_prod_beta Allow_other)
  qed
qed

lemma grants_alone: "grants c r calls = grants c r (filter (\<lambda>(d, _). d = c) calls)"
proof -
  have count: "grants c r cs = length (filter id
      (map snd (filter (\<lambda>((d, _), _). d = c) (zip cs (allow_run r cs)))))" for cs
    by (auto simp: grants_def filter_map comp_def intro!: arg_cong [where f = length] filter_cong)
  show ?thesis
    unfolding count [of calls] count [of "filter (\<lambda>(d, _). d = c) calls"]
    by (simp add: answers_agree [of r r])
qed

section \<open>Properties\<close>

text \<open>
  C22: in any stretch of time no longer than the window, whatever the other clients do and in
  whatever order the clock is read, a client gets at most twice the quota minus one packets
  through (the quota is the limit, or one when the limit is smaller).
\<close>

theorem Allow_rate_bound:
  assumes "limiter_wf r"
    and "\<And>t. (c, t) \<in> set calls \<Longrightarrow> lo \<le> t \<and> t \<le> lo + rl_window r"
  shows "grants c r calls \<le> 2 * quota r - 1"
proof -
  have "grants c r calls \<le> remaining r c + quota r"
    using grants_stretch [OF assms] by simp
  moreover have "remaining r c \<le> quota r - 1" by (rule remaining_le [OF assms(1)])
  moreover have "1 \<le> quota r" by (simp add: quota_def)
  ultimately show ?thesis by linarith
qed

theorem Allow_rate_bound_witness:
  "grants ''a'' (newRateLimiter 2 10) [(''a'', 0), (''b'', 1), (''a'', 2), (''a'', 3)] \<le> 3"
  using Allow_rate_bound [OF limiter_wf_new, of "''a''"
      "[(''a'', 0), (''b'', 1), (''a'', 2), (''a'', 3)]" 0 2 10]
  by (simp add: newRateLimiter_def quota_def)

text \<open>
  C24: clients do not disturb each other: the answers one client gets in a run are the
  answers it would get alone, whatever the others do in between.
\<close>

theorem Allow_clients_independent:
  "map snd (filter (\<lambda>((d, _), _). d = c) (zip calls (allow_run r calls))) =
     allow_run r (filter (\<lambda>(d, _). d = c) calls)"
  by (rule answers_agree) simp_all

text \<open>
  C23: the limiter is exact inside a window: counted from a client's first call, a fresh
  limiter lets through as many of the calls made within the window as the quota allows, and
  no more.
\<close>

theorem Allow_exact_in_window:
  assumes "filter (\<lambda>(d, _). d = c) calls = (c, t0) # rest"
    and "\<And>t. (c, t) \<in> set rest \<Longrightarrow> t \<le> t0 + window"
  shows "grants c (newRateLimiter limit window) calls = min (nat (max 1 limit)) (Suc (length rest))"
proof -
  let ?r = "newRateLimiter limit window" and ?r1 = "snd (Allow c t0 (newRateLimiter limit window))"
  have closed: "\<not> open_until ?r c t0" by (simp add: open_until_def newRateLimiter_def)
  note opens = Allow_opens [OF closed]
  have "open_until ?r1 c t" if "(c, t) \<in> set rest" for t
    using open_until_mono [OF opens(2)] assms(2) [OF that] by (simp add: newRateLimiter_def)
  then have "grants c ?r1 rest = min (quota ?r - 1) (length (filter (\<lambda>(d, _). d = c) rest))"
    using grants_open [OF limiter_wf_Allow [OF limiter_wf_new]] opens(3) by simp
  moreover have "filter (\<lambda>(d, _). d = c) rest = rest"
  proof -
    have "filter (\<lambda>(d, _). d = c) (filter (\<lambda>(d, _). d = c) calls) = filter (\<lambda>(d, _). d = c) calls"
      by simp
    then show ?thesis unfolding assms(1) by simp
  qed
  moreover have "grants c ?r calls = grants c ?r ((c, t0) # rest)"
    using grants_alone [of c ?r calls] assms(1) by simp
  moreover have "1 \<le> quota ?r" by (simp add: quota_def)
  ultimately have "grants c ?r calls = min (quota ?r) (Suc (length rest))"
    using opens(1) by simp
  then show ?thesis by (simp add: quota_def newRateLimiter_def)
qed

theorem Allow_exact_in_window_witness:
  "grants ''a'' (newRateLimiter 2 10) [(''b'', 0), (''a'', 1), (''a'', 5), (''b'', 6), (''a'', 11)] = 2"
  by (subst Allow_exact_in_window [of _ _ 1 "[(''a'', 5), (''a'', 11)]"]) auto

end
