(* ===== verification/Acl.thy ===== *)
theory Acl
  imports Jwt Topics
begin

text \<open>
  Topic authorization, \<open>internal/auth/acl/service.go\<close>. The \<open>Authorizer\<close> has no
  state; a check returns \<open>None\<close> (Go's nil error) or the error.
\<close>

section \<open>Operations\<close>

definition CanPublish :: "Claims \<Rightarrow> string \<Rightarrow> error option" where
  "CanPublish claims topic =
     (if clm_Role claims = ''admin'' then None
      else if clm_Role claims \<noteq> ''device'' then Some ''unknown client role''
      else (let devicePrefix = ''device/'' @ clm_DeviceID claims @ ''/''
            in if \<not> HasPrefix topic devicePrefix
               then Some (''device '' @ clm_DeviceID claims @ '' cannot publish to '' @ topic)
               else if HasSuffix topic ''/command''
               then Some (''device '' @ clm_DeviceID claims @ '' cannot publish command topics'')
               else None))"

definition CanSubscribe :: "Claims \<Rightarrow> string \<Rightarrow> error option" where
  "CanSubscribe claims topic =
     (if clm_Role claims = ''admin'' then None
      else if clm_Role claims \<noteq> ''device'' then Some ''unknown client role''
      else (let expected = ''device/'' @ clm_DeviceID claims @ ''/command''
            in if topic \<noteq> expected
               then Some (''device '' @ clm_DeviceID claims @ '' cannot subscribe to '' @ topic)
               else None))"

section \<open>Vocabulary of the specification\<close>

definition command_topic :: "string \<Rightarrow> string" where
  "command_topic d = ''device/'' @ d @ ''/command''"

text \<open>
  A device identifier that is one plain topic level: it contains no separator and is not a
  wildcard.
\<close>

definition plain_id :: "string \<Rightarrow> bool" where
  "plain_id d = (CHR ''/'' \<notin> set d \<and> d \<noteq> ''+'' \<and> d \<noteq> ''#'')"

section \<open>Lemmas\<close>

lemma CanSubscribe_None_iff:
  "CanSubscribe claims topic = None \<longleftrightarrow>
     clm_Role claims = ''admin'' \<or>
     clm_Role claims = ''device'' \<and> topic = command_topic (clm_DeviceID claims)"
  by (auto simp: CanSubscribe_def command_topic_def Let_def)

lemma CanPublish_None_iff:
  "CanPublish claims topic = None \<longleftrightarrow>
     clm_Role claims = ''admin'' \<or>
     clm_Role claims = ''device''
       \<and> (\<exists>rest. topic = ''device/'' @ clm_DeviceID claims @ ''/'' @ rest)
       \<and> \<not> (\<exists>front. topic = front @ ''/command'')"
  by (auto simp: CanPublish_def Let_def HasPrefix_iff HasSuffix_iff)

lemma Split_command_topic:
  "CHR ''/'' \<notin> set d \<Longrightarrow> Split (CHR ''/'') (command_topic d) = [''device'', d, ''command'']"
  using Split_device_topic [of d "''command''"] by (simp add: command_topic_def)

lemma command_topic_plain: "plain_id d \<Longrightarrow> wildcard_free (command_topic d)"
  by (simp add: plain_id_def wildcard_free_def Split_command_topic)

lemma command_topic_nonempty [simp]: "command_topic d \<noteq> []"
  by (simp add: command_topic_def)

lemma command_topic_inject: "command_topic d = command_topic e \<longleftrightarrow> d = e"
  by (simp add: command_topic_def)

lemma TopicOwner_device:
  "CHR ''/'' \<notin> set d \<Longrightarrow> TopicOwner (''device/'' @ d @ CHR ''/'' # rest) = d"
  unfolding TopicOwner_def Split_device_topic by (simp add: Let_def Suc_le_eq)

lemma command_topic_suffix: "command_topic d = (''device/'' @ d) @ ''/command''"
  by (simp add: command_topic_def)

section \<open>Properties\<close>

text \<open>
  What a device may publish is its own and never a command: the owner of the topic
  is the device of the token, and no device's command filter matches the topic.
\<close>

lemma CanPublish_own_topic:
  assumes "clm_Role claims = ''device''" and "CHR ''/'' \<notin> set (clm_DeviceID claims)"
    and "CanPublish claims topic = None"
  shows "TopicOwner topic = clm_DeviceID claims
    \<and> (\<forall>d. plain_id d \<longrightarrow> \<not> MatchTopic (command_topic d) topic)"
proof -
  from assms obtain rest where topic: "topic = ''device/'' @ clm_DeviceID claims @ CHR ''/'' # rest"
    and no_command: "\<And>front. topic \<noteq> front @ ''/command''"
    by (auto simp: CanPublish_None_iff)
  have "\<not> MatchTopic (command_topic d) topic" if "plain_id d" for d
    using no_command [of "''device/'' @ d"] MatchTopic_plain [OF command_topic_plain [OF that]]
    by (auto simp: command_topic_suffix)
  moreover have "TopicOwner topic = clm_DeviceID claims"
    using TopicOwner_device [OF assms(2)] topic by simp
  ultimately show ?thesis by blast
qed

lemma CanPublish_own_topic_instance:
  "TopicOwner ''device/d1/telemetry'' = ''d1''
   \<and> \<not> MatchTopic (command_topic ''d2'') ''device/d1/telemetry''"
  using CanPublish_own_topic [of "\<lparr>clm_ClientID = ''d1'', clm_DeviceID = ''d1'',
      clm_Role = ''device'', clm_Subject = ''d1'', clm_IssuedAt = 0, clm_ExpiresAt = 9\<rparr>"
      "''device/d1/telemetry''"]
  by (simp add: CanPublish_def HasPrefix_def HasSuffix_def plain_id_def)

text \<open>
  The check compares strings while the registry matches filters: a device whose
  identifier is the wildcard \<open>+\<close> may subscribe to a filter that matches the command topic
  of every device.
\<close>

lemma CanSubscribe_wildcard_device:
  assumes "clm_Role claims = ''device''" and "clm_DeviceID claims = ''+''"
    and "CHR ''/'' \<notin> set d"
  shows "CanSubscribe claims (command_topic ''+'') = None
    \<and> MatchTopic (command_topic ''+'') (command_topic d)"
  using assms
  by (simp add: CanSubscribe_None_iff MatchTopic_accepts Split_command_topic level_match_def)

lemma CanSubscribe_wildcard_device_instance:
  "MatchTopic (command_topic ''+'') (command_topic ''pump-7'')"
  using CanSubscribe_wildcard_device [of "\<lparr>clm_ClientID = ''+'', clm_DeviceID = ''+'',
      clm_Role = ''device'', clm_Subject = ''+'', clm_IssuedAt = 0, clm_ExpiresAt = 9\<rparr>" "''pump-7''"]
  by simp

end
