(* ===== verification/Broker.thy ===== *)
theory Broker
  imports Queues Router Limiter Acl
begin

text \<open>
  The broker's connection handler, \<open>internal/broker/server/server.go\<close>. A handler takes the
  server's state and returns it updated; the results of \<open>conn.Receive\<close> are its input.
  Logging has no effect on the state and is left out.
\<close>

section \<open>The server\<close>

record Server =
  srv_auth :: Service
  srv_sessions :: Sessions
  srv_subscriptions :: Registry
  srv_metrics :: Metrics
  srv_limiter :: rateLimiter
  srv_world :: world

text \<open>\<open>time.Minute\<close> is \<open>60 * 10 ^ 9\<close> nanoseconds.\<close>

definition Server_New :: "AuthConfig \<Rightarrow> int \<Rightarrow> world \<Rightarrow> Server" where
  "Server_New auth rateLimitPerMin w =
     \<lparr>srv_auth = Service_New auth, srv_sessions = NewStore, srv_subscriptions = NewRegistry,
      srv_metrics = Metrics_New, srv_limiter = newRateLimiter rateLimitPerMin 60000000000,
      srv_world = w\<rparr>"

section \<open>Calls to the surroundings\<close>

definition srv_now :: "Server \<Rightarrow> time \<times> Server" where
  "srv_now s = (case TimestampNow (srv_world s) of (t, w) \<Rightarrow> (t, s\<lparr>srv_world := w\<rparr>))"

definition srv_send :: "conn \<Rightarrow> Packet \<Rightarrow> Server \<Rightarrow> error option \<times> Server" where
  "srv_send c p s = (case Send c p (srv_world s) of (e, w) \<Rightarrow> (e, s\<lparr>srv_world := w\<rparr>))"

definition srv_store :: "(Store \<Rightarrow> 'a \<times> Store) \<Rightarrow> Server \<Rightarrow> 'a \<times> Server" where
  "srv_store f s = (case on_store f (srv_world s) of (r, w) \<Rightarrow> (r, s\<lparr>srv_world := w\<rparr>))"

definition metric :: "(Metrics \<Rightarrow> Metrics) \<Rightarrow> Server \<Rightarrow> Server" where
  "metric f s = s\<lparr>srv_metrics := f (srv_metrics s)\<rparr>"

text \<open>Send a packet that a builder stamps with the time.\<close>

definition reply :: "conn \<Rightarrow> (time \<Rightarrow> Packet) \<Rightarrow> Server \<Rightarrow> error option \<times> Server" where
  "reply c build s = (case srv_now s of (t, s) \<Rightarrow> srv_send c (build t) s)"

section \<open>Handlers\<close>

text \<open>The checks of \<open>authenticate\<close>, up to the client identifier and the claims.\<close>

definition check_connect ::
  "error + Packet \<Rightarrow> Server \<Rightarrow> (error + string \<times> Claims) \<times> Server" where
  "check_connect received s =
     (case received of
        Inl err \<Rightarrow> (Inl (''read connect packet: '' @ err), s)
      | Inr packet \<Rightarrow>
          if pkt_Type packet \<noteq> PacketConnect then (Inl ''first packet must be CONNECT'', s)
          else (case srv_now s of (now, s) \<Rightarrow>
            (case Parse (w_jwt (srv_world s)) now (srv_auth s) (pkt_Token packet) of
               Inl err \<Rightarrow> (Inl err, s)
             | Inr claims \<Rightarrow>
                 (let clientID = (if pkt_ClientID packet = [] then clm_ClientID claims
                                  else pkt_ClientID packet)
                  in if clientID = [] then (Inl ''missing client id'', s)
                     else if clm_Role claims = ''device'' \<and> clm_DeviceID claims \<noteq> clientID then
                       (Inl (''device token client mismatch: '' @ clm_DeviceID claims @ '' != ''
                              @ clientID), s)
                     else (Inr (clientID, claims), s)))))"

text \<open>
  The rest of \<open>authenticate\<close>: register the session and acknowledge it. The first two clock
  readings are the arguments of the session literal, the others those of
  \<open>UpsertConnected\<close>.
\<close>

definition open_session ::
  "conn \<Rightarrow> string \<Rightarrow> Claims \<Rightarrow> Server \<Rightarrow>
   (error + string \<times> Claims \<times> Subscription list) \<times> Server" where
  "open_session conn clientID claims s =
     (case srv_now s of (connectedAt, s) \<Rightarrow>
      case srv_now s of (lastSeenAt, s) \<Rightarrow>
      case srv_now s of (now1, s) \<Rightarrow>
      case srv_now s of (now2, s) \<Rightarrow>
      case UpsertConnected
             \<lparr>ses_ClientID = clientID, ses_DeviceID = clm_DeviceID claims,
              ses_Role = clm_Role claims, ses_Claims = claims,
              ses_Conn = Some conn, ses_Online = False, ses_Subscriptions = [],
              ses_ConnectedAt = connectedAt, ses_LastSeenAt = lastSeenAt\<rparr>
             now1 now2 (srv_sessions s) of
        ((sessionPresent, subscriptions), sess) \<Rightarrow>
          (let s = metric (set_ActiveSessions (OnlineCount sess)) (s\<lparr>srv_sessions := sess\<rparr>)
           in case reply conn (ConnAck ''accepted'' sessionPresent) s of
                (Some err, s) \<Rightarrow> (Inl (''send connack: '' @ err), s)
              | (None, s) \<Rightarrow>
                  (Inr (clientID, claims, subscriptions), metric inc_PacketsOut s)))"

definition authenticate ::
  "conn \<Rightarrow> error + Packet \<Rightarrow> Server \<Rightarrow>
   (error + string \<times> Claims \<times> Subscription list) \<times> Server" where
  "authenticate conn received s =
     (case check_connect received s of
        (Inl err, s) \<Rightarrow> (Inl err, s)
      | (Inr (clientID, claims), s) \<Rightarrow> open_session conn clientID claims s)"

fun check_subscriptions :: "Claims \<Rightarrow> Subscription list \<Rightarrow> error option" where
  "check_subscriptions claims [] = None"
| "check_subscriptions claims (subscription # rest) =
     (case CanSubscribe claims (sub_Topic subscription) of
        Some err \<Rightarrow> Some err
      | None \<Rightarrow> check_subscriptions claims rest)"

definition handleSubscribe ::
  "conn \<Rightarrow> string \<Rightarrow> Claims \<Rightarrow> Packet \<Rightarrow> Server \<Rightarrow> error option \<times> Server" where
  "handleSubscribe conn clientID claims packet s =
     (if length (pkt_Subscriptions packet) = 0 then (Some ''missing subscriptions'', s)
      else case check_subscriptions claims (pkt_Subscriptions packet) of
             Some err \<Rightarrow> (Some err, s)
           | None \<Rightarrow>
               (let s = s\<lparr>srv_subscriptions :=
                            Registry_Add (srv_subscriptions s) clientID (pkt_Subscriptions packet)\<rparr>;
                    s = s\<lparr>srv_sessions :=
                            AddSubscriptions (srv_sessions s) clientID (pkt_Subscriptions packet)\<rparr>;
                    s = metric (add_Subscriptions (int (length (pkt_Subscriptions packet)))) s
                in case reply conn (SubAck (pkt_PacketID packet)) s of
                     (Some err, s) \<Rightarrow> (Some err, s)
                   | (None, s) \<Rightarrow> (None, metric inc_PacketsOut s)))"

text \<open>The router's call, with the broker's connections, queue and map iteration.\<close>

definition srv_route :: "Packet \<Rightarrow> Server \<Rightarrow> (int \<times> error option) \<times> Server" where
  "srv_route packet s =
     (case Route Send Enqueue range_keys (srv_sessions s) (srv_subscriptions s) packet
             (srv_metrics s) (srv_world s) of
        (r, m, w) \<Rightarrow> (r, s\<lparr>srv_metrics := m, srv_world := w\<rparr>))"

text \<open>The fields the broker fills in before it stores and routes a published packet.\<close>

definition complete_packet :: "string \<Rightarrow> Packet \<Rightarrow> Server \<Rightarrow> Packet \<times> Server" where
  "complete_packet clientID packet s =
     (case (if pkt_PacketID packet = []
            then (case NewPacketID (srv_world s) of
                    (i, w) \<Rightarrow> (packet\<lparr>pkt_PacketID := i\<rparr>, s\<lparr>srv_world := w\<rparr>))
            else (packet, s)) of
        (packet, s) \<Rightarrow>
          (case (if IsZero (pkt_Timestamp packet)
                 then (case srv_now s of (t, s) \<Rightarrow> (packet\<lparr>pkt_Timestamp := t\<rparr>, s))
                 else (packet, s)) of
             (packet, s) \<Rightarrow> (packet\<lparr>pkt_ClientID := clientID\<rparr>, s)))"

definition inbound_message :: "string \<Rightarrow> Packet \<Rightarrow> Message" where
  "inbound_message clientID packet =
     \<lparr>msg_PacketID = pkt_PacketID packet, msg_ClientID = clientID, msg_Topic = pkt_Topic packet,
      msg_QoS = pkt_QoS packet, msg_Payload = pkt_Payload packet,
      msg_PacketType = pkt_Type packet, msg_Direction = ''inbound'',
      msg_Timestamp = pkt_Timestamp packet, msg_Acknowledged = (pkt_QoS packet = 0)\<rparr>"

definition handlePublish ::
  "conn \<Rightarrow> string \<Rightarrow> Claims \<Rightarrow> Packet \<Rightarrow> Server \<Rightarrow> error option \<times> Server" where
  "handlePublish conn clientID claims packet s =
     (if pkt_Topic packet = [] then (Some ''missing topic'', s)
      else case CanPublish claims (pkt_Topic packet) of
             Some err \<Rightarrow> (Some err, s)
           | None \<Rightarrow>
               (case complete_packet clientID packet s of (packet, s) \<Rightarrow>
               (case srv_store (SaveMessage (inbound_message clientID packet)) s of
                  (Some err, s) \<Rightarrow> (Some err, s)
                | (None, s) \<Rightarrow>
                    (case srv_route packet (metric inc_Publishes s) of
                       ((_, Some err), s) \<Rightarrow> (Some err, s)
                     | ((_, None), s) \<Rightarrow>
                         if 0 < pkt_QoS packet then
                           (case reply conn (PubAck (pkt_PacketID packet)) s of
                              (Some err, s) \<Rightarrow> (Some err, s)
                            | (None, s) \<Rightarrow> (None, metric inc_PacketsOut s))
                         else (None, s)))))"

fun deliver_loop :: "conn \<Rightarrow> Packet list \<Rightarrow> Server \<Rightarrow> error option \<times> Server" where
  "deliver_loop conn [] s = (None, s)"
| "deliver_loop conn (packet # rest) s =
     (case srv_send conn packet s of
        (Some err, s) \<Rightarrow> (Some err, s)
      | (None, s) \<Rightarrow> deliver_loop conn rest (metric inc_PacketsOut s))"

definition deliverOffline :: "string \<Rightarrow> conn \<Rightarrow> Server \<Rightarrow> error option \<times> Server" where
  "deliverOffline clientID conn s =
     (case Pending clientID (srv_world s) of
        (Inl err, w) \<Rightarrow> (Some err, s\<lparr>srv_world := w\<rparr>)
      | (Inr packetsPending, w) \<Rightarrow> deliver_loop conn packetsPending (s\<lparr>srv_world := w\<rparr>))"

text \<open>What happens to every received packet: it is counted, the session touched, the limiter asked.\<close>

definition admit :: "string \<Rightarrow> Server \<Rightarrow> bool \<times> Server" where
  "admit clientID s =
     (case srv_now (metric inc_PacketsIn s) of (seen, s) \<Rightarrow>
     (let s = s\<lparr>srv_sessions := Touch clientID seen (srv_sessions s)\<rparr>
      in case srv_now s of (now, s) \<Rightarrow>
         (case Allow clientID now (srv_limiter s) of (allowed, l) \<Rightarrow> (allowed, s\<lparr>srv_limiter := l\<rparr>))))"

text \<open>The case \<open>PUBACK\<close>.\<close>

definition handlePubAck :: "Packet \<Rightarrow> Server \<Rightarrow> Server" where
  "handlePubAck packet s =
     (let s = snd (srv_store (MarkMessageAcknowledged (pkt_PacketID packet)) s)
      in case Ack (pkt_PacketID packet) (srv_world s) of
           (Some err, w) \<Rightarrow> s\<lparr>srv_world := w\<rparr>
         | (None, w) \<Rightarrow> metric (add_OfflineQueue (- 1)) (s\<lparr>srv_world := w\<rparr>))"

text \<open>The \<open>switch\<close> on the packet type; the flag says whether the loop goes on.\<close>

definition dispatch ::
  "conn \<Rightarrow> string \<Rightarrow> Claims \<Rightarrow> Packet \<Rightarrow> Server \<Rightarrow> bool \<times> Server" where
  "dispatch conn clientID claims packet s =
     (if pkt_Type packet = PacketPing then
        (case reply conn Pong s of
           (Some err, s) \<Rightarrow> (False, s)
         | (None, s) \<Rightarrow> (True, metric inc_PacketsOut s))
      else if pkt_Type packet = PacketSubscribe then
        (case handleSubscribe conn clientID claims packet s of
           (Some err, s) \<Rightarrow> (True, snd (reply conn (Error ''SUBSCRIBE_FAILED'' err) s))
         | (None, s) \<Rightarrow> (True, s))
      else if pkt_Type packet = PacketPublish then
        (case handlePublish conn clientID claims packet s of
           (Some err, s) \<Rightarrow> (True, snd (reply conn (Error ''PUBLISH_FAILED'' err) s))
         | (None, s) \<Rightarrow> (True, s))
      else if pkt_Type packet = PacketPubAck then (True, handlePubAck packet s)
      else if pkt_Type packet = PacketDisconnect then (False, s)
      else
        (True, snd (reply conn (Error ''UNSUPPORTED_PACKET''
           (''unsupported packet type '' @ pkt_Type packet)) s)))"

text \<open>
  One iteration of the loop of \<open>handleConnection\<close>, after a packet was received.
\<close>

definition handlePacket ::
  "conn \<Rightarrow> string \<Rightarrow> Claims \<Rightarrow> Packet \<Rightarrow> Server \<Rightarrow> bool \<times> Server" where
  "handlePacket conn clientID claims packet s =
     (case admit clientID s of
        (allowed, s) \<Rightarrow>
          if \<not> allowed then
            (True, snd (reply conn (Error ''RATE_LIMITED'' ''too many packets'')
                         (metric inc_RateLimited s)))
          else dispatch conn clientID claims packet s)"

text \<open>The deferred functions of a handler that authenticated, in the order they run.\<close>

definition leave :: "conn \<Rightarrow> string \<Rightarrow> Server \<Rightarrow> Server" where
  "leave conn clientID s =
     (case srv_now s of (now, s) \<Rightarrow>
        (let sess = Disconnect clientID now (srv_sessions s);
             s = metric (set_ActiveSessions (OnlineCount sess)) (s\<lparr>srv_sessions := sess\<rparr>)
         in s\<lparr>srv_world := Close conn (srv_world s)\<rparr>))"

text \<open>The end of a handler that did not authenticate.\<close>

definition reject :: "conn \<Rightarrow> error \<Rightarrow> Server \<Rightarrow> Server" where
  "reject conn err s =
     (let s = snd (reply conn (Error ''AUTH_FAILED'' err) (metric inc_AuthFailures s))
      in s\<lparr>srv_world := Close conn (srv_world s)\<rparr>)"

text \<open>
  The whole handler on the results of successive calls of \<open>conn.Receive\<close>. The flag is
  \<open>True\<close> while the handler waits for the next result.
\<close>

fun handle_loop ::
  "conn \<Rightarrow> string \<Rightarrow> Claims \<Rightarrow> (error + Packet) list \<Rightarrow> Server \<Rightarrow> bool \<times> Server" where
  "handle_loop conn clientID claims [] s = (True, s)"
| "handle_loop conn clientID claims (Inl err # rest) s = (False, leave conn clientID s)"
| "handle_loop conn clientID claims (Inr packet # rest) s =
     (case handlePacket conn clientID claims packet s of
        (True, s) \<Rightarrow> handle_loop conn clientID claims rest s
      | (False, s) \<Rightarrow> (False, leave conn clientID s))"

fun handleConnection :: "conn \<Rightarrow> (error + Packet) list \<Rightarrow> Server \<Rightarrow> bool \<times> Server" where
  "handleConnection conn [] s = (True, s)"
| "handleConnection conn (received # rest) s =
     (case authenticate conn received s of
        (Inl err, s) \<Rightarrow> (False, reject conn err s)
      | (Inr (clientID, claims, existingSubscriptions), s) \<Rightarrow>
          handle_loop conn clientID claims rest (snd (deliverOffline clientID conn s)))"

end
