(* ===== verification/Broker_Facts.thy ===== *)
theory Broker_Facts
  imports Broker
begin

text \<open>
  What each handler of the broker leaves alone and what it keeps: the facts the properties of
  the broker and of its interleaved runs rest on.
\<close>

section \<open>The router's interfaces\<close>

interpretation fanout: router_env Send w_wire Enqueue queued_ids range_keys
  by unfold_locales (auto simp: Send_wire Enqueue_queued)

section \<open>Vocabulary\<close>

text \<open>
  The packets on the wire that the broker counts: all but the \<open>ERROR\<close> packets; and the
  difference between the counter and their number.
\<close>

definition counted :: "(conn \<times> Packet) list \<Rightarrow> int" where
  "counted wire = int (length (filter (\<lambda>(c, p). pkt_Type p \<noteq> PacketError) wire))"

definition out_balance :: "Server \<Rightarrow> int" where
  "out_balance s = m_PacketsOut (srv_metrics s) - counted (w_wire (srv_world s))"

section \<open>Frames\<close>

lemma srv_now_frame [simp]:
  "srv_auth (snd (srv_now s)) = srv_auth s"
  "srv_sessions (snd (srv_now s)) = srv_sessions s"
  "srv_subscriptions (snd (srv_now s)) = srv_subscriptions s"
  "srv_metrics (snd (srv_now s)) = srv_metrics s"
  "srv_limiter (snd (srv_now s)) = srv_limiter s"
  "w_store (srv_world (snd (srv_now s))) = w_store (srv_world s)"
  "w_jwt (srv_world (snd (srv_now s))) = w_jwt (srv_world s)"
  "w_wire (srv_world (snd (srv_now s))) = w_wire (srv_world s)"
  by (simp_all add: srv_now_def case_prod_beta)

lemma srv_send_frame [simp]:
  "srv_auth (snd (srv_send c p s)) = srv_auth s"
  "srv_sessions (snd (srv_send c p s)) = srv_sessions s"
  "srv_subscriptions (snd (srv_send c p s)) = srv_subscriptions s"
  "srv_metrics (snd (srv_send c p s)) = srv_metrics s"
  "srv_limiter (snd (srv_send c p s)) = srv_limiter s"
  "w_store (srv_world (snd (srv_send c p s))) = w_store (srv_world s)"
  "w_jwt (srv_world (snd (srv_send c p s))) = w_jwt (srv_world s)"
  by (simp_all add: srv_send_def case_prod_beta)

lemma reply_frame [simp]:
  "srv_auth (snd (reply c b s)) = srv_auth s"
  "srv_sessions (snd (reply c b s)) = srv_sessions s"
  "srv_subscriptions (snd (reply c b s)) = srv_subscriptions s"
  "srv_metrics (snd (reply c b s)) = srv_metrics s"
  "srv_limiter (snd (reply c b s)) = srv_limiter s"
  "w_store (srv_world (snd (reply c b s))) = w_store (srv_world s)"
  "w_jwt (srv_world (snd (reply c b s))) = w_jwt (srv_world s)"
  by (simp_all add: reply_def case_prod_beta)

lemma srv_store_frame [simp]:
  "srv_auth (snd (srv_store f s)) = srv_auth s"
  "srv_sessions (snd (srv_store f s)) = srv_sessions s"
  "srv_subscriptions (snd (srv_store f s)) = srv_subscriptions s"
  "srv_metrics (snd (srv_store f s)) = srv_metrics s"
  "srv_limiter (snd (srv_store f s)) = srv_limiter s"
  "w_jwt (srv_world (snd (srv_store f s))) = w_jwt (srv_world s)"
  "w_wire (srv_world (snd (srv_store f s))) = w_wire (srv_world s)"
  "w_store (srv_world (snd (srv_store f s))) = snd (f (w_store (srv_world s)))"
  "fst (srv_store f s) = fst (f (w_store (srv_world s)))"
  by (simp_all add: srv_store_def case_prod_beta)

lemma metric_frame [simp]:
  "srv_auth (metric f s) = srv_auth s"
  "srv_sessions (metric f s) = srv_sessions s"
  "srv_subscriptions (metric f s) = srv_subscriptions s"
  "srv_limiter (metric f s) = srv_limiter s"
  "srv_world (metric f s) = srv_world s"
  "srv_metrics (metric f s) = f (srv_metrics s)"
  by (simp_all add: metric_def)

lemma metric_active [simp]:
  "m_ActiveSessions (inc_PacketsIn m) = m_ActiveSessions m"
  "m_ActiveSessions (inc_PacketsOut m) = m_ActiveSessions m"
  "m_ActiveSessions (inc_Publishes m) = m_ActiveSessions m"
  "m_ActiveSessions (add_Subscriptions n m) = m_ActiveSessions m"
  "m_ActiveSessions (inc_AuthFailures m) = m_ActiveSessions m"
  "m_ActiveSessions (inc_RateLimited m) = m_ActiveSessions m"
  "m_ActiveSessions (inc_FailedDeliveries m) = m_ActiveSessions m"
  "m_ActiveSessions (add_OfflineQueue n m) = m_ActiveSessions m"
  "m_ActiveSessions (set_ActiveSessions n m) = n"
  by (simp_all add: metric_defs)

lemma metric_out [simp]:
  "m_PacketsOut (inc_PacketsIn m) = m_PacketsOut m"
  "m_PacketsOut (inc_PacketsOut m) = m_PacketsOut m + 1"
  "m_PacketsOut (inc_Publishes m) = m_PacketsOut m"
  "m_PacketsOut (add_Subscriptions n m) = m_PacketsOut m"
  "m_PacketsOut (inc_AuthFailures m) = m_PacketsOut m"
  "m_PacketsOut (inc_RateLimited m) = m_PacketsOut m"
  "m_PacketsOut (inc_FailedDeliveries m) = m_PacketsOut m"
  "m_PacketsOut (add_OfflineQueue n m) = m_PacketsOut m"
  "m_PacketsOut (set_ActiveSessions n m) = m_PacketsOut m"
  by (simp_all add: metric_defs)

lemma Route_loop_active:
  "Route_loop send enqueue sess packet matches d m w = ((d', e), m', w') \<Longrightarrow>
     m_ActiveSessions m' = m_ActiveSessions m"
  by (rule Route_loop_invariant [where P = "\<lambda>_ m' _. m_ActiveSessions m' = m_ActiveSessions m"
        and M = "set matches"]) auto

lemma srv_route_frame [simp]:
  "srv_auth (snd (srv_route p s)) = srv_auth s"
  "srv_sessions (snd (srv_route p s)) = srv_sessions s"
  "srv_subscriptions (snd (srv_route p s)) = srv_subscriptions s"
  "srv_limiter (snd (srv_route p s)) = srv_limiter s"
  by (simp_all add: srv_route_def case_prod_beta)

lemma srv_route_loop:
  obtains order w where "set order = fst ` set (srv_subscriptions s)"
    and "w_store w = w_store (srv_world s)" and "w_wire w = w_wire (srv_world s)"
    and "w_jwt w = w_jwt (srv_world s)"
    and "srv_route p s =
      (case Route_loop Send Enqueue (srv_sessions s) p
              (Registry_Match order (srv_subscriptions s) (pkt_Topic p)) 0 (srv_metrics s) w of
         (r, m, w) \<Rightarrow> (r, s\<lparr>srv_metrics := m, srv_world := w\<rparr>))"
proof (rule that [of "fst (range_keys (map fst (srv_subscriptions s)) (srv_world s))"
      "snd (range_keys (map fst (srv_subscriptions s)) (srv_world s))"])
qed (simp_all add: srv_route_def Route_def case_prod_beta)

lemma srv_route_active [simp]:
  "m_ActiveSessions (srv_metrics (snd (srv_route p s))) = m_ActiveSessions (srv_metrics s)"
proof -
  obtain order w where r: "srv_route p s =
      (case Route_loop Send Enqueue (srv_sessions s) p
              (Registry_Match order (srv_subscriptions s) (pkt_Topic p)) 0 (srv_metrics s) w of
         (r, m, w) \<Rightarrow> (r, s\<lparr>srv_metrics := m, srv_world := w\<rparr>))"
    by (rule srv_route_loop)
  show ?thesis
    using Route_loop_active [of Send Enqueue "srv_sessions s" p _ 0 "srv_metrics s" w]
    by (auto simp: r split: prod.splits)
qed

lemma complete_packet_frame [simp]:
  "srv_auth (snd (complete_packet c p s)) = srv_auth s"
  "srv_sessions (snd (complete_packet c p s)) = srv_sessions s"
  "srv_subscriptions (snd (complete_packet c p s)) = srv_subscriptions s"
  "srv_metrics (snd (complete_packet c p s)) = srv_metrics s"
  "srv_limiter (snd (complete_packet c p s)) = srv_limiter s"
  "w_store (srv_world (snd (complete_packet c p s))) = w_store (srv_world s)"
  "w_jwt (srv_world (snd (complete_packet c p s))) = w_jwt (srv_world s)"
  "w_wire (srv_world (snd (complete_packet c p s))) = w_wire (srv_world s)"
  "pkt_Type (fst (complete_packet c p s)) = pkt_Type p"
  "pkt_Topic (fst (complete_packet c p s)) = pkt_Topic p"
  "pkt_QoS (fst (complete_packet c p s)) = pkt_QoS p"
  "pkt_Payload (fst (complete_packet c p s)) = pkt_Payload p"
  "pkt_ClientID (fst (complete_packet c p s)) = c"
  by (simp_all add: complete_packet_def case_prod_beta)

lemma handlePublish_frame [simp]:
  "srv_auth (snd (handlePublish c cl clm p s)) = srv_auth s"
  "srv_sessions (snd (handlePublish c cl clm p s)) = srv_sessions s"
  "srv_subscriptions (snd (handlePublish c cl clm p s)) = srv_subscriptions s"
  "srv_limiter (snd (handlePublish c cl clm p s)) = srv_limiter s"
  "m_ActiveSessions (srv_metrics (snd (handlePublish c cl clm p s))) =
     m_ActiveSessions (srv_metrics s)"
  by (simp_all add: handlePublish_def case_prod_beta split: option.splits)

lemma deliver_loop_frame [simp]:
  "srv_auth (snd (deliver_loop c ps s)) = srv_auth s"
  "srv_sessions (snd (deliver_loop c ps s)) = srv_sessions s"
  "srv_subscriptions (snd (deliver_loop c ps s)) = srv_subscriptions s"
  "srv_limiter (snd (deliver_loop c ps s)) = srv_limiter s"
  "w_store (srv_world (snd (deliver_loop c ps s))) = w_store (srv_world s)"
  "m_ActiveSessions (srv_metrics (snd (deliver_loop c ps s))) = m_ActiveSessions (srv_metrics s)"
  by (induction ps arbitrary: s) (simp_all add: case_prod_beta split: option.splits)

lemma deliverOffline_frame [simp]:
  "srv_auth (snd (deliverOffline cl c s)) = srv_auth s"
  "srv_sessions (snd (deliverOffline cl c s)) = srv_sessions s"
  "srv_subscriptions (snd (deliverOffline cl c s)) = srv_subscriptions s"
  "srv_limiter (snd (deliverOffline cl c s)) = srv_limiter s"
  "m_ActiveSessions (srv_metrics (snd (deliverOffline cl c s))) =
     m_ActiveSessions (srv_metrics s)"
  by (simp_all add: deliverOffline_def case_prod_beta split: sum.splits)

lemma handlePubAck_frame [simp]:
  "srv_auth (handlePubAck p s) = srv_auth s"
  "srv_sessions (handlePubAck p s) = srv_sessions s"
  "srv_subscriptions (handlePubAck p s) = srv_subscriptions s"
  "srv_limiter (handlePubAck p s) = srv_limiter s"
  "w_jwt (srv_world (handlePubAck p s)) = w_jwt (srv_world s)"
  "w_wire (srv_world (handlePubAck p s)) = w_wire (srv_world s)"
  "m_ActiveSessions (srv_metrics (handlePubAck p s)) = m_ActiveSessions (srv_metrics s)"
  by (simp_all add: handlePubAck_def case_prod_beta Let_def split: option.splits)

lemma handleSubscribe_frame [simp]:
  "srv_auth (snd (handleSubscribe c cl clm p s)) = srv_auth s"
  "srv_limiter (snd (handleSubscribe c cl clm p s)) = srv_limiter s"
  "w_store (srv_world (snd (handleSubscribe c cl clm p s))) = w_store (srv_world s)"
  "w_jwt (srv_world (snd (handleSubscribe c cl clm p s))) = w_jwt (srv_world s)"
  "m_ActiveSessions (srv_metrics (snd (handleSubscribe c cl clm p s))) =
     m_ActiveSessions (srv_metrics s)"
  by (simp_all add: handleSubscribe_def case_prod_beta Let_def split: option.splits)

lemma admit_frame [simp]:
  "srv_auth (snd (admit cl s)) = srv_auth s"
  "srv_subscriptions (snd (admit cl s)) = srv_subscriptions s"
  "w_store (srv_world (snd (admit cl s))) = w_store (srv_world s)"
  "w_jwt (srv_world (snd (admit cl s))) = w_jwt (srv_world s)"
  "w_wire (srv_world (snd (admit cl s))) = w_wire (srv_world s)"
  "m_ActiveSessions (srv_metrics (snd (admit cl s))) = m_ActiveSessions (srv_metrics s)"
  by (simp_all add: admit_def case_prod_beta Let_def)

lemma leave_frame [simp]:
  "srv_auth (leave c cl s) = srv_auth s"
  "srv_subscriptions (leave c cl s) = srv_subscriptions s"
  "srv_limiter (leave c cl s) = srv_limiter s"
  "w_store (srv_world (leave c cl s)) = w_store (srv_world s)"
  "w_jwt (srv_world (leave c cl s)) = w_jwt (srv_world s)"
  "w_wire (srv_world (leave c cl s)) = w_wire (srv_world s)"
  by (simp_all add: leave_def case_prod_beta Let_def)

lemma reject_frame [simp]:
  "srv_auth (reject c e s) = srv_auth s"
  "srv_sessions (reject c e s) = srv_sessions s"
  "srv_subscriptions (reject c e s) = srv_subscriptions s"
  "srv_limiter (reject c e s) = srv_limiter s"
  "w_store (srv_world (reject c e s)) = w_store (srv_world s)"
  "w_jwt (srv_world (reject c e s)) = w_jwt (srv_world s)"
  "m_ActiveSessions (srv_metrics (reject c e s)) = m_ActiveSessions (srv_metrics s)"
  by (simp_all add: reject_def Let_def)

lemma check_connect_frame [simp]:
  "srv_auth (snd (check_connect r s)) = srv_auth s"
  "srv_sessions (snd (check_connect r s)) = srv_sessions s"
  "srv_subscriptions (snd (check_connect r s)) = srv_subscriptions s"
  "srv_metrics (snd (check_connect r s)) = srv_metrics s"
  "srv_limiter (snd (check_connect r s)) = srv_limiter s"
  "w_store (srv_world (snd (check_connect r s))) = w_store (srv_world s)"
  "w_jwt (srv_world (snd (check_connect r s))) = w_jwt (srv_world s)"
  "w_wire (srv_world (snd (check_connect r s))) = w_wire (srv_world s)"
  by (simp_all add: check_connect_def case_prod_beta Let_def split: sum.splits)

text \<open>The session that \<open>open_session\<close> registers, whatever the clock says.\<close>

lemma open_session_sessions:
  obtains new t1 t2 where "srv_sessions (snd (open_session c cl clm s)) =
      snd (UpsertConnected new t1 t2 (srv_sessions s))"
    and "ses_ClientID new = cl" and "ses_Conn new = Some c" and "ses_Subscriptions new = []"
    and "ses_Claims new = clm" and "ses_Role new = clm_Role clm"
    and "ses_DeviceID new = clm_DeviceID clm"
    and "m_ActiveSessions (srv_metrics (snd (open_session c cl clm s))) =
      OnlineCount (snd (UpsertConnected new t1 t2 (srv_sessions s)))"
    and "\<And>r. fst (open_session c cl clm s) = Inr r \<Longrightarrow>
      r = (cl, clm, snd (fst (UpsertConnected new t1 t2 (srv_sessions s))))"
  by (rule that) (auto simp: open_session_def case_prod_beta Let_def split: option.splits)

lemma open_session_frame [simp]:
  "srv_auth (snd (open_session c cl clm s)) = srv_auth s"
  "srv_subscriptions (snd (open_session c cl clm s)) = srv_subscriptions s"
  "srv_limiter (snd (open_session c cl clm s)) = srv_limiter s"
  "w_store (srv_world (snd (open_session c cl clm s))) = w_store (srv_world s)"
  "w_jwt (srv_world (snd (open_session c cl clm s))) = w_jwt (srv_world s)"
  by (simp_all add: open_session_def case_prod_beta Let_def split: option.splits)

lemma authenticate_frame [simp]:
  "srv_auth (snd (authenticate c r s)) = srv_auth s"
  "srv_subscriptions (snd (authenticate c r s)) = srv_subscriptions s"
  "srv_limiter (snd (authenticate c r s)) = srv_limiter s"
  "w_store (srv_world (snd (authenticate c r s))) = w_store (srv_world s)"
  "w_jwt (srv_world (snd (authenticate c r s))) = w_jwt (srv_world s)"
  by (simp_all add: authenticate_def case_prod_beta split: sum.splits)

section \<open>The count of sent packets\<close>

lemma counted_append [simp]: "counted (xs @ ys) = counted xs + counted ys"
  by (simp add: counted_def)

lemma counted_one [simp]: "counted [(c, p)] = (if pkt_Type p = PacketError then 0 else 1)"
  by (simp add: counted_def)

lemma counted_Nil [simp]: "counted [] = 0"
  by (simp add: counted_def)

lemma srv_send_balance:
  "out_balance (snd (srv_send c p s)) =
     out_balance s - (if fst (srv_send c p s) = None \<and> pkt_Type p \<noteq> PacketError then 1 else 0)"
  by (simp add: out_balance_def srv_send_def case_prod_beta Send_wire)

lemma srv_now_balance [simp]: "out_balance (snd (srv_now s)) = out_balance s"
  by (simp add: out_balance_def)

lemma reply_balance:
  assumes "\<And>t. pkt_Type (b t) = ty"
  shows "out_balance (snd (reply c b s)) =
     out_balance s - (if fst (reply c b s) = None \<and> ty \<noteq> PacketError then 1 else 0)"
  by (simp add: reply_def case_prod_beta srv_send_balance assms)

lemma metric_balance [simp]:
  "out_balance (metric inc_PacketsIn s) = out_balance s"
  "out_balance (metric inc_PacketsOut s) = out_balance s + 1"
  "out_balance (metric inc_Publishes s) = out_balance s"
  "out_balance (metric (add_Subscriptions n) s) = out_balance s"
  "out_balance (metric inc_AuthFailures s) = out_balance s"
  "out_balance (metric inc_RateLimited s) = out_balance s"
  "out_balance (metric (add_OfflineQueue n) s) = out_balance s"
  "out_balance (metric (set_ActiveSessions n) s) = out_balance s"
  by (simp_all add: out_balance_def)

lemma balance_update [simp]:
  "out_balance (s\<lparr>srv_sessions := x\<rparr>) = out_balance s"
  "out_balance (s\<lparr>srv_subscriptions := y\<rparr>) = out_balance s"
  "out_balance (s\<lparr>srv_limiter := z\<rparr>) = out_balance s"
  by (simp_all add: out_balance_def)

lemma balance_world: "w_wire w = w_wire (srv_world s) \<Longrightarrow> out_balance (s\<lparr>srv_world := w\<rparr>) = out_balance s"
  by (simp add: out_balance_def)

lemma srv_store_balance [simp]: "out_balance (snd (srv_store f s)) = out_balance s"
  by (simp add: out_balance_def)

lemma complete_packet_balance [simp]: "out_balance (snd (complete_packet c p s)) = out_balance s"
  by (simp add: out_balance_def)

lemma addressed_counted:
  assumes "set outs \<subseteq> addressed sess p M" and "pkt_Type p \<noteq> PacketError"
  shows "counted outs = int (length outs)"
proof -
  have "\<forall>x \<in> set outs. pkt_Type (snd x) \<noteq> PacketError"
    using assms by (auto simp: addressed_def)
  then have "filter (\<lambda>(c, p). pkt_Type p \<noteq> PacketError) outs = outs"
    by (intro filter_True) auto
  then show ?thesis by (simp add: counted_def)
qed

lemma srv_route_balance:
  assumes "pkt_Type p \<noteq> PacketError"
  shows "out_balance (snd (srv_route p s)) = out_balance s"
proof -
  obtain order w where wire: "w_wire w = w_wire (srv_world s)" and r: "srv_route p s =
      (case Route_loop Send Enqueue (srv_sessions s) p
              (Registry_Match order (srv_subscriptions s) (pkt_Topic p)) 0 (srv_metrics s) w of
         (r, m, w) \<Rightarrow> (r, s\<lparr>srv_metrics := m, srv_world := w\<rparr>))"
    by (rule srv_route_loop)
  obtain d e m' w' where loop: "Route_loop Send Enqueue (srv_sessions s) p
      (Registry_Match order (srv_subscriptions s) (pkt_Topic p)) 0 (srv_metrics s) w = ((d, e), m', w')"
    by (metis prod.exhaust)
  show ?thesis
    using fanout.Route_loop_wire [OF loop] addressed_counted [OF _ assms] wire
    by (auto simp: r loop out_balance_def)
qed

lemma handlePublish_balance:
  "pkt_Type p \<noteq> PacketError \<Longrightarrow> out_balance (snd (handlePublish c cl clm p s)) = out_balance s"
  by (simp add: handlePublish_def case_prod_beta srv_route_balance
      reply_balance [where ty = PacketPubAck] split: option.splits)

lemma handleSubscribe_balance:
  "out_balance (snd (handleSubscribe c cl clm p s)) = out_balance s"
  by (simp add: handleSubscribe_def case_prod_beta Let_def
      reply_balance [where ty = PacketSubAck] split: option.splits)

lemma deliver_loop_balance:
  "\<forall>p \<in> set ps. pkt_Type p \<noteq> PacketError \<Longrightarrow> out_balance (snd (deliver_loop c ps s)) = out_balance s"
  by (induction ps arbitrary: s) (auto simp: case_prod_beta srv_send_balance split: option.splits)

lemma Pending_types: "fst (Pending c w) = Inr ps \<Longrightarrow> p \<in> set ps \<Longrightarrow> pkt_Type p = PacketPublish"
  by (auto simp: Pending_def case_prod_beta pending_packet_def split: sum.splits)

lemma deliverOffline_balance [keeps_balance]: "out_balance (snd (deliverOffline cl c s)) = out_balance s"
proof (cases "fst (Pending cl (srv_world s))")
  case (Inl e)
  then show ?thesis by (simp add: deliverOffline_def case_prod_beta balance_world)
next
  case (Inr ps)
  then show ?thesis
    using Pending_types [OF Inr] deliver_loop_balance [of ps]
    by (simp add: deliverOffline_def case_prod_beta balance_world)
qed

lemma check_connect_balance [simp]: "out_balance (snd (check_connect r s)) = out_balance s"
  by (simp add: out_balance_def)

lemma open_session_balance: "out_balance (snd (open_session c cl clm s)) = out_balance s"
  by (simp add: open_session_def case_prod_beta Let_def reply_balance [where ty = PacketConnAck]
      split: option.splits)

lemma admit_balance: "out_balance (snd (admit cl s)) = out_balance s"
  by (simp add: admit_def case_prod_beta Let_def)

lemma authenticate_balance [keeps_balance]: "out_balance (snd (authenticate c r s)) = out_balance s"
  by (simp add: authenticate_def case_prod_beta open_session_balance split: sum.splits)

lemma handlePubAck_balance: "out_balance (handlePubAck p s) = out_balance s"
  by (simp add: handlePubAck_def case_prod_beta Let_def balance_world split: option.splits)

lemma dispatch_balance: "out_balance (snd (dispatch c cl clm p s)) = out_balance s"
  by (simp add: dispatch_def case_prod_beta reply_balance [where ty = PacketPong]
      reply_balance [where ty = PacketError] handleSubscribe_balance handlePublish_balance
      handlePubAck_balance split: option.splits)

lemma handlePacket_balance [keeps_balance]: "out_balance (snd (handlePacket c cl clm p s)) = out_balance s"
  by (simp add: handlePacket_def case_prod_beta admit_balance dispatch_balance
      reply_balance [where ty = PacketError])

lemma leave_balance [keeps_balance]: "out_balance (leave c cl s) = out_balance s"
  by (simp add: leave_def case_prod_beta Let_def balance_world)

lemma reject_balance [keeps_balance]: "out_balance (reject c e s) = out_balance s"
  by (simp add: reject_def Let_def balance_world reply_balance [where ty = PacketError])

section \<open>The library and the service do not change\<close>

lemma jwt_send [simp]: "w_jwt (srv_world (snd (deliver_loop c ps s))) = w_jwt (srv_world s)"
  by (induction ps arbitrary: s) (simp_all add: case_prod_beta split: option.splits)

lemma jwt_deliverOffline [simp]:
  "w_jwt (srv_world (snd (deliverOffline cl c s))) = w_jwt (srv_world s)"
  by (simp add: deliverOffline_def case_prod_beta split: sum.splits)

lemma jwt_srv_route [simp]: "w_jwt (srv_world (snd (srv_route p s))) = w_jwt (srv_world s)"
proof -
  obtain order w where jwt: "w_jwt w = w_jwt (srv_world s)" and r: "srv_route p s =
      (case Route_loop Send Enqueue (srv_sessions s) p
              (Registry_Match order (srv_subscriptions s) (pkt_Topic p)) 0 (srv_metrics s) w of
         (r, m, w) \<Rightarrow> (r, s\<lparr>srv_metrics := m, srv_world := w\<rparr>))"
    by (rule srv_route_loop)
  obtain d e m' w' where loop: "Route_loop Send Enqueue (srv_sessions s) p
      (Registry_Match order (srv_subscriptions s) (pkt_Topic p)) 0 (srv_metrics s) w = ((d, e), m', w')"
    by (metis prod.exhaust)
  have "w_jwt w' = w_jwt (srv_world s)"
    by (rule Route_loop_invariant [where P = "\<lambda>_ _ w. w_jwt w = w_jwt (srv_world s)" and M = UNIV,
          OF _ _ _ _ _ _ loop]) (simp_all add: jwt)
  then show ?thesis by (simp add: r loop)
qed

lemma jwt_handlePublish [simp]:
  "w_jwt (srv_world (snd (handlePublish c cl clm p s))) = w_jwt (srv_world s)"
  by (simp add: handlePublish_def case_prod_beta split: option.splits)

lemma service_handlePacket [simp]:
  "srv_auth (snd (handlePacket c cl clm p s)) = srv_auth s"
  "w_jwt (srv_world (snd (handlePacket c cl clm p s))) = w_jwt (srv_world s)"
  by (simp_all add: handlePacket_def dispatch_def case_prod_beta split: option.splits)

end
