(* ===== verification/Runs.thy ===== *)
theory Runs
  imports Broker_Facts
begin

text \<open>
  The broker under many connections. Each connection runs its own handler; a state of the whole
  is the server together with the handlers that are past authentication. A step is one
  handler's reaction to one result of \<open>conn.Receive\<close>, so a run is any interleaving of the
  handlers at packet boundaries. A handler starts on a connection that was not closed: every
  accepted stream gets a new \<open>packetConn\<close>, which is closed when its handler returns.
\<close>

section \<open>Steps\<close>

type_synonym handlers = "conn \<rightharpoonup> string \<times> Claims"

inductive broker_step :: "Server \<times> handlers \<Rightarrow> Server \<times> handlers \<Rightarrow> bool" where
  rejected:
    "A c = None \<Longrightarrow> c \<notin> set (w_closed (srv_world s)) \<Longrightarrow>
       authenticate c received s = (Inl err, s1) \<Longrightarrow>
       broker_step (s, A) (reject c err s1, A)"
| accepted:
    "A c = None \<Longrightarrow> c \<notin> set (w_closed (srv_world s)) \<Longrightarrow>
       authenticate c received s = (Inr (cl, claims, subs), s1) \<Longrightarrow>
       broker_step (s, A) (snd (deliverOffline cl c s1), A(c \<mapsto> (cl, claims)))"
| served:
    "A c = Some (cl, claims) \<Longrightarrow> handlePacket c cl claims packet s = (True, s1) \<Longrightarrow>
       broker_step (s, A) (s1, A)"
| stopped:
    "A c = Some (cl, claims) \<Longrightarrow> handlePacket c cl claims packet s = (False, s1) \<Longrightarrow>
       broker_step (s, A) (leave c cl s1, A(c := None))"
| lost:
    "A c = Some (cl, claims) \<Longrightarrow> broker_step (s, A) (leave c cl s, A(c := None))"

text \<open>The states a broker that starts over the given surroundings can reach.\<close>

inductive reachable :: "AuthConfig \<Rightarrow> int \<Rightarrow> world \<Rightarrow> Server \<times> handlers \<Rightarrow> bool"
  for auth :: AuthConfig and rate :: int and w0 :: world where
  start: "reachable auth rate w0 (Server_New auth rate w0, Map.empty)"
| step: "reachable auth rate w0 b \<Longrightarrow> broker_step b b' \<Longrightarrow> reachable auth rate w0 b'"

section \<open>Invariant\<close>

text \<open>
  What the code keeps true between its parts: the registry and the sessions hold the same
  subscriptions, with one entry per filter; the gauge of active sessions is the number of online
  sessions.
\<close>

definition core_inv :: "Sessions \<Rightarrow> Registry \<Rightarrow> int \<Rightarrow> bool" where
  "core_inv sess reg active \<longleftrightarrow> sessions_wf sess
     \<and> (\<forall>c. Registry_List reg c = session_subs sess c \<and> distinct_topics (session_subs sess c))
     \<and> active = OnlineCount sess"

definition srv_core :: "Server \<Rightarrow> bool" where
  "srv_core s = core_inv (srv_sessions s) (srv_subscriptions s) (m_ActiveSessions (srv_metrics s))"

text \<open>A handler past authentication belongs to a known client whose token fits it.\<close>

definition handler_ok :: "Sessions \<Rightarrow> string \<times> Claims \<Rightarrow> bool" where
  "handler_ok sess h \<longleftrightarrow> session_known sess (fst h) \<and> fst h \<noteq> []
     \<and> (clm_Role (snd h) = ''device'' \<longrightarrow> clm_DeviceID (snd h) = fst h)"

definition handlers_ok :: "Server \<Rightarrow> handlers \<Rightarrow> bool" where
  "handlers_ok s A = (\<forall>c h. A c = Some h \<longrightarrow> handler_ok (srv_sessions s) h)"

definition broker_inv :: "Server \<times> handlers \<Rightarrow> bool" where
  "broker_inv b \<longleftrightarrow> srv_core (fst b) \<and> limiter_wf (srv_limiter (fst b))
     \<and> store_wf (w_store (srv_world (fst b))) \<and> handlers_ok (fst b) (snd b)"

section \<open>The core invariant\<close>

lemma core_inv_New: "core_inv NewStore NewRegistry 0"
  by (simp add: core_inv_def sessions_wf_def Registry_List_def NewRegistry_def NewStore_def
      session_subs_def distinct_topics_def OnlineCount_def)

lemma core_inv_UpsertConnected:
  assumes "core_inv sess reg n" and "ses_Conn new \<noteq> None" and "ses_Subscriptions new = []"
  shows "core_inv (snd (UpsertConnected new t1 t2 sess)) reg
    (OnlineCount (snd (UpsertConnected new t1 t2 sess)))"
proof -
  have "session_subs (snd (UpsertConnected new t1 t2 sess)) d = session_subs sess d" for d
    using assms(3) by (auto simp: session_subs_UpsertConnected session_subs_unknown)
  with assms show ?thesis by (simp add: core_inv_def sessions_wf_UpsertConnected)
qed

lemma core_inv_Touch: "core_inv sess reg n \<Longrightarrow> core_inv (Touch c t sess) reg n"
  by (simp add: core_inv_def sessions_wf_Touch)

lemma core_inv_Disconnect:
  "core_inv sess reg n \<Longrightarrow> core_inv (Disconnect c t sess) reg (OnlineCount (Disconnect c t sess))"
  by (simp add: core_inv_def sessions_wf_Disconnect)

lemma core_inv_Subscribe:
  assumes inv: "core_inv sess reg n" and known: "session_known sess c"
  shows "core_inv (AddSubscriptions sess c subs) (Registry_Add reg c subs) n"
proof -
  have "Registry_List (Registry_Add reg c subs) d = session_subs (AddSubscriptions sess c subs) d" for d
    using inv known
    by (cases "d = c")
      (simp_all add: registry.subs_add sessions.subs_add registry.subs_add_other
        sessions.subs_add_other core_inv_def)
  moreover have "distinct_topics (session_subs (AddSubscriptions sess c subs) d)" for d
    using inv known by (intro sessions.distinct_add) (simp_all add: core_inv_def)
  ultimately show ?thesis
    using inv by (simp add: core_inv_def sessions_wf_AddSubscriptions)
qed

section \<open>Handlers keep the invariant\<close>

lemma open_session_core:
  assumes "srv_core s"
  shows "srv_core (snd (open_session c cl clm s))"
proof (rule open_session_sessions [of c cl clm s])
  fix new t1 t2
  assume "srv_sessions (snd (open_session c cl clm s)) =
      snd (UpsertConnected new t1 t2 (srv_sessions s))"
    and "ses_Conn new = Some c" and "ses_Subscriptions new = []"
    and "m_ActiveSessions (srv_metrics (snd (open_session c cl clm s))) =
      OnlineCount (snd (UpsertConnected new t1 t2 (srv_sessions s)))"
  with assms show ?thesis
    unfolding srv_core_def by (auto intro: core_inv_UpsertConnected)
qed

lemma srv_core_frame [simp]:
  "srv_core (snd (check_connect r s)) = srv_core s"
  "srv_core (snd (reply c b s)) = srv_core s"
  "srv_core (snd (handlePublish c cl clm p s)) = srv_core s"
  "srv_core (handlePubAck p s) = srv_core s"
  "srv_core (snd (deliverOffline cl c s)) = srv_core s"
  "srv_core (reject c e s) = srv_core s"
  "srv_core (metric inc_PacketsOut s) = srv_core s"
  "srv_core (metric inc_RateLimited s) = srv_core s"
  by (simp_all add: srv_core_def)

lemma authenticate_core: "srv_core s \<Longrightarrow> srv_core (snd (authenticate c r s))"
  by (auto simp: authenticate_def case_prod_beta open_session_core split: sum.splits)

lemma admit_core: "srv_core s \<Longrightarrow> srv_core (snd (admit cl s))"
  by (simp add: srv_core_def admit_def case_prod_beta Let_def core_inv_Touch)

lemma leave_core: "srv_core s \<Longrightarrow> srv_core (leave c cl s)"
  by (simp add: srv_core_def leave_def case_prod_beta Let_def core_inv_Disconnect)

lemma handleSubscribe_core:
  assumes "srv_core s" and "session_known (srv_sessions s) cl"
  shows "srv_core (snd (handleSubscribe c cl clm p s))"
  using core_inv_Subscribe [OF assms(1) [unfolded srv_core_def] assms(2)] assms(1)
  by (simp add: srv_core_def handleSubscribe_def case_prod_beta Let_def split: option.splits)

lemma dispatch_core:
  assumes "srv_core s" and "session_known (srv_sessions s) cl"
  shows "srv_core (snd (dispatch c cl clm p s))"
  using assms by (simp add: dispatch_def case_prod_beta handleSubscribe_core split: option.splits)

lemma admit_known [simp]: "session_known (srv_sessions (snd (admit cl s))) d = session_known (srv_sessions s) d"
  by (simp add: admit_def case_prod_beta Let_def)

lemma handlePacket_core:
  assumes "srv_core s" and "session_known (srv_sessions s) cl"
  shows "srv_core (snd (handlePacket c cl clm p s))"
  using assms by (simp add: handlePacket_def case_prod_beta admit_core dispatch_core)

section \<open>Sessions are never forgotten\<close>

lemma open_session_known:
  "session_known (srv_sessions (snd (open_session c cl clm s))) d \<longleftrightarrow>
     d = cl \<or> session_known (srv_sessions s) d"
  by (rule open_session_sessions [of c cl clm s]) (simp add: session_known_UpsertConnected)

lemma open_session_subs:
  "session_subs (srv_sessions (snd (open_session c cl clm s))) d = session_subs (srv_sessions s) d"
  by (rule open_session_sessions [of c cl clm s])
    (auto simp: session_subs_UpsertConnected session_subs_unknown)

lemma authenticate_known:
  "session_known (srv_sessions s) d \<Longrightarrow> session_known (srv_sessions (snd (authenticate c r s))) d"
  by (auto simp: authenticate_def case_prod_beta open_session_known split: sum.splits)

lemma leave_known [simp]: "session_known (srv_sessions (leave c cl s)) d = session_known (srv_sessions s) d"
  by (simp add: leave_def case_prod_beta Let_def)

lemma handleSubscribe_known [simp]:
  "session_known (srv_sessions (snd (handleSubscribe c cl clm p s))) d = session_known (srv_sessions s) d"
  by (simp add: handleSubscribe_def case_prod_beta Let_def split: option.splits)

lemma dispatch_known [simp]:
  "session_known (srv_sessions (snd (dispatch c cl clm p s))) d = session_known (srv_sessions s) d"
  by (simp add: dispatch_def case_prod_beta split: option.splits)

lemma handlePacket_known [simp]:
  "session_known (srv_sessions (snd (handlePacket c cl clm p s))) d = session_known (srv_sessions s) d"
  by (simp add: handlePacket_def case_prod_beta)

section \<open>The limiter and the tables\<close>

lemma admit_limiter: "limiter_wf (srv_limiter s) \<Longrightarrow> limiter_wf (srv_limiter (snd (admit cl s)))"
  by (simp add: admit_def case_prod_beta Let_def limiter_wf_Allow)

lemma dispatch_limiter [simp]: "srv_limiter (snd (dispatch c cl clm p s)) = srv_limiter s"
  by (simp add: dispatch_def case_prod_beta split: option.splits)

lemma handlePacket_limiter:
  "limiter_wf (srv_limiter s) \<Longrightarrow> limiter_wf (srv_limiter (snd (handlePacket c cl clm p s)))"
  by (simp add: handlePacket_def case_prod_beta admit_limiter)

lemma Enqueue_store_wf: "store_wf (w_store w) \<Longrightarrow> store_wf (w_store (snd (Enqueue c p w)))"
  by (simp add: Enqueue_def case_prod_beta keeps_keys)

lemma srv_route_store_wf:
  assumes "store_wf (w_store (srv_world s))"
  shows "store_wf (w_store (srv_world (snd (srv_route p s))))"
proof -
  obtain order w where w: "w_store w = w_store (srv_world s)" and r: "srv_route p s =
      (case Route_loop Send Enqueue (srv_sessions s) p
              (Registry_Match order (srv_subscriptions s) (pkt_Topic p)) 0 (srv_metrics s) w of
         (r, m, w) \<Rightarrow> (r, s\<lparr>srv_metrics := m, srv_world := w\<rparr>))"
    by (rule srv_route_loop)
  obtain d e m' w' where loop: "Route_loop Send Enqueue (srv_sessions s) p
      (Registry_Match order (srv_subscriptions s) (pkt_Topic p)) 0 (srv_metrics s) w = ((d, e), m', w')"
    by (metis prod.exhaust)
  have "store_wf (w_store w')"
    by (rule Route_loop_invariant [where P = "\<lambda>_ _ w. store_wf (w_store w)" and M = UNIV,
          OF _ _ _ _ _ _ loop]) (simp_all add: Enqueue_store_wf w assms)
  then show ?thesis by (simp add: r loop)
qed

lemma handlePublish_store_wf:
  "store_wf (w_store (srv_world s)) \<Longrightarrow>
     store_wf (w_store (srv_world (snd (handlePublish c cl clm p s))))"
  by (simp add: handlePublish_def case_prod_beta srv_route_store_wf keeps_keys
      split: option.splits)

lemma handlePubAck_store_wf:
  "store_wf (w_store (srv_world s)) \<Longrightarrow> store_wf (w_store (srv_world (handlePubAck p s)))"
  by (simp add: handlePubAck_def case_prod_beta Let_def Ack_def keeps_keys split: option.splits)

lemma dispatch_store_wf:
  "store_wf (w_store (srv_world s)) \<Longrightarrow> store_wf (w_store (srv_world (snd (dispatch c cl clm p s))))"
  by (simp add: dispatch_def case_prod_beta handlePublish_store_wf handlePubAck_store_wf
      split: option.splits)

lemma handlePacket_store_wf:
  "store_wf (w_store (srv_world s)) \<Longrightarrow>
     store_wf (w_store (srv_world (snd (handlePacket c cl clm p s))))"
  by (simp add: handlePacket_def case_prod_beta dispatch_store_wf)

lemma Pending_store [simp]: "store_wf (w_store (snd (Pending cl w))) = store_wf (w_store w)"
  by (simp add: Pending_def case_prod_beta split: sum.splits)

lemma deliverOffline_store [simp]:
  "store_wf (w_store (srv_world (snd (deliverOffline cl c s)))) = store_wf (w_store (srv_world s))"
  by (simp add: deliverOffline_def case_prod_beta split: sum.splits)

section \<open>Every reachable state\<close>

lemma check_connect_InrD:
  assumes "check_connect r s = (Inr (cl, claims), s1)"
  shows "cl \<noteq> [] \<and> (clm_Role claims = ''device'' \<longrightarrow> clm_DeviceID claims = cl)
    \<and> (\<exists>p now. r = Inr p \<and> pkt_Type p = PacketConnect
         \<and> Parse (w_jwt (srv_world s)) now (srv_auth s) (pkt_Token p) = Inr claims
         \<and> cl = (if pkt_ClientID p = [] then clm_ClientID claims else pkt_ClientID p))"
  using assms
  by (auto simp: check_connect_def case_prod_beta Let_def split: sum.splits if_splits)

lemma authenticate_InrD:
  assumes "authenticate c r s = (Inr (cl, claims, subs), s1)"
  shows "\<exists>s0. check_connect r s = (Inr (cl, claims), s0)
    \<and> open_session c cl claims s0 = (Inr (cl, claims, subs), s1)"
proof -
  from assms obtain cl' claims' s0 where k: "check_connect r s = (Inr (cl', claims'), s0)"
    and o: "open_session c cl' claims' s0 = (Inr (cl, claims, subs), s1)"
    by (auto simp: authenticate_def split: prod.splits sum.splits)
  have "cl' = cl \<and> claims' = claims"
    using o by (auto simp: open_session_def case_prod_beta Let_def split: option.splits)
  with k o show ?thesis by blast
qed

lemma authenticate_handler_ok:
  assumes "authenticate c r s = (Inr (cl, claims, subs), s1)"
  shows "handler_ok (srv_sessions s1) (cl, claims)"
proof -
  from authenticate_InrD [OF assms] obtain s0 where k: "check_connect r s = (Inr (cl, claims), s0)"
    and o: "open_session c cl claims s0 = (Inr (cl, claims, subs), s1)" by blast
  have "session_known (srv_sessions s1) cl"
    using open_session_known [of c cl claims s0 cl] o by simp
  with check_connect_InrD [OF k] show ?thesis by (simp add: handler_ok_def)
qed

lemma broker_inv_step:
  assumes "broker_step b b'" and "broker_inv b"
  shows "broker_inv b'"
  using assms
proof (induction rule: broker_step.induct)
  case (rejected A c s received err s1)
  then show ?case
    using authenticate_core [of s c received] authenticate_frame [of c received s]
      authenticate_known [of s _ c received]
    by (fastforce simp: broker_inv_def handlers_ok_def handler_ok_def)
next
  case (accepted A c s received cl claims subs s1)
  then show ?case
    using authenticate_core [of s c received] authenticate_frame [of c received s]
      authenticate_known [of s _ c received] authenticate_handler_ok [OF accepted(3)]
    by (fastforce simp: broker_inv_def handlers_ok_def handler_ok_def)
next
  case (served A c cl claims packet s s1)
  then have "session_known (srv_sessions s) cl"
    by (auto simp: broker_inv_def handlers_ok_def handler_ok_def)
  with served show ?case
    using handlePacket_core [of s cl c claims packet] handlePacket_limiter [of s c cl claims packet]
      handlePacket_store_wf [of s c cl claims packet] handlePacket_known [of c cl claims packet s]
    by (auto simp: broker_inv_def handlers_ok_def handler_ok_def)
next
  case (stopped A c cl claims packet s s1)
  then have "session_known (srv_sessions s) cl"
    by (auto simp: broker_inv_def handlers_ok_def handler_ok_def)
  with stopped show ?case
    using handlePacket_core [of s cl c claims packet] handlePacket_limiter [of s c cl claims packet]
      handlePacket_store_wf [of s c cl claims packet] handlePacket_known [of c cl claims packet s]
    by (auto simp: broker_inv_def handlers_ok_def handler_ok_def leave_core)
next
  case (lost A c cl claims s)
  then show ?case
    by (auto simp: broker_inv_def handlers_ok_def handler_ok_def leave_core)
qed

lemma broker_inv_start: "store_wf (w_store w0) \<Longrightarrow> broker_inv (Server_New auth rate w0, Map.empty)"
  by (simp add: broker_inv_def srv_core_def Server_New_def core_inv_New limiter_wf_new
      handlers_ok_def Metrics_New_def)

interpretation broker: step_invariant broker_step broker_inv
  by unfold_locales (rule broker_inv_step)

lemma reachable_iff:
  "reachable auth rate w0 b \<longleftrightarrow> broker_step\<^sup>*\<^sup>* (Server_New auth rate w0, Map.empty) b"
proof
  show "reachable auth rate w0 b \<Longrightarrow> broker_step\<^sup>*\<^sup>* (Server_New auth rate w0, Map.empty) b"
    by (induction rule: reachable.induct) (auto intro: rtranclp.rtrancl_into_rtrancl)
  show "broker_step\<^sup>*\<^sup>* (Server_New auth rate w0, Map.empty) b \<Longrightarrow> reachable auth rate w0 b"
    by (induction rule: rtranclp_induct) (auto intro: reachable.intros)
qed

lemma reachable_inv: "reachable auth rate w0 b \<Longrightarrow> store_wf (w_store w0) \<Longrightarrow> broker_inv b"
  unfolding reachable_iff by (rule broker.run_keeps [OF _ broker_inv_start])

lemma balance_step:
  assumes "broker_step b b'"
  shows "out_balance (fst b') = out_balance (fst b)"
  using assms
proof (induction rule: broker_step.induct)
  case (rejected A c s received err s1)
  then show ?case using authenticate_balance [of c received s] by (simp add: keeps_balance)
next
  case (accepted A c s received cl claims subs s1)
  then show ?case using authenticate_balance [of c received s] by (simp add: keeps_balance)
next
  case (served A c cl claims packet s s1)
  then show ?case using handlePacket_balance [of c cl claims packet s] by simp
next
  case (stopped A c cl claims packet s s1)
  then show ?case using handlePacket_balance [of c cl claims packet s] by (simp add: keeps_balance)
next
  case (lost A c cl claims s)
  then show ?case by (simp add: keeps_balance)
qed

interpretation sent: step_invariant broker_step "\<lambda>b. out_balance (fst b) = n" for n
  by unfold_locales (simp add: balance_step)

lemma balance_start: "out_balance (Server_New auth rate w0) = - counted (w_wire w0)"
  by (simp add: out_balance_def Server_New_def Metrics_New_def)

lemma reachable_balance:
  "reachable auth rate w0 b \<Longrightarrow> out_balance (fst b) = - counted (w_wire w0)"
  unfolding reachable_iff by (erule sent.run_keeps) (simp add: balance_start)

section \<open>Where handlers come from\<close>

inductive_cases broker_stepE: "broker_step (s, A) (s', A')"

text \<open>A step starts a handler only by authenticating its connection.\<close>

lemma step_new_handler:
  assumes "broker_step (s, A) (s', A')" and "A' c = Some (cl, claims)"
  shows "A c = Some (cl, claims) \<or> (\<exists>received subs s1. authenticate c received s = (Inr (cl, claims, subs), s1))"
  using assms(1)
  by (rule broker_stepE) (use assms(2) in \<open>auto split: if_splits\<close>)

definition service_of :: "AuthConfig \<Rightarrow> world \<Rightarrow> Server \<Rightarrow> bool" where
  "service_of auth w0 s \<longleftrightarrow> srv_auth s = Service_New auth \<and> w_jwt (srv_world s) = w_jwt w0"

lemma service_step:
  assumes "broker_step b b'" and "service_of auth w0 (fst b)"
  shows "service_of auth w0 (fst b')"
  using assms
proof (induction rule: broker_step.induct)
  case (rejected A c s received err s1)
  then show ?case using authenticate_frame [of c received s] by (simp add: service_of_def)
next
  case (accepted A c s received cl claims subs s1)
  then show ?case using authenticate_frame [of c received s] by (simp add: service_of_def)
next
  case (served A c cl claims packet s s1)
  then show ?case using service_handlePacket [of c cl claims packet s] by (simp add: service_of_def)
next
  case (stopped A c cl claims packet s s1)
  then show ?case using service_handlePacket [of c cl claims packet s] by (simp add: service_of_def)
next
  case (lost A c cl claims s)
  then show ?case by (simp add: service_of_def)
qed

interpretation service: step_invariant broker_step "\<lambda>b. service_of auth w0 (fst b)" for auth w0
  by unfold_locales (rule service_step)

lemma reachable_service: "reachable auth rate w0 b \<Longrightarrow> service_of auth w0 (fst b)"
  unfolding reachable_iff
  by (erule service.run_keeps) (simp add: service_of_def Server_New_def)

lemma reachable_authenticated:
  assumes "reachable auth rate w0 b" and "snd b c = Some (cl, claims)"
  shows "\<exists>s0 received subs s1. service_of auth w0 s0
    \<and> authenticate c received s0 = (Inr (cl, claims, subs), s1)"
  using assms
proof (induction arbitrary: c cl claims rule: reachable.induct)
  case start
  then show ?case by simp
next
  case (step b b')
  obtain s A s' A' where b: "b = (s, A)" "b' = (s', A')" by (cases b, cases b')
  show ?case
    using step_new_handler [of s A s' A' c cl claims] step b reachable_service [OF step(1)] by fastforce
qed

end
