(* ===== verification/Isolation.thy ===== *)
theory Isolation
  imports Runs
begin

text \<open>
  What a device can be sent. The runs considered are those in which no administrator connects
  under the device's client identifier (an administrator may choose any client identifier and
  subscribe anywhere).
\<close>

section \<open>Runs without an administrator in a device's name\<close>

definition no_admin :: "string \<Rightarrow> handlers \<Rightarrow> bool" where
  "no_admin d A = (\<forall>c cl claims. A c = Some (cl, claims) \<longrightarrow> cl = d \<longrightarrow> clm_Role claims \<noteq> ''admin'')"

inductive reachable_without ::
  "string \<Rightarrow> AuthConfig \<Rightarrow> int \<Rightarrow> world \<Rightarrow> Server \<times> handlers \<Rightarrow> bool"
  for d :: string and auth :: AuthConfig and rate :: int and w0 :: world where
  started: "reachable_without d auth rate w0 (Server_New auth rate w0, Map.empty)"
| continued: "reachable_without d auth rate w0 b \<Longrightarrow> broker_step b b' \<Longrightarrow> no_admin d (snd b') \<Longrightarrow>
    reachable_without d auth rate w0 b'"

text \<open>The device holds and is owed nothing but its command topic.\<close>

definition subs_confined :: "string \<Rightarrow> Registry \<Rightarrow> bool" where
  "subs_confined d reg = (\<forall>sub \<in> set (Registry_List reg d). sub_Topic sub = command_topic d)"

definition rows_confined :: "string \<Rightarrow> OfflineMessage list \<Rightarrow> bool" where
  "rows_confined d rows =
     (\<forall>row \<in> set rows. off_ClientID row = d \<longrightarrow> off_Topic row = command_topic d)"

text \<open>What is stored as published by the device is on its own topics and no command.\<close>

definition messages_owned :: "string \<Rightarrow> Message list \<Rightarrow> bool" where
  "messages_owned d rows =
     (\<forall>m \<in> set rows. msg_ClientID m = d \<longrightarrow>
        HasPrefix (msg_Topic m) (''device/'' @ d @ ''/'') \<and> \<not> HasSuffix (msg_Topic m) ''/command'')"

definition confined :: "string \<Rightarrow> Server \<Rightarrow> bool" where
  "confined d s \<longleftrightarrow> subs_confined d (srv_subscriptions s) \<and> rows_confined d (db_offline (w_store (srv_world s)))"

section \<open>Lemmas\<close>

lemma reachable_without_reachable:
  "reachable_without d auth rate w0 b \<Longrightarrow> reachable auth rate w0 b"
  by (induction rule: reachable_without.induct) (auto intro: reachable.intros)

lemma no_admin_start: "no_admin d Map.empty"
  by (simp add: no_admin_def)

lemma reachable_without_no_admin: "reachable_without d auth rate w0 b \<Longrightarrow> no_admin d (snd b)"
  by (induction rule: reachable_without.induct) (simp_all add: no_admin_start)

lemma check_subscriptions_None:
  "check_subscriptions claims subs = None \<longleftrightarrow>
     (\<forall>sub \<in> set subs. CanSubscribe claims (sub_Topic sub) = None)"
  by (induction subs) (auto split: option.splits)

lemma matched_topic:
  assumes "subs_confined d reg" and "plain_id d"
    and "mt \<in> set (Registry_Match order reg topic)" and "mt_ClientID mt = d"
  shows "topic = command_topic d"
proof -
  from assms(3,4) obtain sub where "sub \<in> set (Registry_List reg d)" and m: "MatchTopic (sub_Topic sub) topic"
    by (auto simp: set_Registry_Match)
  with assms(1) have "sub_Topic sub = command_topic d" by (simp add: subs_confined_def)
  with m MatchTopic_plain [OF command_topic_plain [OF assms(2)]] show ?thesis by simp
qed

lemma rows_EnqueueOfflineMessage:
  "set (db_offline (snd (EnqueueOfflineMessage m st))) \<subseteq>
     set (db_offline st) \<union>
     {row. off_ClientID row = off_ClientID m \<and> off_Topic row = off_Topic m}"
  by (auto simp: EnqueueOfflineMessage_def Let_def db_exec_def insert_offline_def
      dest: offline_row_InrD split: option.splits sum.splits if_splits)

lemma rows_Enqueue:
  "set (db_offline (w_store (snd (Enqueue c p w)))) \<subseteq>
     set (db_offline (w_store w)) \<union> {row. off_ClientID row = c \<and> off_Topic row = pkt_Topic p}"
  using rows_EnqueueOfflineMessage by (fastforce simp: Enqueue_def case_prod_beta)

lemma srv_route_rows:
  assumes "sessions_wf (srv_sessions s)" and "subs_confined d (srv_subscriptions s)"
    and "plain_id d" and "rows_confined d (db_offline (w_store (srv_world s)))"
  shows "rows_confined d (db_offline (w_store (srv_world (snd (srv_route p s)))))"
proof -
  obtain order w where w: "w_store w = w_store (srv_world s)" and r: "srv_route p s =
      (case Route_loop Send Enqueue (srv_sessions s) p
              (Registry_Match order (srv_subscriptions s) (pkt_Topic p)) 0 (srv_metrics s) w of
         (r, m, w) \<Rightarrow> (r, s\<lparr>srv_metrics := m, srv_world := w\<rparr>))"
    by (rule srv_route_loop)
  let ?ms = "Registry_Match order (srv_subscriptions s) (pkt_Topic p)"
  obtain n e m' w' where loop: "Route_loop Send Enqueue (srv_sessions s) p ?ms 0 (srv_metrics s) w
      = ((n, e), m', w')"
    by (metis prod.exhaust)
  have enq: "rows_confined d (db_offline (w_store (snd (Enqueue (ses_ClientID t) (outbound p mt) v))))"
    if "mt \<in> set ?ms" "map_of (srv_sessions s) (mt_ClientID mt) = Some t"
      "rows_confined d (db_offline (w_store v))" for mt t v
  proof -
    have "ses_ClientID t = mt_ClientID mt"
      using sessions_wf_lookup [OF assms(1) that(2)] by simp
    with that(1,3) matched_topic [OF assms(2,3) that(1)] show ?thesis
      using rows_Enqueue [of "ses_ClientID t" "outbound p mt" v]
      by (fastforce simp: rows_confined_def)
  qed
  have "rows_confined d (db_offline (w_store w'))"
    by (rule Route_loop_invariant [where P = "\<lambda>_ _ w. rows_confined d (db_offline (w_store w))"
          and M = "set ?ms", OF _ _ _ _ _ _ loop])
      (simp_all add: enq w assms(4))
  then show ?thesis by (simp add: r loop)
qed

lemma handlePublish_confined:
  assumes "sessions_wf (srv_sessions s)" and "confined d s" and "plain_id d"
  shows "confined d (snd (handlePublish c cl clm p s))"
proof -
  let ?cp = "complete_packet cl p s"
  let ?s1 = "metric inc_Publishes (snd (srv_store (SaveMessage (inbound_message cl (fst ?cp))) (snd ?cp)))"
  have "rows_confined d (db_offline (w_store (srv_world ?s1)))"
    using assms(2) by (simp add: confined_def)
  then have "rows_confined d (db_offline (w_store (srv_world (snd (srv_route (fst ?cp) ?s1)))))"
    using assms by (intro srv_route_rows) (simp_all add: confined_def)
  with assms(2) show ?thesis
    by (simp add: confined_def handlePublish_def case_prod_beta split: option.splits)
qed

lemma handlePubAck_confined: "confined d s \<Longrightarrow> confined d (handlePubAck p s)"
  by (auto simp: confined_def handlePubAck_def case_prod_beta Let_def Ack_def rows_confined_def
      DeleteOfflineMessage_offline split: option.splits if_splits)

lemma handleSubscribe_confined:
  assumes "confined d s" and "handler_ok (srv_sessions s) (cl, clm)"
    and "cl = d \<longrightarrow> clm_Role clm \<noteq> ''admin''"
  shows "confined d (snd (handleSubscribe c cl clm p s))"
proof (cases "cl = d \<and> check_subscriptions clm (pkt_Subscriptions p) = None")
  case True
  with assms(2,3) have "\<forall>sub \<in> set (pkt_Subscriptions p). sub_Topic sub = command_topic d"
    by (auto simp: check_subscriptions_None CanSubscribe_None_iff handler_ok_def)
  moreover have "set (Registry_List (Registry_Add (srv_subscriptions s) d (pkt_Subscriptions p)) d)
      \<subseteq> set (Registry_List (srv_subscriptions s) d) \<union> set (pkt_Subscriptions p)"
    by (rule registry.set_add) simp
  ultimately have "subs_confined d (Registry_Add (srv_subscriptions s) d (pkt_Subscriptions p))"
    using assms(1) by (auto simp: confined_def subs_confined_def)
  with True assms(1) show ?thesis
    by (simp add: confined_def handleSubscribe_def case_prod_beta Let_def split: option.splits)
next
  case False
  with assms(1) show ?thesis
    by (auto simp: confined_def subs_confined_def handleSubscribe_def case_prod_beta Let_def
        registry.subs_add_other split: option.splits)
qed

lemma confined_frame [simp]:
  "confined d (metric f s) = confined d s"
  "confined d (snd (reply c b s)) = confined d s"
  "confined d (snd (admit cl s)) = confined d s"
  "confined d (snd (authenticate c r s)) = confined d s"
  "confined d (reject c e s) = confined d s"
  "confined d (leave c cl s) = confined d s"
  by (simp_all add: confined_def)

lemma dispatch_confined:
  assumes "sessions_wf (srv_sessions s)" and "confined d s" and "plain_id d"
    and "handler_ok (srv_sessions s) (cl, clm)" and "cl = d \<longrightarrow> clm_Role clm \<noteq> ''admin''"
  shows "confined d (snd (dispatch c cl clm p s))"
  using handlePublish_confined [OF assms(1-3), of c cl clm p]
    handleSubscribe_confined [OF assms(2,4,5), of c p] handlePubAck_confined [OF assms(2), of p] assms(2)
  by (simp add: dispatch_def case_prod_beta split: option.splits)

lemma handlePacket_confined:
  assumes "srv_core s" and "confined d s" and "plain_id d"
    and "handler_ok (srv_sessions s) (cl, clm)" and "cl = d \<longrightarrow> clm_Role clm \<noteq> ''admin''"
  shows "confined d (snd (handlePacket c cl clm p s))"
proof -
  let ?s = "snd (admit cl s)"
  have "sessions_wf (srv_sessions ?s)"
    using admit_core [OF assms(1)] by (simp add: srv_core_def core_inv_def)
  moreover have conf: "confined d ?s" using assms(2) by simp
  moreover have "handler_ok (srv_sessions ?s) (cl, clm)"
    using assms(4) by (simp add: handler_ok_def)
  ultimately have "confined d (snd (dispatch c cl clm p ?s))"
    using assms(3,5) by (intro dispatch_confined)
  with conf show ?thesis
    by (simp add: handlePacket_def case_prod_beta)
qed

lemma deliver_confined [simp]: "confined d (snd (deliverOffline cl c s)) = confined d s"
  by (simp add: confined_def deliverOffline_def case_prod_beta split: sum.splits)

lemma confined_step:
  assumes "broker_step b b'" and "broker_inv b" and "confined d (fst b)" and "plain_id d"
    and "no_admin d (snd b)"
  shows "confined d (fst b')"
  using assms
proof (induction rule: broker_step.induct)
  case (rejected A c s received err s1)
  then show ?case using confined_frame(4) [of d c received s] by simp
next
  case (accepted A c s received cl claims subs s1)
  then show ?case using confined_frame(4) [of d c received s] by simp
next
  case (served A c cl claims packet s s1)
  then show ?case
    using handlePacket_confined [of s d cl claims c packet]
    by (auto simp: broker_inv_def handlers_ok_def no_admin_def)
next
  case (stopped A c cl claims packet s s1)
  then show ?case
    using handlePacket_confined [of s d cl claims c packet]
    by (auto simp: broker_inv_def handlers_ok_def no_admin_def)
next
  case (lost A c cl claims s)
  then show ?case by simp
qed

lemma confined_start:
  "rows_confined d (db_offline (w_store w0)) \<Longrightarrow> confined d (Server_New auth rate w0)"
  by (simp add: confined_def subs_confined_def Server_New_def NewRegistry_def Registry_List_def)

lemma reachable_confined:
  assumes "reachable_without d auth rate w0 b" and "plain_id d"
    and "store_wf (w_store w0)" and "rows_confined d (db_offline (w_store w0))"
  shows "confined d (fst b)"
  using assms
proof (induction rule: reachable_without.induct)
  case started
  then show ?case by (simp add: confined_start)
next
  case (continued b b')
  then show ?case
    using confined_step [of b b' d] reachable_inv [OF reachable_without_reachable]
      reachable_without_no_admin by blast
qed

lemma Pending_topics:
  assumes "rows_confined d (db_offline (w_store w))" and "fst (Pending d w) = Inr ps" and "p \<in> set ps"
  shows "pkt_Topic p = command_topic d"
  using assms
  by (auto simp: Pending_def case_prod_beta GetOfflineMessages_def db_exec_def Let_def
      pending_packet_def scanOffline_def rows_confined_def split: sum.splits option.splits)

section \<open>The log of messages\<close>

lemma messages_SaveMessage:
  "set (db_messages (snd (SaveMessage m st))) \<subseteq> set (db_messages st) \<union>
     {row. msg_ClientID row = msg_ClientID m \<and> msg_Topic row = msg_Topic m}"
  by (auto simp: SaveMessage_def Let_def db_exec_def insert_message_def dest: message_row_InrD
      split: option.splits sum.splits if_splits)

lemma messages_offline_ops [simp]:
  "db_messages (snd (EnqueueOfflineMessage o1 st)) = db_messages st"
  "db_messages (snd (DeleteOfflineMessage i st)) = db_messages st"
  "db_messages (snd (GetOfflineMessages c st)) = db_messages st"
  by (auto simp: EnqueueOfflineMessage_def DeleteOfflineMessage_def GetOfflineMessages_def Let_def
      db_exec_def split: option.splits sum.splits)

lemma messages_queue [simp]:
  "db_messages (w_store (snd (Enqueue c p w))) = db_messages (w_store w)"
  "db_messages (w_store (snd (Pending c w))) = db_messages (w_store w)"
  "db_messages (w_store (snd (Ack i w))) = db_messages (w_store w)"
  by (simp_all add: Enqueue_def Pending_def Ack_def case_prod_beta split: sum.splits)

lemma messages_route [simp]:
  "db_messages (w_store (srv_world (snd (srv_route p s)))) = db_messages (w_store (srv_world s))"
proof -
  let ?k = "range_keys (map fst (srv_subscriptions s)) (srv_world s)"
  obtain d e m' w' where loop: "Route_loop Send Enqueue (srv_sessions s) p
      (Registry_Match (fst ?k) (srv_subscriptions s) (pkt_Topic p)) 0 (srv_metrics s) (snd ?k)
      = ((d, e), m', w')"
    by (metis prod.exhaust)
  have "db_messages (w_store w') = db_messages (w_store (srv_world s))"
    by (rule Route_loop_invariant [where M = UNIV, OF _ _ _ _ _ _ loop,
          where P = "\<lambda>_ _ w. db_messages (w_store w) = db_messages (w_store (srv_world s))"]) simp_all
  then show ?thesis by (simp add: srv_route_def Route_def case_prod_beta loop)
qed

lemma messages_acknowledged:
  "messages_owned d (db_messages st) \<Longrightarrow>
     messages_owned d (db_messages (snd (MarkMessageAcknowledged i st)))"
  by (auto simp: MarkMessageAcknowledged_def db_exec_def messages_owned_def split: option.splits)

lemma messages_handlePubAck:
  "messages_owned d (db_messages (w_store (srv_world s))) \<Longrightarrow>
     messages_owned d (db_messages (w_store (srv_world (handlePubAck p s))))"
  by (simp add: handlePubAck_def case_prod_beta Let_def messages_acknowledged split: option.splits)

lemma messages_handlePublish:
  assumes "messages_owned d (db_messages (w_store (srv_world s)))"
    and "handler_ok (srv_sessions s) (cl, clm)" and "cl = d \<longrightarrow> clm_Role clm \<noteq> ''admin''"
  shows "messages_owned d (db_messages (w_store (srv_world (snd (handlePublish c cl clm p s)))))"
proof (cases "CanPublish clm (pkt_Topic p)")
  case None
  let ?cp = "complete_packet cl p s"
  have "HasPrefix (pkt_Topic p) (''device/'' @ d @ ''/'') \<and> \<not> HasSuffix (pkt_Topic p) ''/command''" if "cl = d"
    using None assms(2,3) that by (auto simp: CanPublish_def handler_ok_def Let_def split: if_splits)
  then have "messages_owned d (db_messages (snd (SaveMessage (inbound_message cl (fst ?cp)) (w_store (srv_world s)))))"
    using assms(1) messages_SaveMessage [of "inbound_message cl (fst ?cp)" "w_store (srv_world s)"]
    by (fastforce simp: messages_owned_def inbound_message_def)
  with assms(1) show ?thesis
    by (simp add: handlePublish_def case_prod_beta split: option.splits)
next
  case (Some e)
  with assms(1) show ?thesis by (simp add: handlePublish_def)
qed

lemma messages_handlePacket:
  assumes "messages_owned d (db_messages (w_store (srv_world s)))"
    and "handler_ok (srv_sessions s) (cl, clm)" and "cl = d \<longrightarrow> clm_Role clm \<noteq> ''admin''"
  shows "messages_owned d (db_messages (w_store (srv_world (snd (handlePacket c cl clm p s)))))"
proof -
  let ?s = "snd (admit cl s)"
  have ok: "handler_ok (srv_sessions ?s) (cl, clm)" using assms(2) by (simp add: handler_ok_def)
  have "messages_owned d (db_messages (w_store (srv_world (snd (handlePublish c cl clm p ?s)))))"
    by (rule messages_handlePublish [OF _ ok assms(3)]) (simp add: assms(1))
  with assms(1) show ?thesis
    by (simp add: handlePacket_def dispatch_def case_prod_beta messages_handlePubAck split: option.splits)
qed

lemma messages_deliver [simp]:
  "db_messages (w_store (srv_world (snd (deliverOffline cl c s)))) = db_messages (w_store (srv_world s))"
  by (simp add: deliverOffline_def case_prod_beta split: sum.splits)

lemma messages_step:
  assumes "broker_step b b'" and "broker_inv b" and "no_admin d (snd b)"
    and "messages_owned d (db_messages (w_store (srv_world (fst b))))"
  shows "messages_owned d (db_messages (w_store (srv_world (fst b'))))"
  using assms
proof (induction rule: broker_step.induct)
  case (rejected A c s received err s1)
  then show ?case using authenticate_frame(4) [of c received s] by simp
next
  case (accepted A c s received cl claims subs s1)
  then show ?case using authenticate_frame(4) [of c received s] by simp
next
  case (served A c cl claims packet s s1)
  then show ?case
    using messages_handlePacket [of d s cl claims c packet]
    by (auto simp: broker_inv_def handlers_ok_def no_admin_def)
next
  case (stopped A c cl claims packet s s1)
  then show ?case
    using messages_handlePacket [of d s cl claims c packet]
    by (auto simp: broker_inv_def handlers_ok_def no_admin_def)
next
  case (lost A c cl claims s)
  then show ?case by simp
qed

lemma reachable_messages:
  assumes "reachable_without d auth rate w0 b"
    and "store_wf (w_store w0)" and "messages_owned d (db_messages (w_store w0))"
  shows "messages_owned d (db_messages (w_store (srv_world (fst b))))"
  using assms
proof (induction rule: reachable_without.induct)
  case started
  then show ?case by (simp add: Server_New_def)
next
  case (continued b b')
  then show ?case
    using messages_step [of b b' d] reachable_inv [OF reachable_without_reachable]
      reachable_without_no_admin by blast
qed

end
