(* ===== verification/Wire.thy ===== *)
theory Wire
  imports Isolation
begin

text \<open>
  What the handlers write, and to whom: the packets a handler sends on its own connection are
  replies, every other packet goes to a matching subscriber; and in every reachable state an open
  connection that a session points to belongs to the handler of that session. Together with the
  confinement of a device's subscriptions and queue this bounds what a device is ever sent.
\<close>

section \<open>Vocabulary\<close>

definition emits :: "(conn \<times> Packet \<Rightarrow> bool) \<Rightarrow> Server \<Rightarrow> Server \<Rightarrow> bool" where
  "emits P s s' = (\<exists>outs. w_wire (srv_world s') = w_wire (srv_world s) @ outs \<and> (\<forall>x \<in> set outs. P x))"

definition reply_on :: "conn \<Rightarrow> conn \<times> Packet \<Rightarrow> bool" where
  "reply_on c x = (fst x = c \<and> pkt_Type (snd x) \<noteq> PacketPublish)"

definition to_subscriber :: "Server \<Rightarrow> conn \<times> Packet \<Rightarrow> bool" where
  "to_subscriber s x =
     (\<exists>cl. live_conn (srv_sessions s) cl = Some (fst x)
        \<and> (\<exists>sub \<in> set (Registry_List (srv_subscriptions s) cl).
             MatchTopic (sub_Topic sub) (pkt_Topic (snd x))))"

abbreviation sends :: "conn \<Rightarrow> Server \<Rightarrow> conn \<times> Packet \<Rightarrow> bool" where
  "sends c s x \<equiv> reply_on c x \<or> to_subscriber s x"

section \<open>What the handlers write\<close>

lemma emits_refl: "w_wire (srv_world s') = w_wire (srv_world s) \<Longrightarrow> emits P s s'"
  by (simp add: emits_def)

lemma emits_trans: "emits P s s1 \<Longrightarrow> emits P s1 s2 \<Longrightarrow> emits P s s2"
  by (auto simp: emits_def)

lemma emits_after:
  "emits P s1 s2 \<Longrightarrow> w_wire (srv_world s1) = w_wire (srv_world s) \<Longrightarrow> emits P s s2"
  by (simp add: emits_def)

lemma emits_mono: "emits P s s' \<Longrightarrow> (\<And>x. P x \<Longrightarrow> Q x) \<Longrightarrow> emits Q s s'"
  by (auto simp: emits_def)

lemma emits_sends:
  "emits (reply_on c) a b \<Longrightarrow> emits (sends c s) a b"
  "emits (to_subscriber s) a b \<Longrightarrow> emits (sends c s) a b"
  by (rule emits_mono, assumption, simp)+

lemma emits_metric [simp]:
  "emits P s (metric f s') = emits P s s'"
  "emits P (metric f s) s' = emits P s s'"
  by (simp_all add: emits_def)

lemma to_subscriber_cong:
  "srv_sessions s' = srv_sessions s \<Longrightarrow> srv_subscriptions s' = srv_subscriptions s \<Longrightarrow>
     to_subscriber s' = to_subscriber s"
  by (simp add: to_subscriber_def fun_eq_iff)

lemma reply_emits:
  assumes "\<And>t. pkt_Type (b t) \<noteq> PacketPublish"
  shows "emits (reply_on c) s (snd (reply c b s))"
  using assms
  by (auto simp: emits_def reply_def reply_on_def srv_send_def case_prod_beta Send_wire)

lemma srv_route_emits: "emits (to_subscriber s) s (snd (srv_route p s))"
proof -
  obtain order w where wire: "w_wire w = w_wire (srv_world s)" and r: "srv_route p s =
      (case Route_loop Send Enqueue (srv_sessions s) p
              (Registry_Match order (srv_subscriptions s) (pkt_Topic p)) 0 (srv_metrics s) w of
         (r, m, w) \<Rightarrow> (r, s\<lparr>srv_metrics := m, srv_world := w\<rparr>))"
    by (rule srv_route_loop)
  let ?ms = "Registry_Match order (srv_subscriptions s) (pkt_Topic p)"
  obtain d e m' w' where loop: "Route_loop Send Enqueue (srv_sessions s) p ?ms 0 (srv_metrics s) w
      = ((d, e), m', w')"
    by (metis prod.exhaust)
  have "to_subscriber s x" if "x \<in> addressed (srv_sessions s) p (set ?ms)" for x
    using that by (fastforce simp: addressed_def to_subscriber_def set_Registry_Match)
  then show ?thesis
    using fanout.Route_loop_wire [OF loop] wire by (fastforce simp: emits_def r loop)
qed

lemma handleSubscribe_emits: "emits (reply_on c) s (snd (handleSubscribe c cl clm p s))"
  by (auto simp: handleSubscribe_def case_prod_beta Let_def emits_refl split: option.splits
      intro!: emits_after [OF reply_emits])

lemma handlePublish_emits: "emits (sends c s) s (snd (handlePublish c cl clm p s))"
proof -
  let ?cp = "complete_packet cl p s"
  let ?s1 = "metric inc_Publishes (snd (srv_store (SaveMessage (inbound_message cl (fst ?cp))) (snd ?cp)))"
  let ?s2 = "snd (srv_route (fst ?cp) ?s1)"
  have same: "to_subscriber ?s1 = to_subscriber s" by (rule to_subscriber_cong) simp_all
  have "emits (sends c s) ?s1 ?s2"
    using srv_route_emits [of ?s1 "fst ?cp"] unfolding same by (rule emits_sends(2))
  then have route: "emits (sends c s) s ?s2"
    by (rule emits_after) simp
  have "emits (sends c s) ?s2 (snd (reply c (PubAck i) ?s2))" for i
    by (intro emits_sends(1) reply_emits) simp
  then have "emits (sends c s) s (snd (reply c (PubAck i) ?s2))" for i
    by (rule emits_trans [OF route])
  with route show ?thesis
    by (simp add: handlePublish_def case_prod_beta emits_refl split: option.splits)
qed

lemma dispatch_emits: "emits (sends c s) s (snd (dispatch c cl clm p s))"
proof -
  have rep: "emits (sends c s) s0 (snd (reply c b s0))" if "\<And>t. pkt_Type (b t) \<noteq> PacketPublish" for b s0
    using that by (intro emits_sends(1) reply_emits)
  have sub: "emits (sends c s) s (snd (handleSubscribe c cl clm p s))"
    by (rule emits_sends(1) [OF handleSubscribe_emits])
  note pub = handlePublish_emits [of c s cl clm p]
  show ?thesis
    using rep sub pub emits_trans [OF sub rep] emits_trans [OF pub rep]
    by (simp add: dispatch_def case_prod_beta emits_refl split: option.splits)
qed

lemma live_conn_ops [simp]:
  "live_conn (Touch c t sess) d = live_conn sess d"
  "live_conn (AddSubscriptions sess c subs) d = live_conn sess d"
  "live_conn (Disconnect c t sess) d = (if d = c then None else live_conn sess d)"
  "live_conn (snd (UpsertConnected new t1 t2 sess)) d =
     (if d = ses_ClientID new then ses_Conn new else live_conn sess d)"
  by (auto simp: live_conn_def Touch_def AddSubscriptions_def Disconnect_def UpsertConnected_def
      Let_def split: option.splits)

lemma admit_live [simp]: "live_conn (srv_sessions (snd (admit cl s))) = live_conn (srv_sessions s)"
  by (simp add: fun_eq_iff admit_def case_prod_beta Let_def)

lemma handlePacket_emits: "emits (sends c s) s (snd (handlePacket c cl clm p s))"
proof -
  let ?s = "snd (admit cl s)"
  have same: "to_subscriber ?s = to_subscriber s" by (simp add: to_subscriber_def fun_eq_iff)
  have "emits (sends c s) ?s (snd (dispatch c cl clm p ?s))"
    using dispatch_emits [of c ?s cl clm p] unfolding same .
  then have "emits (sends c s) s (snd (dispatch c cl clm p ?s))"
    by (rule emits_after) simp
  moreover have "emits (reply_on c) ?s (snd (reply c (Error x y) (metric inc_RateLimited ?s)))" for x y
    using reply_emits [of "Error x y" c "metric inc_RateLimited ?s"] by simp
  then have "emits (sends c s) s (snd (reply c (Error x y) (metric inc_RateLimited ?s)))" for x y
    by (rule emits_after [OF emits_sends(1)]) simp
  ultimately show ?thesis by (simp add: handlePacket_def case_prod_beta)
qed

lemma open_session_emits: "emits (reply_on c) s (snd (open_session c cl clm s))"
  by (auto simp: open_session_def case_prod_beta Let_def split: option.splits
      intro!: emits_after [OF reply_emits])

lemma authenticate_emits: "emits (reply_on c) s (snd (authenticate c r s))"
  by (auto simp: authenticate_def case_prod_beta emits_refl split: sum.splits
      intro!: emits_after [OF open_session_emits])

lemma reject_emits: "emits (reply_on c) s (reject c e s)"
proof -
  have "emits (reply_on c) s (snd (reply c (Error x e) (metric inc_AuthFailures s)))" for x
    using reply_emits [of "Error x e" c "metric inc_AuthFailures s"] by simp
  then show ?thesis by (simp add: reject_def Let_def emits_def)
qed

lemma deliver_loop_emits: "emits (\<lambda>x. fst x = c \<and> snd x \<in> set ps) s (snd (deliver_loop c ps s))"
proof (induction ps arbitrary: s)
  case Nil
  then show ?case by (simp add: emits_refl)
next
  case (Cons p ps)
  let ?P = "\<lambda>x. fst x = c \<and> snd x \<in> set (p # ps)" and ?s = "snd (srv_send c p s)"
  have send: "emits ?P s ?s" by (auto simp: emits_def srv_send_def case_prod_beta Send_wire)
  moreover have "emits ?P s (snd (deliver_loop c ps (metric inc_PacketsOut ?s)))"
    using Cons.IH [of "metric inc_PacketsOut ?s"]
    by (intro emits_trans [OF send]) (auto elim!: emits_mono)
  ultimately show ?case by (simp add: case_prod_beta split: option.splits)
qed

lemma deliverOffline_emits:
  assumes "rows_confined d (db_offline (w_store (srv_world s)))"
  shows "emits (\<lambda>x. fst x = c \<and> (cl = d \<longrightarrow> pkt_Topic (snd x) = command_topic d)) s
    (snd (deliverOffline cl c s))"
proof (cases "fst (Pending cl (srv_world s))")
  case (Inl e)
  then show ?thesis by (simp add: deliverOffline_def case_prod_beta emits_refl)
next
  case (Inr ps)
  let ?s = "s\<lparr>srv_world := snd (Pending cl (srv_world s))\<rparr>"
  have "emits (\<lambda>x. fst x = c \<and> (cl = d \<longrightarrow> pkt_Topic (snd x) = command_topic d)) ?s
      (snd (deliver_loop c ps ?s))"
    using Pending_topics [OF assms] Inr by (auto intro: emits_mono [OF deliver_loop_emits])
  then show ?thesis
    using Inr emits_after [of _ ?s] by (simp add: deliverOffline_def case_prod_beta)
qed

section \<open>Which connections are closed\<close>

lemma closed_world [simp]:
  "w_closed (snd (TimestampNow w)) = w_closed w"
  "w_closed (snd (NewPacketID w)) = w_closed w"
  "w_closed (snd (range_keys ks w)) = w_closed w"
  "w_closed (snd (Send c p w)) = w_closed w"
  "w_closed (snd (on_store f w)) = w_closed w"
  "w_closed (Close c w) = c # w_closed w"
  by (simp_all add: TimestampNow_def NewPacketID_def range_keys_def Send_def on_store_def Close_def
      case_prod_beta split: option.splits)

lemma closed_queue [simp]:
  "w_closed (snd (Enqueue c p w)) = w_closed w"
  "w_closed (snd (Pending c w)) = w_closed w"
  "w_closed (snd (Ack i w)) = w_closed w"
  by (simp_all add: Enqueue_def Pending_def Ack_def case_prod_beta split: sum.splits)

lemma closed_calls [simp]:
  "w_closed (srv_world (snd (srv_now s))) = w_closed (srv_world s)"
  "w_closed (srv_world (snd (srv_send c p s))) = w_closed (srv_world s)"
  "w_closed (srv_world (snd (srv_store f s))) = w_closed (srv_world s)"
  "w_closed (srv_world (snd (reply c b s))) = w_closed (srv_world s)"
  "w_closed (srv_world (snd (complete_packet cl p s))) = w_closed (srv_world s)"
  by (simp_all add: srv_now_def srv_send_def srv_store_def reply_def complete_packet_def case_prod_beta)

lemma closed_route [simp]: "w_closed (srv_world (snd (srv_route p s))) = w_closed (srv_world s)"
proof -
  let ?k = "range_keys (map fst (srv_subscriptions s)) (srv_world s)"
  obtain d e m' w' where loop: "Route_loop Send Enqueue (srv_sessions s) p
      (Registry_Match (fst ?k) (srv_subscriptions s) (pkt_Topic p)) 0 (srv_metrics s) (snd ?k)
      = ((d, e), m', w')"
    by (metis prod.exhaust)
  have "w_closed w' = w_closed (srv_world s)"
    by (rule Route_loop_invariant [where P = "\<lambda>_ _ w. w_closed w = w_closed (srv_world s)"
          and M = UNIV, OF _ _ _ _ _ _ loop]) simp_all
  then show ?thesis by (simp add: srv_route_def Route_def case_prod_beta loop)
qed

lemma closed_handlers [simp]:
  "w_closed (srv_world (snd (handleSubscribe c cl clm p s))) = w_closed (srv_world s)"
  "w_closed (srv_world (snd (handlePublish c cl clm p s))) = w_closed (srv_world s)"
  "w_closed (srv_world (handlePubAck p s)) = w_closed (srv_world s)"
  "w_closed (srv_world (snd (admit cl s))) = w_closed (srv_world s)"
  by (simp_all add: handleSubscribe_def handlePublish_def handlePubAck_def admit_def case_prod_beta
      Let_def split: option.splits)

lemma closed_dispatch [simp]:
  "w_closed (srv_world (snd (dispatch c cl clm p s))) = w_closed (srv_world s)"
  by (simp add: dispatch_def case_prod_beta split: option.splits)

lemma closed_handlePacket [simp]:
  "w_closed (srv_world (snd (handlePacket c cl clm p s))) = w_closed (srv_world s)"
  by (simp add: handlePacket_def case_prod_beta)

lemma closed_deliver_loop [simp]:
  "w_closed (srv_world (snd (deliver_loop c ps s))) = w_closed (srv_world s)"
  by (induction ps arbitrary: s) (simp_all add: case_prod_beta split: option.splits)

lemma closed_check_connect [simp]:
  "w_closed (srv_world (snd (check_connect r s))) = w_closed (srv_world s)"
  by (simp add: check_connect_def case_prod_beta Let_def split: sum.splits)

lemma closed_open_session [simp]:
  "w_closed (srv_world (snd (open_session c cl clm s))) = w_closed (srv_world s)"
  by (simp add: open_session_def case_prod_beta Let_def split: option.splits)

lemma closed_authenticate [simp]:
  "w_closed (srv_world (snd (authenticate c r s))) = w_closed (srv_world s)"
  "w_closed (srv_world (snd (deliverOffline cl c s))) = w_closed (srv_world s)"
  by (simp_all add: authenticate_def deliverOffline_def case_prod_beta split: sum.splits)

lemma closed_ends [simp]:
  "w_closed (srv_world (leave c cl s)) = c # w_closed (srv_world s)"
  "w_closed (srv_world (reject c e s)) = c # w_closed (srv_world s)"
  by (simp_all add: leave_def reject_def case_prod_beta Let_def)

section \<open>Live connections\<close>

lemma live_dispatch [simp]:
  "live_conn (srv_sessions (snd (dispatch c cl clm p s))) = live_conn (srv_sessions s)"
  by (simp add: fun_eq_iff dispatch_def handleSubscribe_def case_prod_beta Let_def
      split: option.splits)

lemma live_handlePacket [simp]:
  "live_conn (srv_sessions (snd (handlePacket c cl clm p s))) = live_conn (srv_sessions s)"
  by (simp add: handlePacket_def case_prod_beta)

lemma live_leave [simp]:
  "live_conn (srv_sessions (leave c cl s)) d = (if d = cl then None else live_conn (srv_sessions s) d)"
  by (simp add: leave_def case_prod_beta Let_def)

lemma live_open_session [simp]:
  "live_conn (srv_sessions (snd (open_session c cl clm s))) d =
     (if d = cl then Some c else live_conn (srv_sessions s) d)"
  by (rule open_session_sessions [of c cl clm s]) simp

lemma live_authenticate:
  "live_conn (srv_sessions (snd (authenticate c r s))) d =
     (case fst (check_connect r s) of
        Inl _ \<Rightarrow> live_conn (srv_sessions s) d
      | Inr (cl, _) \<Rightarrow> if d = cl then Some c else live_conn (srv_sessions s) d)"
  by (simp add: authenticate_def case_prod_beta split: sum.splits)

lemma live_authenticate_Inr:
  assumes "authenticate c r s = (Inr (cl, claims, subs), s1)"
  shows "live_conn (srv_sessions s1) d = (if d = cl then Some c else live_conn (srv_sessions s) d)"
  using live_authenticate [of c r s d] authenticate_InrD [OF assms] assms by auto

section \<open>The wire in every reachable state\<close>

text \<open>
  A connection that a session points to belongs to the handler of that session or is closed; so
  does every connection that was written to; and what was written to an open connection of the
  device is on its command topic.
\<close>

definition wire_inv :: "string \<Rightarrow> Server \<times> handlers \<Rightarrow> bool" where
  "wire_inv d b \<longleftrightarrow>
     (\<forall>c. snd b c \<noteq> None \<longrightarrow> c \<notin> set (w_closed (srv_world (fst b))))
   \<and> (\<forall>cl c. live_conn (srv_sessions (fst b)) cl = Some c \<longrightarrow>
        c \<in> set (w_closed (srv_world (fst b))) \<or> (\<exists>claims. snd b c = Some (cl, claims)))
   \<and> (\<forall>x \<in> set (w_wire (srv_world (fst b))).
        snd b (fst x) \<noteq> None \<or> fst x \<in> set (w_closed (srv_world (fst b))))
   \<and> (\<forall>x \<in> set (w_wire (srv_world (fst b))). pkt_Type (snd x) = PacketPublish \<longrightarrow>
        (\<forall>claims. snd b (fst x) = Some (d, claims) \<longrightarrow> pkt_Topic (snd x) = command_topic d))"

lemma wire_inv_emit:
  assumes inv: "wire_inv d (s, A)" and out: "emits P s s'"
    and closed: "w_closed (srv_world s') = w_closed (srv_world s)"
    and live: "live_conn (srv_sessions s') = live_conn (srv_sessions s)"
    and own: "\<And>x. P x \<Longrightarrow> A (fst x) \<noteq> None \<or> fst x \<in> set (w_closed (srv_world s))"
    and topic: "\<And>x claims. P x \<Longrightarrow> pkt_Type (snd x) = PacketPublish \<Longrightarrow>
      A (fst x) = Some (d, claims) \<Longrightarrow> pkt_Topic (snd x) = command_topic d"
  shows "wire_inv d (s', A)"
proof -
  from out obtain outs where wire: "w_wire (srv_world s') = w_wire (srv_world s) @ outs"
    and outs: "\<And>x. x \<in> set outs \<Longrightarrow> P x" by (auto simp: emits_def)
  have "A (fst x) \<noteq> None \<or> fst x \<in> set (w_closed (srv_world s))" if "x \<in> set outs" for x
    using own outs that by blast
  moreover have "pkt_Topic (snd x) = command_topic d"
    if "x \<in> set outs" "pkt_Type (snd x) = PacketPublish" "A (fst x) = Some (d, claims)" for x claims
    using topic outs that by blast
  ultimately show ?thesis
    using inv unfolding wire_inv_def fst_conv snd_conv wire closed live set_append by blast
qed

lemma wire_inv_end:
  assumes "wire_inv d (s, A)" and "A c = Some (cl, claims)"
  shows "wire_inv d (leave c cl s, A(c := None))"
  using assms by (auto simp: wire_inv_def split: if_splits)

lemma wire_inv_packet:
  assumes inv: "wire_inv d (s, A)" and A: "A c = Some (cl, claims)"
    and conf: "confined d s" and d: "plain_id d"
  shows "wire_inv d (snd (handlePacket c cl claims p s), A)"
proof (rule wire_inv_emit [OF inv handlePacket_emits])
  show "A (fst x) \<noteq> None \<or> fst x \<in> set (w_closed (srv_world s))" if "sends c s x" for x
    using that A inv by (fastforce simp: reply_on_def to_subscriber_def wire_inv_def)
  show "pkt_Topic (snd x) = command_topic d"
    if "sends c s x" "pkt_Type (snd x) = PacketPublish" "A (fst x) = Some (d, clm)" for x clm
  proof -
    from that obtain cl' sub where live: "live_conn (srv_sessions s) cl' = Some (fst x)"
      and sub: "sub \<in> set (Registry_List (srv_subscriptions s) cl')"
      and m: "MatchTopic (sub_Topic sub) (pkt_Topic (snd x))"
      by (auto simp: reply_on_def to_subscriber_def)
    from live inv that(3) have "cl' = d" by (fastforce simp: wire_inv_def)
    with sub conf have "sub_Topic sub = command_topic d"
      by (simp add: confined_def subs_confined_def)
    with m MatchTopic_plain [OF command_topic_plain [OF d]] show ?thesis by simp
  qed
qed simp_all

lemma wire_inv_rejected:
  assumes inv: "wire_inv d (s, A)" and A: "A c = None"
    and auth: "authenticate c r s = (Inl err, s1)"
  shows "wire_inv d (reject c err s1, A)"
proof -
  have "emits (reply_on c) s s1" using authenticate_emits [of c s r] auth by simp
  from emits_trans [OF this reject_emits] obtain outs
    where wire: "w_wire (srv_world (reject c err s1)) = w_wire (srv_world s) @ outs"
      and outs: "\<And>x. x \<in> set outs \<Longrightarrow> fst x = c \<and> pkt_Type (snd x) \<noteq> PacketPublish"
    by (force simp: emits_def reply_on_def)
  have closed: "w_closed (srv_world (reject c err s1)) = c # w_closed (srv_world s)"
    using closed_authenticate(1) [of c r s] auth by simp
  have live: "live_conn (srv_sessions (reject c err s1)) cl = Some k \<Longrightarrow>
      live_conn (srv_sessions s) cl = Some k \<or> k = c" for cl k
    using live_authenticate [of c r s cl] auth by (auto split: sum.splits if_splits)
  show ?thesis
    unfolding wire_inv_def fst_conv snd_conv wire closed
    using inv A outs live by (auto simp: wire_inv_def) blast+
qed

lemma wire_inv_accepted:
  assumes inv: "wire_inv d (s, A)" and A: "A c = None" and fresh: "c \<notin> set (w_closed (srv_world s))"
    and auth: "authenticate c r s = (Inr (cl, claims, subs), s1)" and conf: "confined d s"
  shows "wire_inv d (snd (deliverOffline cl c s1), A(c \<mapsto> (cl, claims)))"
proof -
  let ?s = "snd (deliverOffline cl c s1)"
  let ?P = "\<lambda>x. fst x = c \<and> (pkt_Type (snd x) = PacketPublish \<longrightarrow> cl = d \<longrightarrow>
      pkt_Topic (snd x) = command_topic d)"
  have rows: "rows_confined d (db_offline (w_store (srv_world s1)))"
    using conf authenticate_frame(4) [of c r s] auth by (simp add: confined_def)
  have "emits (reply_on c) s s1" using authenticate_emits [of c s r] auth by simp
  then have "emits ?P s s1" by (rule emits_mono) (simp add: reply_on_def)
  moreover have "emits ?P s1 ?s"
    by (rule emits_mono [OF deliverOffline_emits [OF rows, of c cl]]) simp
  ultimately have "emits ?P s ?s" by (rule emits_trans)
  then obtain outs where wire: "w_wire (srv_world ?s) = w_wire (srv_world s) @ outs"
    and outs: "\<forall>x \<in> set outs. ?P x"
    unfolding emits_def by blast
  have closed: "w_closed (srv_world ?s) = w_closed (srv_world s)"
    using closed_authenticate(1) [of c r s] auth by simp
  have live: "live_conn (srv_sessions ?s) k = (if k = cl then Some c else live_conn (srv_sessions s) k)"
    for k using live_authenticate_Inr [OF auth] by simp
  have unwritten: "fst x \<noteq> c" if "x \<in> set (w_wire (srv_world s))" for x
    using inv A fresh that by (auto simp: wire_inv_def)
  have unowned: "live_conn (srv_sessions s) k \<noteq> Some c" for k
    using inv A fresh unfolding wire_inv_def fst_conv snd_conv by (metis option.distinct(1))
  let ?A = "A(c \<mapsto> (cl, claims))"
  have "?A k \<noteq> None \<longrightarrow> k \<notin> set (w_closed (srv_world s))" for k
    using inv fresh by (simp add: wire_inv_def)
  moreover have "k \<in> set (w_closed (srv_world s)) \<or> (\<exists>clm. ?A k = Some (c', clm))"
    if "(if c' = cl then Some c else live_conn (srv_sessions s) c') = Some k" for c' k
    using that inv unowned [of c'] by (auto simp: wire_inv_def split: if_splits)
  moreover have "?A (fst x) \<noteq> None \<or> fst x \<in> set (w_closed (srv_world s))"
    if "x \<in> set (w_wire (srv_world s)) \<union> set outs" for x
    using that inv outs by (auto simp: wire_inv_def)
  moreover have "pkt_Topic (snd x) = command_topic d"
    if "x \<in> set (w_wire (srv_world s)) \<union> set outs" "pkt_Type (snd x) = PacketPublish"
      "?A (fst x) = Some (d, clm)" for x clm
    using that inv outs unwritten [of x] by (auto simp: wire_inv_def split: if_splits)
  ultimately show ?thesis
    unfolding wire_inv_def fst_conv snd_conv wire closed live set_append by blast
qed

lemma wire_inv_step:
  assumes "broker_step b b'" and "wire_inv d b" and "confined d (fst b)" and "plain_id d"
  shows "wire_inv d b'"
  using assms
proof (induction rule: broker_step.induct)
  case (rejected A c s received err s1)
  then show ?case by (intro wire_inv_rejected)
next
  case (accepted A c s received cl claims subs s1)
  then show ?case by (intro wire_inv_accepted) simp_all
next
  case (served A c cl claims packet s s1)
  then show ?case using wire_inv_packet [of d s A c cl claims packet] by simp
next
  case (stopped A c cl claims packet s s1)
  then have "wire_inv d (s1, A)" using wire_inv_packet [of d s A c cl claims packet] by simp
  with stopped(1) show ?case by (intro wire_inv_end)
next
  case (lost A c cl claims s)
  then show ?case by (intro wire_inv_end)
qed

lemma wire_inv_start:
  assumes "w_wire w0 = []"
  shows "wire_inv d (Server_New auth rate w0, Map.empty)"
  using assms by (simp add: wire_inv_def Server_New_def NewStore_def live_conn_def)

lemma reachable_wire:
  assumes "reachable_without d auth rate w0 b" and "plain_id d"
    and "store_wf (w_store w0)" and "rows_confined d (db_offline (w_store w0))" and "w_wire w0 = []"
  shows "wire_inv d b"
  using assms
proof (induction rule: reachable_without.induct)
  case started
  then show ?case by (simp add: wire_inv_start)
next
  case (continued b b')
  then show ?case using wire_inv_step [of b b' d] reachable_confined by blast
qed

end
