(* ===== verification/Scenario.thy ===== *)
theory Scenario
  imports Wire
begin

text \<open>
  A concrete run, for the instances of the properties: device \<open>d1\<close> connects on connection 1
  and subscribes to its command topic, the administrator \<open>ops\<close> connects on connection 2 and
  publishes a command for the device.
\<close>

section \<open>The run\<close>

definition connect_packet :: "string \<Rightarrow> Packet" where
  "connect_packet token = zero_Packet\<lparr>pkt_Type := PacketConnect, pkt_Token := token\<rparr>"

definition command_subscription :: Subscription where
  "command_subscription = \<lparr>sub_Topic = command_topic ''d1'', sub_QoS = 1\<rparr>"

definition subscribe_packet :: Packet where
  "subscribe_packet = zero_Packet\<lparr>pkt_Type := PacketSubscribe, pkt_PacketID := ''s'',
     pkt_Subscriptions := [command_subscription]\<rparr>"

definition command_packet :: Packet where
  "command_packet = sample_packet ''c1'' (command_topic ''d1'')\<lparr>pkt_Timestamp := 3\<rparr>"

definition run_session :: "Claims \<Rightarrow> conn \<Rightarrow> Subscription list \<Rightarrow> time \<Rightarrow> time \<Rightarrow> Session" where
  "run_session claims c subs t1 t2 =
     \<lparr>ses_ClientID = clm_ClientID claims, ses_DeviceID = clm_DeviceID claims,
      ses_Role = clm_Role claims, ses_Claims = claims, ses_Conn = Some c, ses_Online = True,
      ses_Subscriptions = subs, ses_ConnectedAt = t1, ses_LastSeenAt = t2\<rparr>"

text \<open>A state of the run: what changes during it, over surroundings in which nothing fails.\<close>

definition stage ::
  "Sessions \<Rightarrow> Registry \<Rightarrow> Metrics \<Rightarrow> rateWindow dict \<Rightarrow> Message list \<Rightarrow> nat \<Rightarrow> nat \<Rightarrow> nat \<Rightarrow>
   (conn \<times> Packet) list \<Rightarrow> Server" where
  "stage sess reg m seen msgs stmts ticks ranges wire =
     \<lparr>srv_auth = Service_New sample_auth, srv_sessions = sess, srv_subscriptions = reg,
      srv_metrics = m, srv_limiter = \<lparr>rl_limit = 10, rl_window = 60000000000, rl_seen = seen\<rparr>,
      srv_world = (calm_world sample_lib (empty_store\<lparr>db_messages := msgs, db_stmts := stmts\<rparr>))
        \<lparr>w_ticks := ticks, w_ranges := ranges, w_sends := length wire, w_wire := wire\<rparr>\<rparr>"

definition run0 :: Server where
  "run0 = stage [] [] Metrics_New [] [] 0 0 0 []"

definition run1 :: Server where
  "run1 = stage [(''d1'', run_session d1_claims 1 [] 2 5)] []
     (Metrics_New\<lparr>m_PacketsOut := 1, m_ActiveSessions := 1\<rparr>) [] [] 1 6 0
     [(1, ConnAck ''accepted'' False 6)]"

definition run2 :: Server where
  "run2 = stage [(''d1'', run_session d1_claims 1 [command_subscription] 2 7)]
     [(''d1'', [command_subscription])]
     (Metrics_New\<lparr>m_PacketsIn := 1, m_PacketsOut := 2, m_ActiveSessions := 1, m_Subscriptions := 1\<rparr>)
     [(''d1'', \<lparr>rw_resetAt = 60000000008, rw_count = 1\<rparr>)] [] 1 9 0
     [(1, ConnAck ''accepted'' False 6), (1, SubAck ''s'' 9)]"

definition run3 :: Server where
  "run3 = stage [(''d1'', run_session d1_claims 1 [command_subscription] 2 7),
       (''ops'', run_session admin_claims 2 [] 11 14)]
     [(''d1'', [command_subscription])]
     (Metrics_New\<lparr>m_PacketsIn := 1, m_PacketsOut := 3, m_ActiveSessions := 2, m_Subscriptions := 1\<rparr>)
     [(''d1'', \<lparr>rw_resetAt = 60000000008, rw_count = 1\<rparr>)] [] 2 15 0
     [(1, ConnAck ''accepted'' False 6), (1, SubAck ''s'' 9), (2, ConnAck ''accepted'' False 15)]"

definition run4 :: Server where
  "run4 = stage [(''d1'', run_session d1_claims 1 [command_subscription] 2 7),
       (''ops'', run_session admin_claims 2 [] 11 16)]
     [(''d1'', [command_subscription])]
     (Metrics_New\<lparr>m_PacketsIn := 2, m_PacketsOut := 5, m_Publishes := 1, m_ActiveSessions := 2,
        m_Subscriptions := 1\<rparr>)
     [(''d1'', \<lparr>rw_resetAt = 60000000008, rw_count = 1\<rparr>),
      (''ops'', \<lparr>rw_resetAt = 60000000017, rw_count = 1\<rparr>)]
     [inbound_message ''ops'' (command_packet\<lparr>pkt_ClientID := ''ops''\<rparr>)] 3 18 1
     [(1, ConnAck ''accepted'' False 6), (1, SubAck ''s'' 9), (2, ConnAck ''accepted'' False 15),
      (1, command_packet\<lparr>pkt_ClientID := ''ops''\<rparr>), (2, PubAck ''c1'' 18)]"

definition two_handlers :: handlers where
  "two_handlers = [1 \<mapsto> (''d1'', d1_claims), 2 \<mapsto> (''ops'', admin_claims)]"

section \<open>Evaluation\<close>

lemma sample_Parse:
  "now < 1000 \<Longrightarrow> Parse sample_lib now (Service_New sample_auth) ''tok'' = Inr d1_claims"
  "now < 1000 \<Longrightarrow> Parse sample_lib now (Service_New sample_auth) ''adm'' = Inr admin_claims"
  by (simp_all add: Parse_def sample_lib_def table_lib_def Service_New_def sample_auth_def
      SigningMethodHS256_def d1_claims_def admin_claims_def)

lemma claims_fields:
  "clm_ClientID d1_claims = ''d1''" "clm_DeviceID d1_claims = ''d1''"
  "clm_Role d1_claims = ''device''" "clm_ClientID admin_claims = ''ops''"
  "clm_DeviceID admin_claims = []" "clm_Role admin_claims = ''admin''"
  by (simp_all add: d1_claims_def admin_claims_def)

lemma sample_rights:
  "CanSubscribe d1_claims (command_topic ''d1'') = None" "CanPublish admin_claims t = None"
  "MatchTopic (command_topic ''d1'') (command_topic ''d1'')"
  using MatchTopic_plain [OF command_topic_plain, of "''d1''" "command_topic ''d1''"]
  by (simp_all add: CanSubscribe_None_iff CanPublish_None_iff claims_fields plain_id_def)

lemmas surroundings_eval =
  stage_def calm_world_def empty_store_def srv_now_def srv_send_def srv_store_def metric_def reply_def
  TimestampNow_def NewPacketID_def Send_def on_store_def range_keys_def metric_defs Metrics_New_def

lemmas connect_eval =
  authenticate_def check_connect_def open_session_def connect_packet_def zero_Packet_def
  sample_Parse claims_fields UpsertConnected_def IsZero_def OnlineCount_def run_session_def
  surroundings_eval

lemmas admit_eval =
  handlePacket_def admit_def Touch_def Allow_def dispatch_def run_session_def surroundings_eval

lemmas subscribe_eval =
  handleSubscribe_def subscribe_packet_def command_subscription_def zero_Packet_def sample_rights
  Registry_Add_def Registry_List_def upsert_subs_def upsert_sub_def AddSubscriptions_def

lemmas publish_eval =
  handlePublish_def command_packet_def sample_packet_def zero_Packet_def sample_rights
  complete_packet_def IsZero_def inbound_message_def SaveMessage_def db_exec_def default_payload_def
  raw_len_def message_row_def column_smallint_def column_jsonb_def insert_message_def srv_route_def
  Route_def Registry_Match_def Registry_List_def Sessions_Get_def outbound_def Clone_def
  copy_raw_def command_subscription_def

lemma deliver_calm:
  "deliverOffline cl c (stage sess reg m seen msgs stmts ticks ranges wire) =
     (None, stage sess reg m seen msgs (Suc stmts) ticks ranges wire)"
  by (simp add: deliverOffline_def Pending_def GetOfflineMessages_def db_exec_def scan_def
      surroundings_eval)

lemma run0_start: "Server_New sample_auth 10 d1_world = run0"
  by (simp add: run0_def Server_New_def stage_def d1_world_def calm_world_def empty_store_def
      NewStore_def NewRegistry_def newRateLimiter_def)

lemma run1_auth:
  "authenticate 1 (Inr (connect_packet ''tok'')) run0 =
     (Inr (''d1'', d1_claims, []), stage [(''d1'', run_session d1_claims 1 [] 2 5)] []
       (Metrics_New\<lparr>m_PacketsOut := 1, m_ActiveSessions := 1\<rparr>) [] [] 0 6 0
       [(1, ConnAck ''accepted'' False 6)])"
  by (simp add: run0_def connect_eval cong: let_weak_cong)

lemma run2_eval: "handlePacket 1 ''d1'' d1_claims subscribe_packet run1 = (True, run2)"
  by (simp add: run1_def run2_def admit_eval subscribe_eval cong: let_weak_cong)

lemma run3_auth:
  "authenticate 2 (Inr (connect_packet ''adm'')) run2 =
     (Inr (''ops'', admin_claims, []),
      stage [(''d1'', run_session d1_claims 1 [command_subscription] 2 7),
         (''ops'', run_session admin_claims 2 [] 11 14)]
       [(''d1'', [command_subscription])]
       (Metrics_New\<lparr>m_PacketsIn := 1, m_PacketsOut := 3, m_ActiveSessions := 2,
          m_Subscriptions := 1\<rparr>)
       [(''d1'', \<lparr>rw_resetAt = 60000000008, rw_count = 1\<rparr>)] [] 1 15 0
       [(1, ConnAck ''accepted'' False 6), (1, SubAck ''s'' 9), (2, ConnAck ''accepted'' False 15)])"
  by (simp add: run2_def connect_eval cong: let_weak_cong)

lemma run4_eval: "handlePacket 2 ''ops'' admin_claims command_packet run3 = (True, run4)"
  by (simp add: run3_def run4_def admit_eval publish_eval cong: let_weak_cong)

lemma stage_closed [simp]: "w_closed (srv_world (stage sess reg m seen msgs stmts ticks ranges wire)) = []"
  by (simp add: stage_def calm_world_def)

lemma run1_step: "broker_step (run0, Map.empty) (run1, [1 \<mapsto> (''d1'', d1_claims)])"
  using accepted [OF _ _ run1_auth, of Map.empty]
  by (simp add: deliver_calm run0_def run1_def)

lemma run2_step: "broker_step (run1, [1 \<mapsto> (''d1'', d1_claims)]) (run2, [1 \<mapsto> (''d1'', d1_claims)])"
  by (rule served [OF _ run2_eval]) simp

lemma run3_step: "broker_step (run2, [1 \<mapsto> (''d1'', d1_claims)]) (run3, two_handlers)"
  using accepted [OF _ _ run3_auth, of "[1 \<mapsto> (''d1'', d1_claims)]"]
  by (simp add: deliver_calm run2_def run3_def two_handlers_def numeral_2_eq_2)

lemma run4_step: "broker_step (run3, two_handlers) (run4, two_handlers)"
  by (rule served [OF _ run4_eval]) (simp add: two_handlers_def)

lemma run_reachable:
  "reachable sample_auth 10 d1_world (run1, [1 \<mapsto> (''d1'', d1_claims)])"
  "reachable sample_auth 10 d1_world (run2, [1 \<mapsto> (''d1'', d1_claims)])"
  "reachable sample_auth 10 d1_world (run3, two_handlers)"
  "reachable sample_auth 10 d1_world (run4, two_handlers)"
proof -
  have "reachable sample_auth 10 d1_world (run0, Map.empty)"
    unfolding run0_start [symmetric] by (rule reachable.start)
  then show "reachable sample_auth 10 d1_world (run1, [1 \<mapsto> (''d1'', d1_claims)])"
    by (rule reachable.step [OF _ run1_step])
  then show r2: "reachable sample_auth 10 d1_world (run2, [1 \<mapsto> (''d1'', d1_claims)])"
    by (rule reachable.step [OF _ run2_step])
  then show r3: "reachable sample_auth 10 d1_world (run3, two_handlers)"
    by (rule reachable.step [OF _ run3_step])
  then show "reachable sample_auth 10 d1_world (run4, two_handlers)"
    by (rule reachable.step [OF _ run4_step])
qed

lemma run2_without: "reachable_without ''d1'' sample_auth 10 d1_world (run2, [1 \<mapsto> (''d1'', d1_claims)])"
proof -
  have none: "no_admin ''d1'' [1 \<mapsto> (''d1'', d1_claims)]"
    by (simp add: no_admin_def d1_claims_def)
  have "reachable_without ''d1'' sample_auth 10 d1_world (run0, Map.empty)"
    unfolding run0_start [symmetric] by (rule reachable_without.started)
  from reachable_without.continued [OF this run1_step] none
  have "reachable_without ''d1'' sample_auth 10 d1_world (run1, [1 \<mapsto> (''d1'', d1_claims)])" by simp
  from reachable_without.continued [OF this run2_step] none show ?thesis by simp
qed

lemma run_without: "reachable_without ''d1'' sample_auth 10 d1_world (run4, two_handlers)"
proof -
  have none: "no_admin ''d1'' two_handlers"
    by (auto simp: no_admin_def two_handlers_def d1_claims_def split: if_splits)
  from reachable_without.continued [OF run2_without run3_step] none
  have "reachable_without ''d1'' sample_auth 10 d1_world (run3, two_handlers)" by simp
  from reachable_without.continued [OF this run4_step] none show ?thesis by simp
qed

lemma d1_world_facts [simp]:
  "store_wf (w_store d1_world)" "db_offline (w_store d1_world) = []" "db_messages (w_store d1_world) = []"
  "w_wire d1_world = []" "w_jwt d1_world = sample_lib"
  by (simp_all add: d1_world_def calm_world_def empty_store_def store_wf_def)

section \<open>A second connection of the same client\<close>

definition run1_again :: Server where
  "run1_again = stage [(''d1'', run_session d1_claims 3 [] 8 11)] []
     (Metrics_New\<lparr>m_PacketsOut := 2, m_ActiveSessions := 1\<rparr>) [] [] 2 12 0
     [(1, ConnAck ''accepted'' False 6), (3, ConnAck ''accepted'' True 12)]"

lemma run1_again_auth:
  "authenticate 3 (Inr (connect_packet ''tok'')) run1 =
     (Inr (''d1'', d1_claims, []), stage [(''d1'', run_session d1_claims 3 [] 8 11)] []
       (Metrics_New\<lparr>m_PacketsOut := 2, m_ActiveSessions := 1\<rparr>) [] [] 1 12 0
       [(1, ConnAck ''accepted'' False 6), (3, ConnAck ''accepted'' True 12)])"
  by (simp add: run1_def connect_eval Let_def cong: let_weak_cong)

lemma run1_again_reachable:
  "reachable sample_auth 10 d1_world
     (run1_again, [1 \<mapsto> (''d1'', d1_claims), 3 \<mapsto> (''d1'', d1_claims)])"
proof (rule reachable.step [OF run_reachable(1)])
  show "broker_step (run1, [1 \<mapsto> (''d1'', d1_claims)])
     (run1_again, [1 \<mapsto> (''d1'', d1_claims), 3 \<mapsto> (''d1'', d1_claims)])"
    using accepted [OF _ _ run1_again_auth, of "[1 \<mapsto> (''d1'', d1_claims)]"]
    by (simp add: deliver_calm run1_def run1_again_def numeral_2_eq_2)
qed

lemma run_world [simp]:
  "w_jwt (srv_world (stage sess reg m seen msgs stmts ticks ranges wire)) = sample_lib"
  "srv_auth (stage sess reg m seen msgs stmts ticks ranges wire) = Service_New sample_auth"
  "srv_sessions (stage sess reg m seen msgs stmts ticks ranges wire) = sess"
  "srv_subscriptions (stage sess reg m seen msgs stmts ticks ranges wire) = reg"
  "srv_metrics (stage sess reg m seen msgs stmts ticks ranges wire) = m"
  "w_link (srv_world (stage sess reg m seen msgs stmts ticks ranges wire)) = (\<lambda>_ _ _. None)"
  "w_clock (srv_world (stage sess reg m seen msgs stmts ticks ranges wire)) = (\<lambda>n. int n + 1)"
  "w_ticks (srv_world (stage sess reg m seen msgs stmts ticks ranges wire)) = ticks"
  "w_wire (srv_world (stage sess reg m seen msgs stmts ticks ranges wire)) = wire"
  "db_offline (w_store (srv_world (stage sess reg m seen msgs stmts ticks ranges wire))) = []"
  "db_fault (w_store (srv_world (stage sess reg m seen msgs stmts ticks ranges wire))) = (\<lambda>_. None)"
  by (simp_all add: stage_def calm_world_def empty_store_def)

section \<open>A publication of the device\<close>

definition telemetry_packet :: Packet where
  "telemetry_packet = sample_packet ''t1'' ''device/d1/telemetry''\<lparr>pkt_QoS := 0, pkt_Timestamp := 3\<rparr>"

definition run3_telemetry :: Server where
  "run3_telemetry = stage [(''d1'', run_session d1_claims 1 [command_subscription] 2 10)]
     [(''d1'', [command_subscription])]
     (Metrics_New\<lparr>m_PacketsIn := 2, m_PacketsOut := 2, m_Publishes := 1, m_ActiveSessions := 1,
        m_Subscriptions := 1\<rparr>)
     [(''d1'', \<lparr>rw_resetAt = 60000000008, rw_count = 2\<rparr>)]
     [inbound_message ''d1'' (telemetry_packet\<lparr>pkt_ClientID := ''d1''\<rparr>)] 2 11 1
     [(1, ConnAck ''accepted'' False 6), (1, SubAck ''s'' 9)]"

lemma telemetry_rights:
  "CanPublish d1_claims ''device/d1/telemetry'' = None"
  "\<not> MatchTopic (command_topic ''d1'') ''device/d1/telemetry''"
  using MatchTopic_plain [OF command_topic_plain, of "''d1''" "''device/d1/telemetry''"]
  by (simp_all add: CanPublish_def HasPrefix_def HasSuffix_def claims_fields plain_id_def
      command_topic_def)

lemma run3_telemetry_eval:
  "handlePacket 1 ''d1'' d1_claims telemetry_packet run2 = (True, run3_telemetry)"
  by (simp add: run2_def run3_telemetry_def admit_eval publish_eval telemetry_packet_def
      telemetry_rights cong: let_weak_cong)

lemma run3_telemetry_without:
  "reachable_without ''d1'' sample_auth 10 d1_world (run3_telemetry, [1 \<mapsto> (''d1'', d1_claims)])"
proof (rule reachable_without.continued [OF run2_without])
  show "broker_step (run2, [1 \<mapsto> (''d1'', d1_claims)]) (run3_telemetry, [1 \<mapsto> (''d1'', d1_claims)])"
    by (rule served [OF _ run3_telemetry_eval]) simp
qed (simp add: no_admin_def d1_claims_def)

end
