(* ===== verification/Guarantees.thy ===== *)
theory Guarantees
  imports Scenario
begin

text \<open>
  What the broker's handlers guarantee, one packet or one connection at a time: authentication,
  subscription, publication, offline delivery, acknowledgement and rate limiting.
\<close>

section \<open>Authentication\<close>

lemma reply_wire:
  assumes "fst (reply c b s) = None"
  shows "\<exists>t. w_wire (srv_world (snd (reply c b s))) = w_wire (srv_world s) @ [(c, b t)]"
  using assms by (auto simp: reply_def srv_send_def case_prod_beta Send_wire)

lemma UpsertConnected_result:
  "ses_Subscriptions new = [] \<Longrightarrow> fst (UpsertConnected new t1 t2 sess) =
     (session_known sess (ses_ClientID new), session_subs sess (ses_ClientID new))"
  by (auto simp: UpsertConnected_def Let_def session_known_def session_subs_def split: option.splits)

text \<open>The end of \<open>open_session\<close>: the state in which the \<open>CONNACK\<close> is sent.\<close>

lemma open_session_reply:
  obtains s' where "w_wire (srv_world s') = w_wire (srv_world s)"
    and "w_link (srv_world s') = w_link (srv_world s)"
    and "open_session c cl claims s =
      (case reply c (ConnAck ''accepted'' (session_known (srv_sessions s) cl)) s' of
         (Some err, s) \<Rightarrow> (Inl (''send connack: '' @ err), s)
       | (None, s'') \<Rightarrow> (Inr (cl, claims, session_subs (srv_sessions s) cl), metric inc_PacketsOut s''))"
proof -
  let ?s4 = "snd (srv_now (snd (srv_now (snd (srv_now (snd (srv_now s)))))))"
  let ?u = "UpsertConnected
     \<lparr>ses_ClientID = cl, ses_DeviceID = clm_DeviceID claims, ses_Role = clm_Role claims,
      ses_Claims = claims, ses_Conn = Some c, ses_Online = False, ses_Subscriptions = [],
      ses_ConnectedAt = fst (srv_now s), ses_LastSeenAt = fst (srv_now (snd (srv_now s)))\<rparr>
     (fst (srv_now (snd (srv_now (snd (srv_now s))))))
     (fst (srv_now (snd (srv_now (snd (srv_now (snd (srv_now s)))))))) (srv_sessions s)"
  let ?s' = "metric (set_ActiveSessions (OnlineCount (snd ?u))) (?s4\<lparr>srv_sessions := snd ?u\<rparr>)"
  show thesis
  proof (rule that [of ?s'])
    show "open_session c cl claims s =
      (case reply c (ConnAck ''accepted'' (session_known (srv_sessions s) cl)) ?s' of
         (Some err, s) \<Rightarrow> (Inl (''send connack: '' @ err), s)
       | (None, s'') \<Rightarrow> (Inr (cl, claims, session_subs (srv_sessions s) cl), metric inc_PacketsOut s''))"
      unfolding open_session_def case_prod_beta Let_def by (simp add: UpsertConnected_result cong: option.case_cong)
  qed (simp_all add: srv_now_def case_prod_beta)
qed

lemma open_session_Inr:
  assumes "open_session c cl claims s = (Inr (cl', claims', subs), s1)"
  shows "cl' = cl \<and> claims' = claims \<and> subs = session_subs (srv_sessions s) cl
    \<and> live_conn (srv_sessions s1) cl = Some c
    \<and> (\<exists>t. w_wire (srv_world s1) = w_wire (srv_world s)
         @ [(c, ConnAck ''accepted'' (session_known (srv_sessions s) cl) t)])"
proof -
  obtain s' where w: "w_wire (srv_world s') = w_wire (srv_world s)"
    and o: "open_session c cl claims s =
      (case reply c (ConnAck ''accepted'' (session_known (srv_sessions s) cl)) s' of
         (Some err, s) \<Rightarrow> (Inl (''send connack: '' @ err), s)
       | (None, s'') \<Rightarrow> (Inr (cl, claims, session_subs (srv_sessions s) cl), metric inc_PacketsOut s''))"
    by (rule open_session_reply)
  let ?r = "reply c (ConnAck ''accepted'' (session_known (srv_sessions s) cl)) s'"
  have r: "fst ?r = None" and s1: "s1 = metric inc_PacketsOut (snd ?r)"
    and res: "cl' = cl" "claims' = claims" "subs = session_subs (srv_sessions s) cl"
    using assms unfolding o by (auto split: prod.splits option.splits)
  have "live_conn (srv_sessions s1) cl = Some c"
    using live_open_session [of c cl claims s cl] assms by simp
  with reply_wire [OF r] w s1 res show ?thesis by auto
qed

text \<open>
  C8: a client gets past authentication only with a \<open>CONNECT\<close> packet whose token
  verifies under the broker's secret with an HMAC method, under a non-empty client identifier
  that for a device is the device of the token. Its session then points to this connection, its
  earlier subscriptions are restored, and exactly one packet was sent: the \<open>CONNACK\<close>, which
  tells whether the session existed.
\<close>

theorem authenticate_sound:
  assumes "lib_verifies verify (w_jwt (srv_world s))"
    and "authenticate c received s = (Inr (cl, claims, subs), s1)"
  shows "\<exists>p alg t. received = Inr p \<and> pkt_Type p = PacketConnect
    \<and> verify (HMAC alg) (svc_secret (srv_auth s)) (pkt_Token p)
    \<and> cl \<noteq> [] \<and> (clm_Role claims = ''device'' \<longrightarrow> clm_DeviceID claims = cl)
    \<and> live_conn (srv_sessions s1) cl = Some c
    \<and> subs = session_subs (srv_sessions s) cl \<and> session_subs (srv_sessions s1) cl = subs
    \<and> w_wire (srv_world s1) = w_wire (srv_world s)
        @ [(c, ConnAck ''accepted'' (session_known (srv_sessions s) cl) t)]"
proof -
  from authenticate_InrD [OF assms(2)] obtain s0
    where k: "check_connect received s = (Inr (cl, claims), s0)"
      and o: "open_session c cl claims s0 = (Inr (cl, claims, subs), s1)" by blast
  have s0: "srv_sessions s0 = srv_sessions s" "w_wire (srv_world s0) = w_wire (srv_world s)"
    using check_connect_frame [of received s] k by simp_all
  from check_connect_InrD [OF k] obtain p now where p: "received = Inr p" "pkt_Type p = PacketConnect"
    and parse: "Parse (w_jwt (srv_world s)) now (srv_auth s) (pkt_Token p) = Inr claims"
    and cl: "cl \<noteq> []" "clm_Role claims = ''device'' \<longrightarrow> clm_DeviceID claims = cl" by blast
  from Parse_verified [OF assms(1) parse] obtain alg
    where "verify (HMAC alg) (svc_secret (srv_auth s)) (pkt_Token p)" by blast
  moreover have "session_subs (srv_sessions s1) cl = session_subs (srv_sessions s) cl"
    using open_session_subs [of c cl claims s0 cl] o s0 by simp
  ultimately show ?thesis
    using p cl open_session_Inr [OF o] s0 by auto
qed

text \<open>What the state of the link decides: on a link without errors every reply is sent, on a dead one none.\<close>

lemma reply_linked:
  assumes "\<And>n q. w_link (srv_world s) n c q = None"
  shows "fst (reply c b s) = None"
  using assms by (simp add: reply_def srv_now_def srv_send_def Send_def case_prod_beta TimestampNow_def)

lemma reply_dead:
  assumes "\<And>n q. w_link (srv_world s) n c q = Some e"
  shows "fst (reply c b s) = Some e"
  using assms by (simp add: reply_def srv_now_def srv_send_def Send_def case_prod_beta TimestampNow_def)

text \<open>A \<open>CONNECT\<close> whose token is valid, over a link without errors, is accepted.\<close>

lemma accept_connect:
  assumes "pkt_Type p = PacketConnect"
    and "Parse (w_jwt (srv_world s)) (w_clock (srv_world s) (w_ticks (srv_world s))) (srv_auth s) (pkt_Token p)
      = Inr claims"
    and "cl = (if pkt_ClientID p = [] then clm_ClientID claims else pkt_ClientID p)" and "cl \<noteq> []"
    and "clm_Role claims = ''device'' \<Longrightarrow> clm_DeviceID claims = cl"
    and link: "\<And>n q. w_link (srv_world s) n c q = None"
  shows "\<exists>s1 t. authenticate c (Inr p) s = (Inr (cl, claims, session_subs (srv_sessions s) cl), s1)
    \<and> live_conn (srv_sessions s1) cl = Some c
    \<and> w_wire (srv_world s1) = w_wire (srv_world s)
        @ [(c, ConnAck ''accepted'' (session_known (srv_sessions s) cl) t)]"
proof -
  let ?s0 = "snd (srv_now s)"
  let ?ack = "ConnAck ''accepted'' (session_known (srv_sessions ?s0) cl)"
  have "fst (srv_now s) = w_clock (srv_world s) (w_ticks (srv_world s))"
    by (simp add: srv_now_def TimestampNow_def)
  then have check: "check_connect (Inr p) s = (Inr (cl, claims), ?s0)"
    using assms(1-5) by (auto simp: check_connect_def case_prod_beta Let_def)
  obtain s' where "w_link (srv_world s') = w_link (srv_world ?s0)"
    and o: "open_session c cl claims ?s0 =
      (case reply c ?ack s' of
         (Some err, s) \<Rightarrow> (Inl (''send connack: '' @ err), s)
       | (None, s'') \<Rightarrow> (Inr (cl, claims, session_subs (srv_sessions ?s0) cl), metric inc_PacketsOut s''))"
    by (rule open_session_reply)
  then have "fst (reply c ?ack s') = None"
    using link by (intro reply_linked) (simp add: srv_now_def case_prod_beta)
  then have opened: "open_session c cl claims ?s0 =
      (Inr (cl, claims, session_subs (srv_sessions s) cl), snd (open_session c cl claims ?s0))"
    unfolding o by (simp add: case_prod_beta)
  from open_session_Inr [OF this] show ?thesis
    by (auto simp: authenticate_def check intro!: exI [of _ "snd (open_session c cl claims ?s0)"]
        intro: opened)
qed


text \<open>
  C32: a connection that fails the checks of \<open>authenticate\<close> leaves no trace: sessions,
  subscriptions, limiter and database are as before, one failure is counted, at most the
  \<open>ERROR\<close> packet was sent, and the connection is closed whatever it would have sent next.
\<close>

theorem failed_connect_harmless:
  assumes "fst (check_connect received s) = Inl err"
    and "handleConnection c (received # rest) s = (open, s')"
  shows "\<not> open \<and> srv_sessions s' = srv_sessions s \<and> srv_subscriptions s' = srv_subscriptions s
    \<and> srv_limiter s' = srv_limiter s \<and> w_store (srv_world s') = w_store (srv_world s)
    \<and> m_AuthFailures (srv_metrics s') = m_AuthFailures (srv_metrics s) + 1
    \<and> w_closed (srv_world s') = c # w_closed (srv_world s)
    \<and> (\<exists>outs t. w_wire (srv_world s') = w_wire (srv_world s) @ outs
         \<and> outs \<in> {[], [(c, Error ''AUTH_FAILED'' err t)]})"
proof -
  let ?s0 = "snd (check_connect received s)"
  have s': "open = False" "s' = reject c err ?s0"
    using assms by (simp_all add: authenticate_def case_prod_beta)
  have "\<exists>outs t. w_wire (srv_world (reject c err ?s0)) = w_wire (srv_world ?s0) @ outs
      \<and> outs \<in> {[], [(c, Error ''AUTH_FAILED'' err t)]}"
    by (auto simp: reject_def Let_def reply_def srv_send_def case_prod_beta Send_wire)
  then show ?thesis
    by (simp add: s') (simp add: reject_def Let_def inc_AuthFailures_def)
qed

text \<open>
  C39: when the link breaks before the \<open>CONNACK\<close>, the handler ends and closes the
  connection, but the session it had registered stays online and keeps pointing to it.
\<close>

theorem lost_connack_ghost_session:
  assumes "fst (check_connect received s) = Inr (cl, claims)"
    and "\<And>n q. w_link (srv_world s) n c q = Some e"
    and "handleConnection c (received # rest) s = (open, s')"
  shows "\<not> open \<and> c \<in> set (w_closed (srv_world s')) \<and> live_conn (srv_sessions s') cl = Some c"
proof -
  let ?s0 = "snd (check_connect received s)"
  obtain s1 where link: "w_link (srv_world s1) = w_link (srv_world ?s0)"
    and o: "open_session c cl claims ?s0 =
      (case reply c (ConnAck ''accepted'' (session_known (srv_sessions ?s0) cl)) s1 of
         (Some err, s) \<Rightarrow> (Inl (''send connack: '' @ err), s)
       | (None, s'') \<Rightarrow> (Inr (cl, claims, session_subs (srv_sessions ?s0) cl), metric inc_PacketsOut s''))"
    by (rule open_session_reply)
  have "w_link (srv_world ?s0) = w_link (srv_world s)"
    by (simp add: check_connect_def srv_now_def case_prod_beta Let_def split: sum.splits)
  then have "fst (reply c (ConnAck ''accepted'' (session_known (srv_sessions ?s0) cl)) s1) = Some e"
    using link assms(2) by (intro reply_dead) simp
  then have "fst (open_session c cl claims ?s0) = Inl (''send connack: '' @ e)"
    unfolding o by (simp add: case_prod_beta)
  then have "open = False \<and> s' = reject c (''send connack: '' @ e) (snd (open_session c cl claims ?s0))"
    using assms(1,3) by (simp add: authenticate_def case_prod_beta)
  then show ?thesis by simp
qed

section \<open>Subscribing\<close>

text \<open>
  C26: a \<open>SUBSCRIBE\<close> is all or nothing: when one filter of the batch is not allowed,
  the request fails and the server's state is what it was; otherwise the registry and the session
  both grant every filter of the batch its last requested QoS and keep what they granted before,
  even when the acknowledgement cannot be sent.
\<close>

theorem subscribe_all_or_nothing:
  assumes "srv_core s" and "session_known (srv_sessions s) cl"
    and "handleSubscribe c cl claims p s = (e, s')" and "pkt_Subscriptions p \<noteq> []"
  shows "if \<exists>sub \<in> set (pkt_Subscriptions p). CanSubscribe claims (sub_Topic sub) \<noteq> None
    then e \<noteq> None \<and> s' = s
    else (\<forall>t. granted (Registry_List (srv_subscriptions s') cl) t =
           (case find (\<lambda>sub. sub_Topic sub = t) (rev (pkt_Subscriptions p)) of
              Some sub \<Rightarrow> Some (sub_QoS sub)
            | None \<Rightarrow> granted (Registry_List (srv_subscriptions s) cl) t))
       \<and> session_subs (srv_sessions s') cl = Registry_List (srv_subscriptions s') cl"
proof (cases "check_subscriptions claims (pkt_Subscriptions p)")
  case None
  then have allowed: "\<not> (\<exists>sub \<in> set (pkt_Subscriptions p). CanSubscribe claims (sub_Topic sub) \<noteq> None)"
    by (simp add: check_subscriptions_None)
  have s': "srv_subscriptions s' = Registry_Add (srv_subscriptions s) cl (pkt_Subscriptions p)"
    using assms(3,4) None
    by (auto simp: handleSubscribe_def case_prod_beta Let_def split: option.splits)
  have "srv_core s'" using handleSubscribe_core [OF assms(1,2), of c claims p] assms(3) by simp
  then have "session_subs (srv_sessions s') cl = Registry_List (srv_subscriptions s') cl"
    by (simp add: srv_core_def core_inv_def)
  with allowed registry.granted_add [of "srv_subscriptions s" cl "pkt_Subscriptions p"] s'
  show ?thesis by simp
next
  case (Some err)
  then have "\<exists>sub \<in> set (pkt_Subscriptions p). CanSubscribe claims (sub_Topic sub) \<noteq> None"
    using check_subscriptions_None [of claims "pkt_Subscriptions p"] by auto
  moreover have "e = Some err" and "s' = s"
    using Some assms(3,4) by (simp_all add: handleSubscribe_def)
  ultimately show ?thesis by simp
qed

section \<open>Rate limiting\<close>

text \<open>
  C33: a packet over the limit has no effect but its counters, the session's last-seen
  time and an \<open>ERROR\<close> reply, whatever it asks for; the connection stays open.
\<close>

theorem limited_packet_ignored:
  assumes "\<not> fst (admit cl s)" and "handlePacket c cl claims p s = (open, s')"
  shows "open \<and> srv_subscriptions s' = srv_subscriptions s
    \<and> w_store (srv_world s') = w_store (srv_world s)
    \<and> live_conn (srv_sessions s') = live_conn (srv_sessions s)
    \<and> m_RateLimited (srv_metrics s') = m_RateLimited (srv_metrics s) + 1
    \<and> (\<exists>outs t. w_wire (srv_world s') = w_wire (srv_world s) @ outs
         \<and> outs \<in> {[], [(c, Error ''RATE_LIMITED'' ''too many packets'' t)]})"
proof -
  let ?s0 = "metric inc_RateLimited (snd (admit cl s))"
  let ?r = "reply c (Error ''RATE_LIMITED'' ''too many packets'') ?s0"
  have s': "open = True" "s' = snd ?r"
    using assms by (simp_all add: handlePacket_def case_prod_beta)
  have "\<exists>outs t. w_wire (srv_world (snd ?r)) = w_wire (srv_world ?s0) @ outs
      \<and> outs \<in> {[], [(c, Error ''RATE_LIMITED'' ''too many packets'' t)]}"
    by (auto simp: reply_def srv_send_def case_prod_beta Send_wire)
  moreover have "m_RateLimited (srv_metrics (snd (admit cl s))) = m_RateLimited (srv_metrics s)"
    by (simp add: admit_def case_prod_beta Let_def inc_PacketsIn_def)
  ultimately show ?thesis by (simp add: s' inc_RateLimited_def)
qed

section \<open>Offline delivery\<close>

lemma deliver_loop_all:
  "fst (deliver_loop c ps s) = None \<Longrightarrow>
     w_wire (srv_world (snd (deliver_loop c ps s))) = w_wire (srv_world s) @ map (Pair c) ps"
proof (induction ps arbitrary: s)
  case Nil
  then show ?case by simp
next
  case (Cons p ps)
  then show ?case
    by (auto simp: case_prod_beta srv_send_def Send_wire split: option.splits)
qed

text \<open>The packets sent by an offline delivery are the rows of the client, in order.\<close>

lemma deliverOffline_rows:
  assumes "deliverOffline cl c s = (None, s')"
  shows "\<exists>rows. mset rows = filter_mset (\<lambda>r. off_ClientID r = cl) (mset (db_offline (w_store (srv_world s))))
    \<and> sorted (map off_AvailableAt rows)
    \<and> w_wire (srv_world s') =
        w_wire (srv_world s) @ map (\<lambda>r. (c, pending_packet (scanOffline r))) rows
    \<and> db_offline (w_store (srv_world s')) = db_offline (w_store (srv_world s))"
proof -
  from assms obtain ps where ps: "fst (Pending cl (srv_world s)) = Inr ps"
    by (cases "fst (Pending cl (srv_world s))") (auto simp: deliverOffline_def case_prod_beta)
  let ?s0 = "s\<lparr>srv_world := snd (Pending cl (srv_world s))\<rparr>"
  have loop: "deliver_loop c ps ?s0 = (None, s')"
    using assms ps by (simp add: deliverOffline_def case_prod_beta)
  then have "w_wire (srv_world s') = w_wire (srv_world s) @ map (Pair c) ps"
    using deliver_loop_all [of c ps ?s0] by simp
  moreover have "db_offline (w_store (srv_world s')) = db_offline (w_store (srv_world s))"
    using deliver_loop_frame(5) [of c ps ?s0] loop by simp
  moreover obtain rows where "ps = map (pending_packet \<circ> scanOffline) rows"
    and "mset rows = filter_mset (\<lambda>r. off_ClientID r = cl) (mset (db_offline (w_store (srv_world s))))"
    and "sorted (map off_AvailableAt rows)"
    using Pending_rows [OF ps] by blast
  ultimately show ?thesis by (intro exI [of _ rows]) (simp add: comp_def)
qed

text \<open>
  C9: when offline delivery reports no error, every message queued for the client, and
  no other, was sent on its connection, the ones available first first; the queue is unchanged
  (only a \<open>PUBACK\<close> removes from it).
\<close>

theorem deliverOffline_complete:
  assumes "deliverOffline cl c s = (None, s')"
  shows "\<exists>rows. mset rows = filter_mset (\<lambda>r. off_ClientID r = cl) (mset (db_offline (w_store (srv_world s))))
    \<and> sorted (map off_AvailableAt rows)
    \<and> w_wire (srv_world s') =
        w_wire (srv_world s) @ map (\<lambda>r. (c, pending_packet (scanOffline r))) rows
    \<and> db_offline (w_store (srv_world s')) = db_offline (w_store (srv_world s))"
  by (rule deliverOffline_rows [OF assms])

section \<open>Acknowledgements\<close>

text \<open>
  C38: a \<open>PUBACK\<close> is not tied to its sender: with a database that does not fail, the
  acknowledgement of any client removes the queued message of another client.
\<close>

theorem puback_removes_foreign_row:
  assumes "row \<in> set (db_offline (w_store (srv_world s)))" and "off_ClientID row \<noteq> cl"
    and "\<And>n. db_fault (w_store (srv_world s)) n = None"
    and "pkt_Type p = PacketPubAck" and "pkt_PacketID p = off_PacketID row"
  shows "row \<notin> set (db_offline (w_store (srv_world (snd (dispatch c cl claims p s)))))"
  using assms
  by (simp add: dispatch_def handlePubAck_def case_prod_beta Let_def Ack_def
      DeleteOfflineMessage_def MarkMessageAcknowledged_def db_exec_def srv_store_def on_store_def)

text \<open>
  A \<open>PUBACK\<close> always lowers the gauge of the offline queue, also when the queue does
  not hold the packet (every packet that was delivered online): the gauge can fall below the
  number of queued messages, and below zero.
\<close>

lemma puback_gauge_drifts:
  assumes "pkt_PacketID p \<notin> queued_ids (srv_world s)"
    and "\<And>n. db_fault (w_store (srv_world s)) n = None" and "pkt_Type p = PacketPubAck"
  shows "db_offline (w_store (srv_world (snd (dispatch c cl claims p s)))) = db_offline (w_store (srv_world s))
    \<and> m_OfflineQueue (srv_metrics (snd (dispatch c cl claims p s))) = m_OfflineQueue (srv_metrics s) - 1"
proof -
  have "filter (\<lambda>m. off_PacketID m \<noteq> pkt_PacketID p) (db_offline (w_store (srv_world s)))
      = db_offline (w_store (srv_world s))"
    using assms(1) by (force simp: queued_ids_def filter_id_conv)
  with assms(2,3) show ?thesis
    by (simp add: dispatch_def handlePubAck_def case_prod_beta Let_def Ack_def
        DeleteOfflineMessage_def MarkMessageAcknowledged_def db_exec_def srv_store_def on_store_def
        add_OfflineQueue_def)
qed

section \<open>Publishing\<close>

lemma handlePublish_NoneD:
  assumes "handlePublish c cl claims p s = (None, s')" and "0 < pkt_QoS p"
  shows "let cp = complete_packet cl p s;
      s1 = metric inc_Publishes (snd (srv_store (SaveMessage (inbound_message cl (fst cp))) (snd cp)));
      s2 = snd (srv_route (fst cp) s1)
    in snd (fst (srv_route (fst cp) s1)) = None
      \<and> fst (reply c (PubAck (pkt_PacketID (fst cp))) s2) = None
      \<and> s' = metric inc_PacketsOut (snd (reply c (PubAck (pkt_PacketID (fst cp))) s2))"
  using assms
  by (simp add: handlePublish_def case_prod_beta Let_def split: if_splits option.splits)

lemma complete_packet_id: "pkt_PacketID p \<noteq> [] \<Longrightarrow> pkt_PacketID (fst (complete_packet cl p s)) = pkt_PacketID p"
  by (simp add: complete_packet_def case_prod_beta)

lemma reply_queued [simp]: "queued_ids (srv_world (snd (reply c b s))) = queued_ids (srv_world s)"
  by (simp add: queued_ids_def)

text \<open>The fan-out of one packet from the server's state, for one matching subscription.\<close>

lemma srv_route_no_loss:
  assumes "snd (fst (srv_route p s)) = None" and "srv_core s"
    and sub: "sub \<in> set (Registry_List (srv_subscriptions s) d)"
    and m: "MatchTopic (sub_Topic sub) (pkt_Topic p)"
  shows "(\<exists>k q. live_conn (srv_sessions s) d = Some k
      \<and> (k, q) \<in> set (drop (length (w_wire (srv_world s))) (w_wire (srv_world (snd (srv_route p s)))))
      \<and> pkt_PacketID q = pkt_PacketID p \<and> pkt_Topic q = pkt_Topic p
      \<and> pkt_QoS q = min (pkt_QoS p) (sub_QoS sub)
      \<and> pkt_Payload q = (if pkt_Payload p = Some [] then None else pkt_Payload p))
    \<or> min (pkt_QoS p) (sub_QoS sub) \<le> 0
    \<or> pkt_PacketID p \<in> queued_ids (srv_world (snd (srv_route p s)))"
proof -
  obtain order w where wire: "w_wire w = w_wire (srv_world s)"
    and order: "set order = fst ` set (srv_subscriptions s)" and r: "srv_route p s =
      (case Route_loop Send Enqueue (srv_sessions s) p
              (Registry_Match order (srv_subscriptions s) (pkt_Topic p)) 0 (srv_metrics s) w of
         (r, m, w) \<Rightarrow> (r, s\<lparr>srv_metrics := m, srv_world := w\<rparr>))"
    by (rule srv_route_loop)
  let ?ms = "Registry_Match order (srv_subscriptions s) (pkt_Topic p)"
  let ?mt = "\<lparr>mt_ClientID = d, mt_Filter = sub_Topic sub, mt_QoS = sub_QoS sub\<rparr>"
  obtain n e m' w' where loop: "Route_loop Send Enqueue (srv_sessions s) p ?ms 0 (srv_metrics s) w
      = ((n, e), m', w')"
    by (metis prod.exhaust)
  have e: "e = None" using assms(1) by (simp add: r loop)
  have mt: "?mt \<in> set ?ms"
    using sub m order by (subst Registry_Match_keys) auto
  have "session_subs (srv_sessions s) d \<noteq> []"
    using assms(2) sub by (auto simp: srv_core_def core_inv_def)
  then have "session_known (srv_sessions s) (mt_ClientID ?mt)"
    using session_subs_unknown by auto
  from fanout.Route_loop_no_loss [OF loop [unfolded e] mt this]
  have "(\<exists>k. live_conn (srv_sessions s) d = Some k
      \<and> (k, outbound p ?mt) \<in> set (drop (length (w_wire (srv_world s))) (w_wire w')))
    \<or> min (pkt_QoS p) (sub_QoS sub) \<le> 0 \<or> pkt_PacketID p \<in> queued_ids w'"
    by (simp add: wire)
  moreover have "pkt_PacketID (outbound p ?mt) = pkt_PacketID p
      \<and> pkt_Topic (outbound p ?mt) = pkt_Topic p
      \<and> pkt_QoS (outbound p ?mt) = min (pkt_QoS p) (sub_QoS sub)
      \<and> pkt_Payload (outbound p ?mt) = (if pkt_Payload p = Some [] then None else pkt_Payload p)"
    by simp
  moreover have "srv_world (snd (srv_route p s)) = w'" by (simp add: r loop)
  ultimately show ?thesis by metis
qed

lemma handlePublish_no_loss:
  assumes "srv_core s"
    and "handlePublish c cl claims p s = (None, s')" and "1 \<le> pkt_QoS p"
    and "sub \<in> set (Registry_List (srv_subscriptions s) d)"
    and "MatchTopic (sub_Topic sub) (pkt_Topic p)" and "1 \<le> sub_QoS sub"
  shows "\<exists>outs i t. w_wire (srv_world s') = w_wire (srv_world s) @ outs @ [(c, PubAck i t)]
    \<and> (pkt_PacketID p \<noteq> [] \<longrightarrow> i = pkt_PacketID p)
    \<and> ((\<exists>k q. live_conn (srv_sessions s) d = Some k \<and> (k, q) \<in> set outs
          \<and> pkt_PacketID q = i \<and> pkt_Topic q = pkt_Topic p \<and> 1 \<le> pkt_QoS q
          \<and> pkt_Payload q = (if pkt_Payload p = Some [] then None else pkt_Payload p))
       \<or> i \<in> queued_ids (srv_world s'))"
proof -
  define q where "q = fst (complete_packet cl p s)"
  define s1 where "s1 = metric inc_Publishes
    (snd (srv_store (SaveMessage (inbound_message cl q)) (snd (complete_packet cl p s))))"
  define s2 where "s2 = snd (srv_route q s1)"
  have route: "snd (fst (srv_route q s1)) = None"
    and ack: "fst (reply c (PubAck (pkt_PacketID q)) s2) = None"
    and s': "s' = metric inc_PacketsOut (snd (reply c (PubAck (pkt_PacketID q)) s2))"
    using handlePublish_NoneD [OF assms(2)] assms(3) by (simp_all add: q_def s1_def s2_def Let_def)
  have s1: "srv_sessions s1 = srv_sessions s" "srv_subscriptions s1 = srv_subscriptions s"
    "w_wire (srv_world s1) = w_wire (srv_world s)" "srv_core s1 = srv_core s"
    by (simp_all add: s1_def srv_core_def)
  have q: "pkt_Topic q = pkt_Topic p" "pkt_QoS q = pkt_QoS p" "pkt_Payload q = pkt_Payload p" by (simp_all add: q_def)
  have core: "srv_core s1"
    using assms(1) s1(4) by simp
  have "emits (to_subscriber s1) s1 s2" unfolding s2_def by (rule srv_route_emits)
  then obtain outs where outs: "w_wire (srv_world s2) = w_wire (srv_world s) @ outs"
    using s1(3) by (auto simp: emits_def)
  obtain t where wire: "w_wire (srv_world s') = w_wire (srv_world s2) @ [(c, PubAck (pkt_PacketID q) t)]"
    using reply_wire [OF ack] s' by auto
  have "(\<exists>k r. live_conn (srv_sessions s) d = Some k \<and> (k, r) \<in> set outs
      \<and> pkt_PacketID r = pkt_PacketID q \<and> pkt_Topic r = pkt_Topic p \<and> 1 \<le> pkt_QoS r
      \<and> pkt_Payload r = (if pkt_Payload p = Some [] then None else pkt_Payload p))
    \<or> pkt_PacketID q \<in> queued_ids (srv_world s2)"
    using srv_route_no_loss [OF route core, of sub d] assms(3-6) s1(1-3) q outs
    by (fastforce simp flip: s2_def)
  moreover have "pkt_PacketID p \<noteq> [] \<longrightarrow> pkt_PacketID q = pkt_PacketID p"
    by (simp add: q_def complete_packet_id)
  moreover have "queued_ids (srv_world s') = queued_ids (srv_world s2)" by (simp add: s')
  ultimately show ?thesis
    unfolding wire outs by (intro exI [of _ outs] exI [of _ "pkt_PacketID q"] exI [of _ t]) simp
qed

text \<open>
  C2: a publication with QoS 1 that the broker acknowledges is not lost: in every
  reachable state and for every subscription that matches its topic and asks for QoS 1, the
  packet was sent, with the published payload (an empty one as none), on the subscriber's live
  connection or the offline queue holds its identifier, before the \<open>PUBACK\<close> with this identifier went to the publisher.
\<close>

theorem acknowledged_publish_not_lost:
  assumes "reachable auth rate w0 (s, A)" and "store_wf (w_store w0)"
    and "handlePublish c cl claims p s = (None, s')" and "1 \<le> pkt_QoS p"
    and "sub \<in> set (Registry_List (srv_subscriptions s) d)"
    and "MatchTopic (sub_Topic sub) (pkt_Topic p)" and "1 \<le> sub_QoS sub"
  shows "\<exists>outs i t. w_wire (srv_world s') = w_wire (srv_world s) @ outs @ [(c, PubAck i t)]
    \<and> (pkt_PacketID p \<noteq> [] \<longrightarrow> i = pkt_PacketID p)
    \<and> ((\<exists>k q. live_conn (srv_sessions s) d = Some k \<and> (k, q) \<in> set outs
          \<and> pkt_PacketID q = i \<and> pkt_Topic q = pkt_Topic p \<and> 1 \<le> pkt_QoS q
          \<and> pkt_Payload q = (if pkt_Payload p = Some [] then None else pkt_Payload p))
       \<or> i \<in> queued_ids (srv_world s'))"
proof -
  from reachable_inv [OF assms(1,2)] have "srv_core s" by (simp add: broker_inv_def)
  from handlePublish_no_loss [OF this assms(3-7)] show ?thesis .
qed

section \<open>Connections\<close>

lemma handle_loop_steps:
  assumes "A c = Some (cl, claims)" and "handle_loop c cl claims rs s = (open, s')"
  shows "broker_step\<^sup>*\<^sup>* (s, A) (s', if open then A else A(c := None))"
  using assms
proof (induction c cl claims rs s rule: handle_loop.induct)
  case (1 c cl claims s)
  then show ?case by auto
next
  case (2 c cl claims err rest s)
  then have end_state: "open = False" "s' = leave c cl s" by simp_all
  show ?case
    unfolding end_state if_False by (rule r_into_rtranclp [of broker_step, OF lost [of A, OF 2(1)]])
next
  case (3 c cl claims packet rest s)
  show ?case
  proof (cases "handlePacket c cl claims packet s")
    case (Pair go s1)
    show ?thesis
    proof (cases go)
      case True
      with Pair have "broker_step (s, A) (s1, A)"
        using 3(2) by (intro served) simp_all
      moreover have "broker_step\<^sup>*\<^sup>* (s1, A) (s', if open then A else A(c := None))"
        using 3 Pair True by simp
      ultimately show ?thesis by (rule converse_rtranclp_into_rtranclp)
    next
      case False
      with Pair 3(3) have end_state: "open = False" "s' = leave c cl s1" by simp_all
      have "broker_step (s, A) (leave c cl s1, A(c := None))"
        using Pair False by (intro stopped [of A, OF 3(2)]) simp
      then show ?thesis unfolding end_state if_False by (rule r_into_rtranclp [of broker_step])
    qed
  qed
qed

text \<open>
  C20: the code's handler of one connection, run to its end or to where it waits for the
  next packet, is a sequence of steps of the step relation, on any state the other handlers may
  have left; a handler that ended is no longer among the running ones, and no other handler is
  touched.
\<close>

theorem handleConnection_refines:
  assumes "A c = None" and "c \<notin> set (w_closed (srv_world s))"
    and "handleConnection c (received # rest) s = (open, s')"
  shows "\<exists>A'. broker_step\<^sup>*\<^sup>* (s, A) (s', A') \<and> (A' c \<noteq> None \<longleftrightarrow> open) \<and> (\<forall>k. k \<noteq> c \<longrightarrow> A' k = A k)"
proof (cases "fst (authenticate c received s)")
  case (Inl err)
  then have auth: "authenticate c received s = (Inl err, snd (authenticate c received s))"
    by (simp add: prod_eq_iff)
  from Inl assms(3) have "open = False" "s' = reject c err (snd (authenticate c received s))"
    by (simp_all add: case_prod_beta)
  with rejected [of A, OF assms(1,2) auth] assms(1) show ?thesis
    by (intro exI [of _ A]) auto
next
  case (Inr x)
  obtain cl claims subs where x: "x = (cl, claims, subs)" by (cases x)
  define s1 where "s1 = snd (authenticate c received s)"
  have auth: "authenticate c received s = (Inr (cl, claims, subs), s1)"
    using Inr x by (simp add: prod_eq_iff s1_def)
  let ?A = "A(c \<mapsto> (cl, claims))"
  have "handle_loop c cl claims rest (snd (deliverOffline cl c s1)) = (open, s')"
    using assms(3) auth by simp
  then have "broker_step\<^sup>*\<^sup>* (snd (deliverOffline cl c s1), ?A) (s', if open then ?A else ?A(c := None))"
    by (intro handle_loop_steps) simp_all
  with accepted [of A, OF assms(1,2) auth]
  have "broker_step\<^sup>*\<^sup>* (s, A) (s', if open then ?A else ?A(c := None))"
    by (rule converse_rtranclp_into_rtranclp)
  then show ?thesis
    by (intro exI [of _ "if open then ?A else ?A(c := None)"]) simp
qed

lemma handle_loop_ends:
  assumes "Inl err \<in> set received"
  shows "\<not> fst (handle_loop c cl claims received s)
    \<and> c \<in> set (w_closed (srv_world (snd (handle_loop c cl claims received s))))
    \<and> live_conn (srv_sessions (snd (handle_loop c cl claims received s))) cl = None"
  using assms
  by (induction c cl claims received s rule: handle_loop.induct) (auto split: prod.splits bool.splits)

text \<open>
  C10: a handler ends. Whatever its client sent before and however the broker answered, as soon
  as \<open>Receive\<close> fails (the peer is gone, the read deadline passes, or a packet cannot be decoded)
  the handler returns and its connection is closed; a client that had been admitted then has no
  live connection, and a connection that had not been admitted was rejected.
\<close>

theorem handler_ends:
  assumes "Inl err \<in> set received"
  shows "\<not> fst (handleConnection c received s)
    \<and> c \<in> set (w_closed (srv_world (snd (handleConnection c received s))))
    \<and> (case authenticate c (hd received) s of
         (Inl e, s1) \<Rightarrow> snd (handleConnection c received s) = reject c e s1
       | (Inr (cl, claims, subs), s1) \<Rightarrow>
           live_conn (srv_sessions (snd (handleConnection c received s))) cl = None)"
proof (cases received)
  case Nil
  with assms show ?thesis by simp
next
  case (Cons first rest)
  obtain r s1 where a: "authenticate c first s = (r, s1)" by (metis prod.exhaust)
  show ?thesis
  proof (cases r)
    case (Inl e)
    then show ?thesis by (simp add: Cons a)
  next
    case (Inr adm)
    obtain cl claims subs where adm: "adm = (cl, claims, subs)" by (metis prod.exhaust)
    have "first \<noteq> Inl err" using a Inr by (auto simp: authenticate_def check_connect_def case_prod_beta)
    with assms have "Inl err \<in> set rest" by (simp add: Cons)
    from handle_loop_ends [OF this] show ?thesis by (simp add: Cons a Inr adm)
  qed
qed

text \<open>
  C36: \<open>Disconnect\<close> goes by the client identifier alone: when a client has connected a
  second time, the end of its first connection takes the session offline although the handler of
  the second one is still running.
\<close>

theorem old_connection_ends_new_session:
  assumes "reachable auth rate w0 (s, A)" and "A old = Some (cl, claims)" and "A new = Some (cl, claims')"
    and "old \<noteq> new"
  shows "\<exists>s' A'. broker_step (s, A) (s', A') \<and> reachable auth rate w0 (s', A')
    \<and> A' new = Some (cl, claims') \<and> live_conn (srv_sessions s') cl = None"
proof -
  have "broker_step (s, A) (leave old cl s, A(old := None))" using assms(2) by (rule lost)
  moreover from reachable.step [OF assms(1) this]
  have "reachable auth rate w0 (leave old cl s, A(old := None))" .
  ultimately show ?thesis
    using assms(3,4) by (intro exI [of _ "leave old cl s"] exI [of _ "A(old := None)"]) simp
qed

section \<open>Concrete runs\<close>

theorem authenticate_sound_witness:
  "live_conn (srv_sessions (snd (authenticate 1 (Inr (connect_packet ''tok'')) run0))) ''d1'' = Some 1
   \<and> svc_secret (srv_auth run0) = ''key''"
proof -
  have "lib_verifies (\<lambda>m k t. k = ''key'' \<and> t \<in> {''tok'', ''adm''}) (w_jwt (srv_world run0))"
    using sample_lib_verifies by (simp add: run0_def)
  from authenticate_sound [OF this run1_auth] show ?thesis unfolding run1_auth snd_conv by blast
qed


theorem failed_connect_harmless_witness:
  "let s' = snd (handleConnection 1 [Inr (connect_packet ''bad'')] run0)
   in srv_sessions s' = [] \<and> m_AuthFailures (srv_metrics s') = 1"
proof -
  have "fst (check_connect (Inr (connect_packet ''bad'')) run0) = Inl ''parse jwt: signature is invalid''"
    by (simp add: run0_def check_connect_def connect_packet_def zero_Packet_def srv_now_def
        TimestampNow_def case_prod_beta Parse_def sample_lib_def table_lib_def SigningMethodHS256_def
        stage_def calm_world_def)
  from failed_connect_harmless [OF this prod.collapse [symmetric], of 1 "[]"] show ?thesis
    by (simp add: run0_def Metrics_New_def Let_def del: handleConnection.simps)
qed

definition dead_run0 :: Server where
  "dead_run0 = run0\<lparr>srv_world := (srv_world run0)\<lparr>w_link := (\<lambda>_ _ _. Some ''closed'')\<rparr>\<rparr>"

theorem lost_connack_ghost_session_witness:
  "let s' = snd (handleConnection 1 [Inr (connect_packet ''tok'')] dead_run0)
   in 1 \<in> set (w_closed (srv_world s')) \<and> live_conn (srv_sessions s') ''d1'' = Some 1"
proof -
  have "fst (check_connect (Inr (connect_packet ''tok'')) dead_run0) = Inr (''d1'', d1_claims)"
    by (simp add: dead_run0_def run0_def check_connect_def connect_packet_def zero_Packet_def
        srv_now_def TimestampNow_def case_prod_beta sample_Parse claims_fields stage_def calm_world_def)
  moreover have "w_link (srv_world dead_run0) n 1 q = Some ''closed''" for n q
    by (simp add: dead_run0_def)
  ultimately show ?thesis
    using lost_connack_ghost_session [OF _ _ prod.collapse [symmetric],
        of "Inr (connect_packet ''tok'')" dead_run0 "''d1''" d1_claims 1 "''closed''" "[]"]
    by (simp add: Let_def del: handleConnection.simps)
qed

theorem subscribe_all_or_nothing_witness:
  "granted (Registry_List (srv_subscriptions
     (snd (handleSubscribe 1 ''d1'' d1_claims subscribe_packet run1))) ''d1'') (command_topic ''d1'') = Some 1"
proof -
  have "srv_core run1" using reachable_inv [OF run_reachable(1)] by (simp add: broker_inv_def)
  moreover have "session_known (srv_sessions run1) ''d1''" by (simp add: run1_def session_known_def)
  moreover have "pkt_Subscriptions subscribe_packet = [command_subscription]"
    by (simp add: subscribe_packet_def)
  ultimately show ?thesis
    using subscribe_all_or_nothing [OF _ _ prod.collapse [symmetric], where s = run1 and cl = "''d1''"
        and p = subscribe_packet and c = 1 and claims = d1_claims]
    by (simp add: command_subscription_def sample_rights)
qed

definition limited_run :: Server where
  "limited_run = run2\<lparr>srv_limiter := \<lparr>rl_limit = 1, rl_window = 60000000000,
     rl_seen = [(''d1'', \<lparr>rw_resetAt = 60000000008, rw_count = 1\<rparr>)]\<rparr>\<rparr>"

theorem limited_packet_ignored_witness:
  "let s' = snd (handlePacket 1 ''d1'' d1_claims subscribe_packet limited_run)
   in m_RateLimited (srv_metrics s') = 1 \<and> srv_subscriptions s' = srv_subscriptions run2"
proof -
  have "\<not> fst (admit ''d1'' limited_run)"
    by (simp add: limited_run_def run2_def admit_eval cong: let_weak_cong)
  from limited_packet_ignored [OF this prod.collapse [symmetric], of 1 d1_claims subscribe_packet]
  show ?thesis by (simp add: Let_def limited_run_def run2_def Metrics_New_def)
qed

definition queue_run :: Server where
  "queue_run = run0\<lparr>srv_world := two_queued\<rparr>"

definition d1_row :: OfflineMessage where
  "d1_row = \<lparr>off_PacketID = ''1'', off_ClientID = ''d1'', off_Topic = ''t'', off_QoS = 1,
     off_Payload = Some ''{}'', off_EnqueuedAt = 2, off_AvailableAt = 2\<rparr>"

lemma queue_run_facts:
  "d1_row \<in> set (db_offline (w_store (srv_world queue_run)))"
  "db_fault (w_store (srv_world queue_run)) n = None"
  "fst (deliverOffline ''d2'' 3 queue_run) = None"
  by (simp_all add: queue_run_def d1_row_def two_queued_def Enqueue_def EnqueueOfflineMessage_def
      d1_world_def calm_world_def empty_store_def TimestampNow_def on_store_def db_exec_def
      offline_row_def column_smallint_def column_jsonb_def insert_offline_def sample_packet_def
      zero_Packet_def default_payload_def raw_len_def deliverOffline_def Pending_def
      GetOfflineMessages_def scan_def insort_key_def srv_send_def Send_def)

theorem deliverOffline_complete_witness:
  "\<exists>rows. sorted (map off_AvailableAt rows)
     \<and> w_wire (srv_world (snd (deliverOffline ''d2'' 3 queue_run))) =
         w_wire (srv_world queue_run) @ map (\<lambda>r. (3, pending_packet (scanOffline r))) rows"
proof -
  have "deliverOffline ''d2'' 3 queue_run = (None, snd (deliverOffline ''d2'' 3 queue_run))"
    using queue_run_facts(3) by (simp add: prod_eq_iff)
  from deliverOffline_complete [OF this] show ?thesis by blast
qed

theorem puback_removes_foreign_row_witness:
  "d1_row \<notin> set (db_offline (w_store (srv_world (snd (dispatch 3 ''d2'' d1_claims
     (zero_Packet\<lparr>pkt_Type := PacketPubAck, pkt_PacketID := ''1''\<rparr>) queue_run)))))"
  using puback_removes_foreign_row [OF queue_run_facts(1), of "''d2''"
      "zero_Packet\<lparr>pkt_Type := PacketPubAck, pkt_PacketID := ''1''\<rparr>" 3 d1_claims] queue_run_facts(2)
  by (simp add: d1_row_def)

lemma puback_gauge_drifts_instance:
  "m_OfflineQueue (srv_metrics (snd (dispatch 1 ''d1'' d1_claims
     (zero_Packet\<lparr>pkt_Type := PacketPubAck, pkt_PacketID := ''c1''\<rparr>) run1))) = -1"
  using puback_gauge_drifts [of "zero_Packet\<lparr>pkt_Type := PacketPubAck, pkt_PacketID := ''c1''\<rparr>" run1 1
      "''d1''" d1_claims]
  by (simp add: run1_def queued_ids_def Metrics_New_def)

lemma run3_publish: "fst (handlePublish 2 ''ops'' admin_claims command_packet run3) = None"
  by (simp add: run3_def publish_eval run_session_def surroundings_eval cong: let_weak_cong)

theorem acknowledged_publish_not_lost_witness:
  "\<exists>outs i t. w_wire (srv_world (snd (handlePublish 2 ''ops'' admin_claims command_packet run3))) =
     w_wire (srv_world run3) @ outs @ [(2, PubAck i t)] \<and> i = ''c1''"
proof -
  have p: "handlePublish 2 ''ops'' admin_claims command_packet run3 =
      (None, snd (handlePublish 2 ''ops'' admin_claims command_packet run3))"
    using run3_publish by (simp add: prod_eq_iff)
  have packet: "1 \<le> pkt_QoS command_packet" "pkt_PacketID command_packet = ''c1''"
    "pkt_Topic command_packet = command_topic ''d1''"
    by (simp_all add: command_packet_def sample_packet_def)
  have sub: "command_subscription \<in> set (Registry_List (srv_subscriptions run3) ''d1'')"
    and m: "MatchTopic (sub_Topic command_subscription) (pkt_Topic command_packet)"
    and q: "1 \<le> sub_QoS command_subscription"
    by (simp_all add: run3_def Registry_List_def command_subscription_def packet sample_rights)
  from acknowledged_publish_not_lost [OF run_reachable(3) _ p packet(1) sub m q] packet(2)
  show ?thesis by fastforce
qed

theorem handleConnection_refines_witness:
  "\<exists>A'. broker_step\<^sup>*\<^sup>* (run0, Map.empty) (run2, A') \<and> A' 1 \<noteq> None"
proof -
  have "handleConnection 1 [Inr (connect_packet ''tok''), Inr subscribe_packet] run0 = (True, run2)"
    using run2_eval by (simp add: run1_auth [simplified] deliver_calm run1_def)
  from handleConnection_refines [OF _ _ this, of Map.empty] show ?thesis by (auto simp: run0_def)
qed

theorem old_connection_ends_new_session_witness:
  "\<exists>s' A'. reachable sample_auth 10 d1_world (s', A') \<and> A' 3 = Some (''d1'', d1_claims)
     \<and> live_conn (srv_sessions s') ''d1'' = None"
  using old_connection_ends_new_session [OF run1_again_reachable, of 1 "''d1''" d1_claims 3 d1_claims]
  by auto

theorem handler_ends_witness:
  "live_conn (srv_sessions (snd (handleConnection 1
     [Inr (connect_packet ''tok''), Inr subscribe_packet, Inl ''EOF''] run0))) ''d1'' = None"
  using handler_ends [of "''EOF''" "[Inr (connect_packet ''tok''), Inr subscribe_packet, Inl ''EOF'']" 1 run0]
  by (simp add: run1_auth [simplified] del: handleConnection.simps)

end
