(* ===== verification/Client.thy ===== *)
theory Client
  imports World Config
begin

text \<open>
  The client library, \<open>pkg/qtt/client/client.go\<close>. A client lives in the surroundings of its
  own process, a value of type \<open>world\<close>: its stream is the connection \<open>cli_stream\<close>,
  whose writes succeed or fail like the broker's (deadlines included), and what it writes is
  appended to the log of written packets. What a call of \<open>Decode\<close> on the stream returns is
  an argument of the operations that read. The QUIC library's \<open>DialAddr\<close> and
  \<open>OpenStreamSync\<close> are arguments of \<open>Client_Dial\<close>.
\<close>

section \<open>Data\<close>

record ClientConfig =
  ccf_Addr :: string
  ccf_ClientID :: string
  ccf_Token :: string
  ccf_ProtocolName :: string
  ccf_WriteTimeout :: duration
  ccf_ReadTimeout :: duration

record Client =
  cli_cfg :: ClientConfig
  cli_stream :: conn

section \<open>Operations\<close>

text \<open>The defaults that \<open>Dial\<close> fills in.\<close>

definition dial_config :: "ClientConfig \<Rightarrow> ClientConfig" where
  "dial_config cfg =
     (let cfg = (if ccf_ProtocolName cfg = [] then cfg\<lparr>ccf_ProtocolName := ''crabmq-qtt''\<rparr> else cfg);
          cfg = (if ccf_WriteTimeout cfg \<le> 0 then cfg\<lparr>ccf_WriteTimeout := 5 * Second\<rparr> else cfg)
      in if ccf_ReadTimeout cfg \<le> 0 then cfg\<lparr>ccf_ReadTimeout := 45 * Second\<rparr> else cfg)"

definition Client_Dial ::
  "(ClientConfig \<Rightarrow> error + conn) \<Rightarrow> (conn \<Rightarrow> error option) \<Rightarrow> ClientConfig \<Rightarrow> world \<Rightarrow>
   (error + Client) \<times> world" where
  "Client_Dial DialAddr OpenStreamSync cfg w =
     (let cfg = dial_config cfg
      in case DialAddr cfg of
           Inl err \<Rightarrow> (Inl (''dial quic: '' @ err), w)
         | Inr conn \<Rightarrow>
             (case OpenStreamSync conn of
                Some err \<Rightarrow> (Inl (''open stream: '' @ err), Close conn w)
              | None \<Rightarrow> (Inr \<lparr>cli_cfg = cfg, cli_stream = conn\<rparr>, w)))"

definition Client_Send :: "Client \<Rightarrow> Packet \<Rightarrow> world \<Rightarrow> error option \<times> world" where
  "Client_Send c packet w = Send (cli_stream c) packet w"

definition ReadPacket :: "error + Packet \<Rightarrow> error + Packet" where
  "ReadPacket decoded =
     (case decoded of Inl err \<Rightarrow> Inl (''read packet: '' @ err) | Inr packet \<Rightarrow> Inr packet)"

definition Client_Close :: "Client \<Rightarrow> world \<Rightarrow> world" where
  "Client_Close c w = Close (cli_stream c) w"

definition Client_Connect ::
  "Client \<Rightarrow> string dict \<Rightarrow> error + Packet \<Rightarrow> world \<Rightarrow> (error + Packet) \<times> world" where
  "Client_Connect c metadata decoded w =
     (case TimestampNow w of (now, w) \<Rightarrow>
        (let connectPacket = zero_Packet\<lparr>pkt_Type := PacketConnect,
               pkt_ClientID := ccf_ClientID (cli_cfg c), pkt_Token := ccf_Token (cli_cfg c),
               pkt_Metadata := metadata, pkt_Timestamp := now\<rparr>
         in case Client_Send c connectPacket w of
              (Some err, w) \<Rightarrow> (Inl err, w)
            | (None, w) \<Rightarrow>
                (case ReadPacket decoded of
                   Inl err \<Rightarrow> (Inl err, w)
                 | Inr packet \<Rightarrow>
                     if pkt_Type packet \<noteq> PacketConnAck
                     then (Inl (''expected CONNACK, got '' @ pkt_Type packet), w)
                     else (Inr packet, w))))"

definition Client_Publish ::
  "Client \<Rightarrow> string \<Rightarrow> int \<Rightarrow> RawMessage \<Rightarrow> world \<Rightarrow> error option \<times> world" where
  "Client_Publish c topic qos payload w =
     (case NewPacketID w of (i, w) \<Rightarrow>
      case TimestampNow w of (now, w) \<Rightarrow>
        Client_Send c (zero_Packet\<lparr>pkt_Type := PacketPublish, pkt_PacketID := i,
          pkt_ClientID := ccf_ClientID (cli_cfg c), pkt_Topic := topic, pkt_QoS := qos,
          pkt_Payload := payload, pkt_Timestamp := now\<rparr>) w)"

definition Client_Subscribe ::
  "Client \<Rightarrow> Subscription list \<Rightarrow> world \<Rightarrow> error option \<times> world" where
  "Client_Subscribe c subscriptions w =
     (case NewPacketID w of (i, w) \<Rightarrow>
      case TimestampNow w of (now, w) \<Rightarrow>
        Client_Send c (zero_Packet\<lparr>pkt_Type := PacketSubscribe, pkt_PacketID := i,
          pkt_ClientID := ccf_ClientID (cli_cfg c), pkt_Subscriptions := subscriptions,
          pkt_Timestamp := now\<rparr>) w)"

definition SendPubAck :: "Client \<Rightarrow> string \<Rightarrow> world \<Rightarrow> error option \<times> world" where
  "SendPubAck c packetID w =
     (case TimestampNow w of (now, w) \<Rightarrow>
        Client_Send c (zero_Packet\<lparr>pkt_Type := PacketPubAck, pkt_PacketID := packetID,
          pkt_ClientID := ccf_ClientID (cli_cfg c), pkt_Timestamp := now\<rparr>) w)"

definition Ping :: "Client \<Rightarrow> world \<Rightarrow> error option \<times> world" where
  "Ping c w =
     (case TimestampNow w of (now, w) \<Rightarrow>
        Client_Send c (zero_Packet\<lparr>pkt_Type := PacketPing,
          pkt_ClientID := ccf_ClientID (cli_cfg c), pkt_Timestamp := now\<rparr>) w)"

section \<open>Lemmas\<close>

lemma ReadPacket_Inr [simp]: "ReadPacket (Inr p) = Inr p"
  by (simp add: ReadPacket_def)

lemma ReadPacket_Inl [simp]: "ReadPacket (Inl e) = Inl (''read packet: '' @ e)"
  by (simp add: ReadPacket_def)

lemma Client_Close_frame [simp]:
  "w_store (Client_Close c w) = w_store w"
  "w_wire (Client_Close c w) = w_wire w"
  "w_link (Client_Close c w) = w_link w"
  "w_closed (Client_Close c w) = cli_stream c # w_closed w"
  by (simp_all add: Client_Close_def Close_def)

lemma SendPubAck_frame [simp]:
  "w_store (snd (SendPubAck c i w)) = w_store w"
  "w_link (snd (SendPubAck c i w)) = w_link w"
  "w_closed (snd (SendPubAck c i w)) = w_closed w"
  by (simp_all add: SendPubAck_def Client_Send_def TimestampNow_def Send_def split: option.splits)

lemma SendPubAck_wire:
  "\<exists>t. w_wire (snd (SendPubAck c i w)) = w_wire w
     @ (if fst (SendPubAck c i w) = None
        then [(cli_stream c, zero_Packet\<lparr>pkt_Type := PacketPubAck, pkt_PacketID := i,
                 pkt_ClientID := ccf_ClientID (cli_cfg c), pkt_Timestamp := t\<rparr>)]
        else [])"
  by (rule exI [of _ "fst (TimestampNow w)"])
    (simp add: SendPubAck_def Client_Send_def Send_wire TimestampNow_def)

text \<open>What \<open>Connect\<close> writes, and when it succeeds.\<close>

definition connect_request :: "Client \<Rightarrow> string dict \<Rightarrow> time \<Rightarrow> Packet" where
  "connect_request c metadata now =
     zero_Packet\<lparr>pkt_Type := PacketConnect, pkt_ClientID := ccf_ClientID (cli_cfg c),
       pkt_Token := ccf_Token (cli_cfg c), pkt_Metadata := metadata, pkt_Timestamp := now\<rparr>"

lemma Client_Connect_wire:
  "\<exists>t. set (w_wire (snd (Client_Connect c md r w)))
     \<subseteq> insert (cli_stream c, connect_request c md t) (set (w_wire w))"
  by (auto simp: Client_Connect_def Client_Send_def Send_wire TimestampNow_def connect_request_def
      case_prod_beta Let_def split: option.splits sum.splits)

lemma Client_Connect_frame [simp]:
  "w_store (snd (Client_Connect c md r w)) = w_store w"
  "w_link (snd (Client_Connect c md r w)) = w_link w"
  "w_closed (snd (Client_Connect c md r w)) = w_closed w"
  by (auto simp: Client_Connect_def Client_Send_def TimestampNow_def Send_def
      case_prod_beta Let_def split: option.splits sum.splits)

lemma Client_Subscribe_frame [simp]:
  "w_store (snd (Client_Subscribe c subs w)) = w_store w"
  "w_link (snd (Client_Subscribe c subs w)) = w_link w"
  "w_closed (snd (Client_Subscribe c subs w)) = w_closed w"
  by (auto simp: Client_Subscribe_def Client_Send_def TimestampNow_def NewPacketID_def Send_def
      case_prod_beta Let_def split: option.splits)

end
