(* ===== verification/Bridge.thy ===== *)
theory Bridge
  imports Client Topics Queues
begin

text \<open>
  The API's connection to the broker, \<open>api/services/bridge.go\<close>, and the hub that pushes
  telemetry to the browsers' WebSocket connections, \<open>api/services/hub.go\<close>.
  A WebSocket connection is a pointer, so a number; \<open>hub_link n x e\<close> is the error, if any, of
  the \<open>n\<close>-th \<open>WriteJSON\<close>, of event \<open>e\<close> on connection \<open>x\<close>,
  \<open>hub_rank n\<close> the order of the \<open>n\<close>-th \<open>range\<close> over the connections, and
  \<open>hub_sent\<close> the log of the events written. What the clock, the identifier generator and
  the stream answer is read from the world of the API process.
\<close>

section \<open>The hub\<close>

type_synonym wsconn = nat

record TelemetryEvent =
  evt_PacketID :: string
  evt_DeviceID :: string
  evt_Topic :: string
  evt_QoS :: int
  evt_Timestamp :: time
  evt_Payload :: RawMessage

record Hub =
  hub_clients :: "wsconn list"
  hub_rank :: "nat \<Rightarrow> wsconn \<Rightarrow> nat"
  hub_ranges :: nat
  hub_link :: "nat \<Rightarrow> wsconn \<Rightarrow> TelemetryEvent \<Rightarrow> error option"
  hub_writes :: nat
  hub_sent :: "(wsconn \<times> TelemetryEvent) list"
  hub_closed :: "wsconn list"

definition NewHub ::
  "(nat \<Rightarrow> wsconn \<Rightarrow> nat) \<Rightarrow> (nat \<Rightarrow> wsconn \<Rightarrow> TelemetryEvent \<Rightarrow> error option) \<Rightarrow> Hub" where
  "NewHub rank link =
     \<lparr>hub_clients = [], hub_rank = rank, hub_ranges = 0, hub_link = link, hub_writes = 0,
      hub_sent = [], hub_closed = []\<rparr>"

text \<open>\<open>upgraded\<close> is the result of the WebSocket library's \<open>Upgrade\<close>.\<close>

definition ServeWS :: "error + wsconn \<Rightarrow> Hub \<Rightarrow> Hub" where
  "ServeWS upgraded h =
     (case upgraded of
        Inl err \<Rightarrow> h
      | Inr conn \<Rightarrow> h\<lparr>hub_clients := List.insert conn (hub_clients h)\<rparr>)"

text \<open>
  The goroutine \<open>ServeWS\<close> starts, on the results of its calls of \<open>ReadMessage\<close>; the flag
  is \<open>True\<close> while it waits for the next one.
\<close>

fun ServeWS_reader :: "wsconn \<Rightarrow> error option list \<Rightarrow> Hub \<Rightarrow> bool \<times> Hub" where
  "ServeWS_reader conn [] h = (True, h)"
| "ServeWS_reader conn (None # rest) h = ServeWS_reader conn rest h"
| "ServeWS_reader conn (Some err # rest) h =
     (False, h\<lparr>hub_clients := removeAll conn (hub_clients h), hub_closed := conn # hub_closed h\<rparr>)"

fun broadcast_loop :: "TelemetryEvent \<Rightarrow> wsconn list \<Rightarrow> Hub \<Rightarrow> Hub" where
  "broadcast_loop event [] h = h"
| "broadcast_loop event (client # rest) h =
     (let n = hub_writes h; h' = h\<lparr>hub_writes := Suc n\<rparr>
      in case hub_link h n client event of
           Some err \<Rightarrow> broadcast_loop event rest (h'\<lparr>hub_closed := client # hub_closed h\<rparr>)
         | None \<Rightarrow> broadcast_loop event rest (h'\<lparr>hub_sent := hub_sent h @ [(client, event)]\<rparr>))"

definition Broadcast :: "TelemetryEvent \<Rightarrow> Hub \<Rightarrow> Hub" where
  "Broadcast event h =
     broadcast_loop event (sort_key (hub_rank h (hub_ranges h)) (hub_clients h))
       (h\<lparr>hub_ranges := Suc (hub_ranges h)\<rparr>)"

section \<open>The bridge\<close>

record Bridge =
  brg_cfg :: Config
  brg_auth :: Service
  brg_hub :: Hub
  brg_client :: "Client option"
  brg_world :: world

definition NewBridge :: "Config \<Rightarrow> Service \<Rightarrow> Hub \<Rightarrow> world \<Rightarrow> Bridge" where
  "NewBridge cfg auth hub w =
     \<lparr>brg_cfg = cfg, brg_auth = auth, brg_hub = hub, brg_client = None, brg_world = w\<rparr>"

text \<open>A call on the surroundings of the bridge.\<close>

definition brg_call :: "(world \<Rightarrow> 'a \<times> world) \<Rightarrow> Bridge \<Rightarrow> 'a \<times> Bridge" where
  "brg_call f b = (case f (brg_world b) of (r, w) \<Rightarrow> (r, b\<lparr>brg_world := w\<rparr>))"

definition setClient :: "Client \<Rightarrow> Bridge \<Rightarrow> Bridge" where
  "setClient client b = b\<lparr>brg_client := Some client\<rparr>"

definition clearClient :: "Client \<Rightarrow> Bridge \<Rightarrow> Bridge" where
  "clearClient client b =
     (if brg_client b = Some client then b\<lparr>brg_client := None\<rparr> else b)"

definition close_client :: "Client \<Rightarrow> Bridge \<Rightarrow> Bridge" where
  "close_client client b = b\<lparr>brg_world := Client_Close client (brg_world b)\<rparr>"

definition PublishCommand :: "string \<Rightarrow> RawMessage \<Rightarrow> Bridge \<Rightarrow> (error + Packet) \<times> Bridge" where
  "PublishCommand deviceID payload b =
     (case brg_client b of
        None \<Rightarrow> (Inl ''bridge is not connected to broker'', b)
      | Some client \<Rightarrow>
          (case brg_call NewPacketID b of (i, b) \<Rightarrow>
           case brg_call TimestampNow b of (now, b) \<Rightarrow>
             (let packet = zero_Packet\<lparr>pkt_Type := PacketPublish, pkt_PacketID := i,
                    pkt_ClientID := api_BridgeClientID (cfg_API (brg_cfg b)),
                    pkt_Topic := ''device/'' @ deviceID @ ''/command'',
                    pkt_QoS := api_CommandQoS (cfg_API (brg_cfg b)),
                    pkt_Payload := payload, pkt_Timestamp := now\<rparr>
              in case brg_call (Client_Send client packet) b of
                   (Some err, b) \<Rightarrow> (Inl err, b)
                 | (None, b) \<Rightarrow> (Inr packet, b))))"

definition telemetry_event :: "Packet \<Rightarrow> TelemetryEvent" where
  "telemetry_event packet =
     \<lparr>evt_PacketID = pkt_PacketID packet, evt_DeviceID = TopicOwner (pkt_Topic packet),
      evt_Topic = pkt_Topic packet, evt_QoS = pkt_QoS packet,
      evt_Timestamp = pkt_Timestamp packet, evt_Payload = pkt_Payload packet\<rparr>"

text \<open>
  The loop of \<open>consume\<close> on what successive calls of \<open>Decode\<close> return. It never returns
  without an error: the result is \<open>None\<close> while it waits for the next packet.
\<close>

fun consume :: "Client \<Rightarrow> (error + Packet) list \<Rightarrow> Bridge \<Rightarrow> error option \<times> Bridge" where
  "consume client [] b = (None, b)"
| "consume client (decoded # rest) b =
     (case ReadPacket decoded of
        Inl err \<Rightarrow> (Some err, b)
      | Inr packet \<Rightarrow>
          if pkt_Type packet = PacketPublish then
            (let b = b\<lparr>brg_hub := Broadcast (telemetry_event packet) (brg_hub b)\<rparr>
             in if 0 < pkt_QoS packet then
                  (case brg_call (SendPubAck client (pkt_PacketID packet)) b of
                     (Some err, b) \<Rightarrow> (Some err, b)
                   | (None, b) \<Rightarrow> consume client rest b)
                else consume client rest b)
          else consume client rest b)"

text \<open>What a sleep of \<open>sleepContext\<close> ends with: the end of the context or the timer.\<close>

datatype wake = ContextDone | TimerFired

definition sleepContext :: "wake \<Rightarrow> bool" where
  "sleepContext ended = (case ended of ContextDone \<Rightarrow> False | TimerFired \<Rightarrow> True)"

text \<open>
  What the surroundings answer during one iteration of \<open>Start\<close>: whether the context is
  alive, the results of dialling and opening the stream, the first two packets read, the
  packets read by \<open>consume\<close>, and what \<open>sleepContext\<close> was woken by.
\<close>

record attempt =
  att_alive :: bool
  att_dial :: "error + conn"
  att_stream :: "error option"
  att_connack :: "error + Packet"
  att_suback :: "error + Packet"
  att_incoming :: "(error + Packet) list"
  att_sleep :: wake

definition telemetry_subscription :: Subscription where
  "telemetry_subscription = \<lparr>sub_Topic = ''device/+/telemetry'', sub_QoS = 1\<rparr>"

text \<open>From the \<open>CONNECT\<close> to the check of the \<open>SUBACK\<close>; the client is closed on an error.\<close>

definition bridge_handshake :: "attempt \<Rightarrow> Client \<Rightarrow> Bridge \<Rightarrow> error option \<times> Bridge" where
  "bridge_handshake a client b =
     (case brg_call (Client_Connect client [(''role'', ''bridge'')] (att_connack a)) b of
        (Inl err, b) \<Rightarrow> (Some err, close_client client b)
      | (Inr _, b) \<Rightarrow>
          (case brg_call (Client_Subscribe client [telemetry_subscription]) b of
             (Some err, b) \<Rightarrow> (Some err, close_client client b)
           | (None, b) \<Rightarrow>
               (case ReadPacket (att_suback a) of
                  Inl err \<Rightarrow> (Some err, close_client client b)
                | Inr subAck \<Rightarrow>
                    if pkt_Type subAck \<noteq> PacketSubAck
                    then (Some ''api bridge expected SUBACK'', close_client client b)
                    else (None, b))))"

text \<open>
  The loop of \<open>Start\<close>. The result is \<open>None\<close> while it runs, and \<open>Some\<close> the
  returned error otherwise.
\<close>

fun Start :: "attempt list \<Rightarrow> Bridge \<Rightarrow> error option option \<times> Bridge" where
  "Start [] b = (None, b)"
| "Start (a # rest) b =
     (if \<not> att_alive a then (Some None, b)
      else case brg_call TimestampNow b of (now, b) \<Rightarrow>
        (case IssueAdminToken (w_jwt (brg_world b)) now (brg_auth b)
                (api_BridgeClientID (cfg_API (brg_cfg b)))
                (cfg_AdminTokenTTL (cfg_Auth (brg_cfg b))) of
           Inl err \<Rightarrow> (Some (Some err), b)
         | Inr token \<Rightarrow>
             (case brg_call (Client_Dial (\<lambda>_. att_dial a) (\<lambda>_. att_stream a)
                      \<lparr>ccf_Addr = api_BrokerAddr (cfg_API (brg_cfg b)),
                       ccf_ClientID = api_BridgeClientID (cfg_API (brg_cfg b)),
                       ccf_Token = token,
                       ccf_ProtocolName = brk_ProtocolName (cfg_Broker (brg_cfg b)),
                       ccf_WriteTimeout = 0, ccf_ReadTimeout = 0\<rparr>) b of
                (Inl err, b) \<Rightarrow> if sleepContext (att_sleep a) then Start rest b else (Some None, b)
              | (Inr client, b) \<Rightarrow>
                  (case bridge_handshake a client b of
                     (Some err, b) \<Rightarrow> if sleepContext (att_sleep a) then Start rest b else (Some None, b)
                   | (None, b) \<Rightarrow>
                       (case consume client (att_incoming a) (setClient client b) of
                          (None, b) \<Rightarrow> (None, b)
                        | (Some err, b) \<Rightarrow>
                            (let b = close_client client (clearClient client b)
                             in if sleepContext (att_sleep a) then Start rest b else (Some None, b)))))))"

section \<open>The contract of the hub\<close>

text \<open>
  A sink of events: a reader that is attached sees every event exactly once, in the order of the
  broadcasts, and stays attached.
\<close>

locale event_sink =
  fixes broadcast :: "'e \<Rightarrow> 'h \<Rightarrow> 'h"
    and attached :: "'h \<Rightarrow> 'x \<Rightarrow> bool"
    and seen :: "'h \<Rightarrow> 'x \<Rightarrow> 'e list"
  assumes seen_broadcast: "attached h x \<Longrightarrow> seen (broadcast e h) x = seen h x @ [e]"
    and attached_broadcast: "attached h x \<Longrightarrow> attached (broadcast e h) x"
begin

lemma seen_broadcasts:
  "attached h x \<Longrightarrow> seen (foldl (\<lambda>h e. broadcast e h) h es) x = seen h x @ es"
proof (induction es arbitrary: h)
  case Nil
  then show ?case by simp
next
  case (Cons e es)
  then show ?case using attached_broadcast [of h x e] by (simp add: seen_broadcast)
qed

end

text \<open>
  A WebSocket connection is attached when it is registered, once, and its writes succeed; what it
  has seen are the events written to it.
\<close>

definition ws_attached :: "Hub \<Rightarrow> wsconn \<Rightarrow> bool" where
  "ws_attached h x =
     (x \<in> set (hub_clients h) \<and> distinct (hub_clients h) \<and> (\<forall>n e. hub_link h n x e = None))"

definition ws_seen :: "Hub \<Rightarrow> wsconn \<Rightarrow> TelemetryEvent list" where
  "ws_seen h x = map snd (filter (\<lambda>(y, _). y = x) (hub_sent h))"

lemma broadcast_loop_frame [simp]:
  "hub_clients (broadcast_loop e xs h) = hub_clients h"
  "hub_link (broadcast_loop e xs h) = hub_link h"
  by (induction xs arbitrary: h) (simp_all add: Let_def split: option.splits)

lemma broadcast_loop_seen:
  "\<forall>n e. hub_link h n x e = None \<Longrightarrow> distinct xs \<Longrightarrow>
     ws_seen (broadcast_loop e xs h) x = ws_seen h x @ (if x \<in> set xs then [e] else [])"
proof (induction xs arbitrary: h)
  case Nil
  then show ?case by simp
next
  case (Cons y ys)
  then show ?case
    by (auto simp: Let_def ws_seen_def split: option.splits)
qed

interpretation hub: event_sink Broadcast ws_attached ws_seen
  by unfold_locales
    (simp_all add: ws_attached_def Broadcast_def broadcast_loop_seen ws_seen_def [of "h\<lparr>hub_ranges := n\<rparr>" for h n]
      flip: ws_seen_def)

section \<open>Lemmas\<close>

lemma brg_call_frame [simp]:
  "brg_cfg (snd (brg_call f b)) = brg_cfg b"
  "brg_auth (snd (brg_call f b)) = brg_auth b"
  "brg_hub (snd (brg_call f b)) = brg_hub b"
  "brg_client (snd (brg_call f b)) = brg_client b"
  "brg_world (snd (brg_call f b)) = snd (f (brg_world b))"
  "fst (brg_call f b) = fst (f (brg_world b))"
  by (simp_all add: brg_call_def case_prod_beta)

lemma close_client_frame [simp]:
  "brg_cfg (close_client c b) = brg_cfg b"
  "brg_hub (close_client c b) = brg_hub b"
  "brg_client (close_client c b) = brg_client b"
  "brg_world (close_client c b) = Client_Close c (brg_world b)"
  by (simp_all add: close_client_def)

definition publishes :: "Packet list \<Rightarrow> Packet list" where
  "publishes ps = filter (\<lambda>p. pkt_Type p = PacketPublish) ps"

definition to_ack :: "Packet list \<Rightarrow> Packet list" where
  "to_ack ps = filter (\<lambda>p. 0 < pkt_QoS p) (publishes ps)"

text \<open>The packets on the wire with their type and identifier, without the time they carry.\<close>

definition ack_log :: "(conn \<times> Packet) list \<Rightarrow> (conn \<times> string \<times> string) list" where
  "ack_log wire = map (\<lambda>(c, p). (c, pkt_Type p, pkt_PacketID p)) wire"

definition ack_entry :: "Client \<Rightarrow> Packet \<Rightarrow> conn \<times> string \<times> string" where
  "ack_entry client p = (cli_stream client, PacketPubAck, pkt_PacketID p)"

text \<open>
  How a run of \<open>consume\<close> ends after the packets \<open>ps\<close>: it waits, reading failed, or an
  acknowledgement could not be sent (the last one due is then missing).
\<close>

definition consumed ::
  "(error + Packet) list \<Rightarrow> error option \<Rightarrow> Packet list \<Rightarrow> Packet list \<Rightarrow> bool" where
  "consumed rs res ps acked =
     (case res of
        None \<Rightarrow> rs = map Inr ps \<and> acked = to_ack ps
      | Some err \<Rightarrow>
          (\<exists>e rest. rs = map Inr ps @ Inl e # rest \<and> err = ''read packet: '' @ e \<and> acked = to_ack ps)
          \<or> (\<exists>rest. rs = map Inr ps @ rest \<and> to_ack ps \<noteq> [] \<and> acked = butlast (to_ack ps)))"

lemma consumed_Cons:
  assumes "consumed rs res ps acked"
  shows "consumed (Inr p # rs) res (p # ps) (if to_ack [p] = [] then acked else p # acked)"
  using assms by (auto simp: consumed_def to_ack_def publishes_def split: option.splits if_splits)

lemma ack_log_SendPubAck:
  "ack_log (w_wire (snd (SendPubAck client i w))) = ack_log (w_wire w)
     @ (if fst (SendPubAck client i w) = None then [(cli_stream client, PacketPubAck, i)] else [])"
  using SendPubAck_wire [of client i w] by (auto simp: ack_log_def)

definition consume_spec ::
  "Client \<Rightarrow> (error + Packet) list \<Rightarrow> error option \<Rightarrow> Bridge \<Rightarrow> Bridge \<Rightarrow> bool" where
  "consume_spec client rs res b b' =
     (\<exists>ps acked. consumed rs res ps acked
       \<and> brg_hub b' = foldl (\<lambda>h e. Broadcast e h) (brg_hub b) (map telemetry_event (publishes ps))
       \<and> ack_log (w_wire (brg_world b')) = ack_log (w_wire (brg_world b)) @ map (ack_entry client) acked)"

lemma consume_spec_Cons:
  assumes "consume_spec client rest res b1 b'"
    and "brg_hub b1 = foldl (\<lambda>h e. Broadcast e h) (brg_hub b) (map telemetry_event (publishes [p]))"
    and "ack_log (w_wire (brg_world b1)) =
      ack_log (w_wire (brg_world b)) @ map (ack_entry client) (to_ack [p])"
  shows "consume_spec client (Inr p # rest) res b b'"
proof -
  from assms(1) obtain ps acked where "consumed rest res ps acked"
    and "brg_hub b' = foldl (\<lambda>h e. Broadcast e h) (brg_hub b1) (map telemetry_event (publishes ps))"
    and "ack_log (w_wire (brg_world b')) = ack_log (w_wire (brg_world b1)) @ map (ack_entry client) acked"
    unfolding consume_spec_def by blast
  with consumed_Cons [of rest res ps acked p] assms(2,3) show ?thesis
    unfolding consume_spec_def
    by (intro exI [of _ "p # ps"] exI [of _ "to_ack [p] @ acked"])
      (auto simp: to_ack_def publishes_def split: if_splits)
qed

lemma consume_effect: "consume client rs b = (res, b') \<Longrightarrow> consume_spec client rs res b b'"
proof (induction rs arbitrary: b)
  case Nil
  then show ?case
    unfolding consume_spec_def by (intro exI [of _ "[]"]) (simp add: consumed_def to_ack_def publishes_def)
next
  case (Cons decoded rest)
  show ?case
  proof (cases decoded)
    case (Inl e)
    with Cons.prems show ?thesis
      unfolding consume_spec_def by (intro exI [of _ "[]"]) (auto simp: consumed_def to_ack_def publishes_def)
  next
    case (Inr p)
    let ?b1 = "b\<lparr>brg_hub := Broadcast (telemetry_event p) (brg_hub b)\<rparr>"
    let ?ack = "brg_call (SendPubAck client (pkt_PacketID p)) ?b1"
    let ?b2 = "if pkt_Type p \<noteq> PacketPublish then b else if 0 < pkt_QoS p then snd ?ack else ?b1"
    consider (on) "consume client rest ?b2 = (res, b')"
        "to_ack [p] \<noteq> [] \<longrightarrow> fst (SendPubAck client (pkt_PacketID p) (brg_world b)) = None"
      | (failed) err where "pkt_Type p = PacketPublish" "0 < pkt_QoS p"
          "fst (SendPubAck client (pkt_PacketID p) (brg_world b)) = Some err" "res = Some err" "b' = snd ?ack"
      using Cons.prems Inr
      by (auto simp: case_prod_beta Let_def to_ack_def publishes_def split: if_splits option.splits)
    then show ?thesis
    proof cases
      case on
      show ?thesis
        unfolding Inr
        by (rule consume_spec_Cons [OF Cons.IH [OF on(1)]])
          (use on(2) in \<open>auto simp: to_ack_def publishes_def ack_log_SendPubAck ack_entry_def\<close>)
    next
      case failed
      then show ?thesis
        unfolding consume_spec_def Inr
        by (intro exI [of _ "[p]"] exI [of _ "[]"])
          (auto simp: consumed_def to_ack_def publishes_def ack_log_SendPubAck)
    qed
  qed
qed

lemma consume_frame [simp]:
  "brg_cfg (snd (consume client rs b)) = brg_cfg b"
  "brg_auth (snd (consume client rs b)) = brg_auth b"
  "brg_client (snd (consume client rs b)) = brg_client b"
  by (induction rs arbitrary: b)
    (auto simp: case_prod_beta Let_def split: sum.splits option.splits)

lemma bridge_handshake_frame [simp]:
  "brg_cfg (snd (bridge_handshake a client b)) = brg_cfg b"
  "brg_hub (snd (bridge_handshake a client b)) = brg_hub b"
  "brg_client (snd (bridge_handshake a client b)) = brg_client b"
  by (auto simp: bridge_handshake_def case_prod_beta split: sum.splits option.splits)

lemma IssueAdminToken_InlD:
  "IssueAdminToken lib now s c ttl = Inl err \<Longrightarrow> HasPrefix err ''sign jwt: ''"
  by (auto simp: IssueAdminToken_def issueToken_def Let_def HasPrefix_def split: sum.splits)

lemma clearClient_client: "brg_client b \<in> {None, Some client} \<Longrightarrow> brg_client (clearClient client b) = None"
  by (auto simp: clearClient_def)

section \<open>Properties\<close>



section \<open>Concrete runs\<close>

text \<open>A bridge with one browser, in surroundings in which nothing fails.\<close>

definition bridge_config :: Config where
  "bridge_config = (let c = Load (\<lambda>_. Inl []) (\<lambda>_. [])
     in c\<lparr>cfg_Auth := sample_auth, cfg_API := (cfg_API c)\<lparr>api_BridgeClientID := ''ops''\<rparr>\<rparr>)"

definition sample_bridge :: Bridge where
  "sample_bridge = NewBridge bridge_config (Service_New sample_auth)
     (ServeWS (Inr 7) (NewHub (\<lambda>_ _. 0) (\<lambda>_ _ _. None))) (d1_world\<lparr>w_clock := (\<lambda>_. 0)\<rparr>)"

definition sample_client :: Client where
  "sample_client =
     \<lparr>cli_cfg = dial_config \<lparr>ccf_Addr = ''127.0.0.1:1884'', ccf_ClientID = ''ops'', ccf_Token = ''adm'',
        ccf_ProtocolName = [], ccf_WriteTimeout = 0, ccf_ReadTimeout = 0\<rparr>, cli_stream = 4\<rparr>"

definition sample_attempt :: attempt where
  "sample_attempt =
     \<lparr>att_alive = True, att_dial = Inr 4, att_stream = None,
      att_connack = Inr (ConnAck ''accepted'' False 1), att_suback = Inr (SubAck ''u'' 1),
      att_incoming = [Inr (sample_packet ''t1'' ''device/d1/telemetry''), Inl ''closed''],
      att_sleep = TimerFired\<rparr>"

lemma sample_consume:
  "fst (consume sample_client [Inr (sample_packet ''t1'' ''device/d1/telemetry'')] sample_bridge) = None"
  by code_simp

lemma sample_start:
  "fst (Start [sample_attempt, sample_attempt\<lparr>att_alive := False\<rparr>] sample_bridge) = Some None"
  by code_simp



end
