(* ===== verification/Http.thy ===== *)
theory Http
  imports Bridge
begin

text \<open>
  The HTTP API: the device service \<open>api/services/devices.go\<close> and the handlers of
  \<open>api/handlers/http.go\<close>. A request carries what the code reads of it: the method, the
  segments of the cleaned path (the \<open>{id}\<close> wildcard is one decoded segment), the header
  \<open>Origin\<close>, the query parameter \<open>limit\<close>, the result of decoding the JSON body and the
  result of reading the body. A response carries its status, its headers and the value that is
  encoded as its body. The state of the program is the bridge with its world, the services hold
  only their settings. \<open>Duration.String\<close>, fetching the broker's metrics and the upgrade to a
  WebSocket are arguments.
\<close>

section \<open>The device service\<close>

record DeviceService =
  ds_auth :: Service
  ds_tokenTTL :: duration

definition NewDeviceService :: "Service \<Rightarrow> duration \<Rightarrow> DeviceService" where
  "NewDeviceService auth tokenTTL = \<lparr>ds_auth = auth, ds_tokenTTL = tokenTTL\<rparr>"

definition Devices_Register ::
  "DeviceService \<Rightarrow> string \<Rightarrow> string \<Rightarrow> metadata \<Rightarrow> world \<Rightarrow> (error + Device) \<times> world" where
  "Devices_Register ds ident name meta w = on_store (RegisterDevice ident name meta) w"

definition Devices_IssueToken :: "DeviceService \<Rightarrow> string \<Rightarrow> world \<Rightarrow> (error + string) \<times> world" where
  "Devices_IssueToken ds deviceID w =
     (case on_store (GetDevice deviceID) w of
        (Inl err, w) \<Rightarrow> (Inl err, w)
      | (Inr _, w) \<Rightarrow>
          (case TimestampNow w of (now, w) \<Rightarrow>
             (IssueDeviceToken (w_jwt w) now (ds_auth ds) deviceID (ds_tokenTTL ds), w)))"

definition Devices_List :: "DeviceService \<Rightarrow> world \<Rightarrow> (error + Device list) \<times> world" where
  "Devices_List ds w = on_store ListDevices w"

definition Devices_Telemetry ::
  "DeviceService \<Rightarrow> string \<Rightarrow> int \<Rightarrow> world \<Rightarrow> (error + Message list) \<times> world" where
  "Devices_Telemetry ds deviceID limit w = on_store (GetTelemetry deviceID limit) w"

definition Devices_Messages ::
  "DeviceService \<Rightarrow> int \<Rightarrow> world \<Rightarrow> (error + Message list) \<times> world" where
  "Devices_Messages ds limit w = on_store (ListMessages limit) w"

section \<open>Requests and responses\<close>

record Request =
  req_Method :: string
  req_Path :: "string list"
  req_Origin :: string
  req_Limit :: string
  req_Register :: "error + string \<times> string \<times> metadata"
  req_Body :: "error + string"

datatype payload =
    StatusPayload string
  | ErrorPayload error
  | DevicePayload Device
  | DevicesPayload "Device list"
  | MessagesPayload "Message list"
  | SummaryPayload MetricsSummary
  | PacketPayload Packet
  | TokenPayload string string

datatype body = NoBody | JSONBody payload | TextBody string

record Response =
  rsp_Status :: nat
  rsp_Header :: "string dict"
  rsp_Body :: body

definition setHeader :: "string \<Rightarrow> string \<Rightarrow> Response \<Rightarrow> Response" where
  "setHeader key value r = r\<lparr>rsp_Header := AList.update key value (rsp_Header r)\<rparr>"

text \<open>A handler that writes nothing answers 200 with an empty body.\<close>

definition fresh_response :: Response where
  "fresh_response = \<lparr>rsp_Status = 200, rsp_Header = [], rsp_Body = NoBody\<rparr>"

definition writeJSON :: "nat \<Rightarrow> payload \<Rightarrow> Response \<Rightarrow> Response" where
  "writeJSON status payload r =
     (setHeader ''Content-Type'' ''application/json'' r)\<lparr>rsp_Status := status, rsp_Body := JSONBody payload\<rparr>"

definition writeError :: "nat \<Rightarrow> error \<Rightarrow> Response \<Rightarrow> Response" where
  "writeError status err r = writeJSON status (ErrorPayload err) r"

definition parseLimit :: "string \<Rightarrow> int \<Rightarrow> int" where
  "parseLimit value fallback =
     (if value = [] then fallback
      else case Atoi value of
             Inl err \<Rightarrow> fallback
           | Inr limit \<Rightarrow> if limit \<le> 0 then fallback else limit)"

section \<open>The server\<close>

record HttpServer =
  hs_cfg :: Config
  hs_devices :: DeviceService
  hs_bridge :: Bridge

definition NewServer :: "Config \<Rightarrow> DeviceService \<Rightarrow> Bridge \<Rightarrow> HttpServer" where
  "NewServer cfg devices bridge = \<lparr>hs_cfg = cfg, hs_devices = devices, hs_bridge = bridge\<rparr>"

text \<open>A call of a service on the world of the program.\<close>

definition hs_call :: "(world \<Rightarrow> 'a \<times> world) \<Rightarrow> HttpServer \<Rightarrow> 'a \<times> HttpServer" where
  "hs_call f s = (case brg_call f (hs_bridge s) of (r, b) \<Rightarrow> (r, s\<lparr>hs_bridge := b\<rparr>))"

definition healthz :: "Response \<Rightarrow> HttpServer \<Rightarrow> Response \<times> HttpServer" where
  "healthz w s = (writeJSON 200 (StatusPayload ''ok'') w, s)"

definition registerDevice :: "Request \<Rightarrow> Response \<Rightarrow> HttpServer \<Rightarrow> Response \<times> HttpServer" where
  "registerDevice r w s =
     (case req_Register r of
        Inl err \<Rightarrow> (writeError 400 err w, s)
      | Inr (ident, name, meta) \<Rightarrow>
          (case hs_call (Devices_Register (hs_devices s) ident name meta) s of
             (Inl err, s) \<Rightarrow> (writeError 400 err w, s)
           | (Inr device, s) \<Rightarrow> (writeJSON 201 (DevicePayload device) w, s)))"

definition http_issueToken ::
  "(duration \<Rightarrow> string) \<Rightarrow> string \<Rightarrow> Response \<Rightarrow> HttpServer \<Rightarrow> Response \<times> HttpServer" where
  "http_issueToken DurationString ident w s =
     (case hs_call (Devices_IssueToken (hs_devices s) ident) s of
        (Inl err, s) \<Rightarrow> (writeError 400 err w, s)
      | (Inr token, s) \<Rightarrow>
          (writeJSON 200
             (TokenPayload token (DurationString (api_DefaultTokenTTL (cfg_API (hs_cfg s))))) w, s))"

definition listDevices :: "Response \<Rightarrow> HttpServer \<Rightarrow> Response \<times> HttpServer" where
  "listDevices w s =
     (case hs_call (Devices_List (hs_devices s)) s of
        (Inl err, s) \<Rightarrow> (writeError 500 err w, s)
      | (Inr devices, s) \<Rightarrow> (writeJSON 200 (DevicesPayload devices) w, s))"

definition deviceTelemetry ::
  "Request \<Rightarrow> string \<Rightarrow> Response \<Rightarrow> HttpServer \<Rightarrow> Response \<times> HttpServer" where
  "deviceTelemetry r ident w s =
     (let limit = parseLimit (req_Limit r) 50
      in case hs_call (Devices_Telemetry (hs_devices s) ident limit) s of
           (Inl err, s) \<Rightarrow> (writeError 500 err w, s)
         | (Inr messages, s) \<Rightarrow> (writeJSON 200 (MessagesPayload messages) w, s))"

definition sendCommand ::
  "Request \<Rightarrow> string \<Rightarrow> Response \<Rightarrow> HttpServer \<Rightarrow> Response \<times> HttpServer" where
  "sendCommand r ident w s =
     (case req_Body r of
        Inl err \<Rightarrow> (writeError 400 err w, s)
      | Inr payload \<Rightarrow>
          (let payload = (if length (TrimSpace payload) = 0 then ''{}'' else payload)
           in case PublishCommand ident (Some payload) (hs_bridge s) of
                (Inl err, b) \<Rightarrow> (writeError 503 err w, s\<lparr>hs_bridge := b\<rparr>)
              | (Inr packet, b) \<Rightarrow> (writeJSON 202 (PacketPayload packet) w, s\<lparr>hs_bridge := b\<rparr>)))"

definition listMessages :: "Request \<Rightarrow> Response \<Rightarrow> HttpServer \<Rightarrow> Response \<times> HttpServer" where
  "listMessages r w s =
     (let limit = parseLimit (req_Limit r) 100
      in case hs_call (Devices_Messages (hs_devices s) limit) s of
           (Inl err, s) \<Rightarrow> (writeError 500 err w, s)
         | (Inr messages, s) \<Rightarrow> (writeJSON 200 (MessagesPayload messages) w, s))"

definition metricsSummary :: "Response \<Rightarrow> HttpServer \<Rightarrow> Response \<times> HttpServer" where
  "metricsSummary w s =
     (case hs_call (on_store GetMetricsSummary) s of
        (Inl err, s) \<Rightarrow> (writeError 500 err w, s)
      | (Inr summary, s) \<Rightarrow> (writeJSON 200 (SummaryPayload summary) w, s))"

text \<open>
  What fetching a URL with the HTTP client comes to: the request cannot be built, it fails, the
  body cannot be read, or a body.
\<close>

datatype fetched = BadRequest error | Unreachable error | BrokenBody error | Fetched string

definition metricsRaw ::
  "(string \<Rightarrow> fetched) \<Rightarrow> Response \<Rightarrow> HttpServer \<Rightarrow> Response \<times> HttpServer" where
  "metricsRaw fetch w s =
     (case fetch (api_BrokerMetricsURL (cfg_API (hs_cfg s))) of
        BadRequest err \<Rightarrow> (writeError 500 err w, s)
      | Unreachable err \<Rightarrow> (writeError 503 err w, s)
      | BrokenBody err \<Rightarrow> (writeError 502 err w, s)
      | Fetched text \<Rightarrow>
          ((setHeader ''Content-Type'' ''text/plain; charset=utf-8'' w)
             \<lparr>rsp_Status := 200, rsp_Body := TextBody text\<rparr>, s))"

text \<open>The response of an upgrade, or of its failure, is written by the WebSocket library.\<close>

definition websocketTelemetry ::
  "error + wsconn \<Rightarrow> Response \<Rightarrow> HttpServer \<Rightarrow> Response \<times> HttpServer" where
  "websocketTelemetry upgraded w s =
     (w, s\<lparr>hs_bridge := (hs_bridge s)\<lparr>brg_hub := ServeWS upgraded (brg_hub (hs_bridge s))\<rparr>\<rparr>)"

section \<open>Routing\<close>

text \<open>
  \<open>http.ServeMux\<close> with the patterns of \<open>routes\<close>: the methods a path is registered for (a
  pattern for \<open>GET\<close> also serves \<open>HEAD\<close>), 405 when the path is known for other methods,
  404 when it is not known.
\<close>

definition allowed_methods :: "string list \<Rightarrow> string list" where
  "allowed_methods path =
     (if path \<in> {[''healthz''], [''devices''], [''messages''], [''metrics'', ''summary''],
                  [''metrics'', ''raw''], [''ws'', ''telemetry'']} then [''GET'', ''HEAD'']
      else if path = [''devices'', ''register''] then [''POST'']
      else if length path = 3 \<and> path ! 0 = ''devices'' then
        (if path ! 2 \<in> {''token'', ''command''} then [''POST'']
         else if path ! 2 = ''telemetry'' then [''GET'', ''HEAD''] else [])
      else [])"

fun join_comma :: "string list \<Rightarrow> string" where
  "join_comma [] = []"
| "join_comma [m] = m"
| "join_comma (m # ms) = m @ '', '' @ join_comma ms"

text \<open>\<open>http.Error\<close>: a plain text answer.\<close>

definition http_Error :: "string \<Rightarrow> nat \<Rightarrow> Response \<Rightarrow> Response" where
  "http_Error text status w =
     (setHeader ''X-Content-Type-Options'' ''nosniff''
        (setHeader ''Content-Type'' ''text/plain; charset=utf-8'' w))
       \<lparr>rsp_Status := status, rsp_Body := TextBody (text @ [CHR 0x0A])\<rparr>"

definition routes ::
  "(duration \<Rightarrow> string) \<Rightarrow> (string \<Rightarrow> fetched) \<Rightarrow> error + wsconn \<Rightarrow>
   Request \<Rightarrow> Response \<Rightarrow> HttpServer \<Rightarrow> Response \<times> HttpServer" where
  "routes DurationString fetch upgraded r w s =
     (let path = req_Path r; allowed = allowed_methods path; ident = path ! 1
      in if allowed = [] then (http_Error ''404 page not found'' 404 w, s)
         else if req_Method r \<notin> set allowed then
           (http_Error ''Method Not Allowed'' 405 (setHeader ''Allow'' (join_comma allowed) w), s)
         else if path = [''healthz''] then healthz w s
         else if path = [''devices'', ''register''] then registerDevice r w s
         else if path = [''devices''] then listDevices w s
         else if path = [''messages''] then listMessages r w s
         else if path = [''metrics'', ''summary''] then metricsSummary w s
         else if path = [''metrics'', ''raw''] then metricsRaw fetch w s
         else if path = [''ws'', ''telemetry''] then websocketTelemetry upgraded w s
         else if path ! 2 = ''token'' then http_issueToken DurationString ident w s
         else if path ! 2 = ''telemetry'' then deviceTelemetry r ident w s
         else sendCommand r ident w s)"

definition cors ::
  "(Request \<Rightarrow> Response \<Rightarrow> HttpServer \<Rightarrow> Response \<times> HttpServer) \<Rightarrow>
   Request \<Rightarrow> Response \<Rightarrow> HttpServer \<Rightarrow> Response \<times> HttpServer" where
  "cors next_handler r w s =
     (let origin = req_Origin r;
          origins = api_AllowedOrigins (cfg_API (hs_cfg s));
          w = (if origin \<noteq> [] \<and> (origin \<in> set origins \<or> ''*'' \<in> set origins)
               then setHeader ''Access-Control-Allow-Methods'' ''GET, POST, OPTIONS''
                      (setHeader ''Access-Control-Allow-Headers'' ''Content-Type, Authorization''
                        (setHeader ''Access-Control-Allow-Credentials'' ''true''
                          (setHeader ''Access-Control-Allow-Origin'' origin w)))
               else w)
      in if req_Method r = ''OPTIONS'' then (w\<lparr>rsp_Status := 204\<rparr>, s)
         else next_handler r w s)"

text \<open>The answer of the API to a request.\<close>

definition ServeHTTP ::
  "(duration \<Rightarrow> string) \<Rightarrow> (string \<Rightarrow> fetched) \<Rightarrow> error + wsconn \<Rightarrow>
   Request \<Rightarrow> HttpServer \<Rightarrow> Response \<times> HttpServer" where
  "ServeHTTP DurationString fetch upgraded r s =
     cors (routes DurationString fetch upgraded) r fresh_response s"

text \<open>The API process as \<open>runAPI\<close> of \<open>cmd/crabmqd/main.go\<close> puts it together.\<close>

definition runAPI :: "Config \<Rightarrow> Hub \<Rightarrow> world \<Rightarrow> HttpServer" where
  "runAPI cfg hub w =
     (let auth = Service_New (cfg_Auth cfg);
          deviceService = NewDeviceService auth (api_DefaultTokenTTL (cfg_API cfg));
          bridge = NewBridge cfg auth hub w
      in NewServer cfg deviceService bridge)"

section \<open>Lemmas\<close>

lemma setHeader_fields [simp]:
  "rsp_Status (setHeader k v w) = rsp_Status w"
  "rsp_Body (setHeader k v w) = rsp_Body w"
  "map_of (rsp_Header (setHeader k v w)) = (map_of (rsp_Header w))(k \<mapsto> v)"
  by (simp_all add: setHeader_def)

lemma writeJSON_fields [simp]:
  "rsp_Status (writeJSON n p w) = n"
  "rsp_Body (writeJSON n p w) = JSONBody p"
  "map_of (rsp_Header (writeJSON n p w)) = (map_of (rsp_Header w))(''Content-Type'' \<mapsto> ''application/json'')"
  by (simp_all add: writeJSON_def)

lemma writeError_fields [simp]:
  "rsp_Status (writeError n e w) = n"
  "rsp_Body (writeError n e w) = JSONBody (ErrorPayload e)"
  "map_of (rsp_Header (writeError n e w)) = (map_of (rsp_Header w))(''Content-Type'' \<mapsto> ''application/json'')"
  by (simp_all add: writeError_def)

lemmas handler_defs =
  healthz_def registerDevice_def http_issueToken_def listDevices_def deviceTelemetry_def
  sendCommand_def listMessages_def metricsSummary_def metricsRaw_def websocketTelemetry_def

text \<open>No handler touches a header other than the three it may set.\<close>

lemma routes_header:
  assumes "key \<notin> {''Content-Type'', ''X-Content-Type-Options'', ''Allow''}"
  shows "map_of (rsp_Header (fst (routes D fetch up r w s))) key = map_of (rsp_Header w) key"
proof -
  have "map_of (rsp_Header (fst (healthz w s))) key = map_of (rsp_Header w) key"
    "map_of (rsp_Header (fst (registerDevice r w s))) key = map_of (rsp_Header w) key"
    "map_of (rsp_Header (fst (http_issueToken D i w s))) key = map_of (rsp_Header w) key"
    "map_of (rsp_Header (fst (listDevices w s))) key = map_of (rsp_Header w) key"
    "map_of (rsp_Header (fst (deviceTelemetry r i w s))) key = map_of (rsp_Header w) key"
    "map_of (rsp_Header (fst (sendCommand r i w s))) key = map_of (rsp_Header w) key"
    "map_of (rsp_Header (fst (listMessages r w s))) key = map_of (rsp_Header w) key"
    "map_of (rsp_Header (fst (metricsSummary w s))) key = map_of (rsp_Header w) key"
    "map_of (rsp_Header (fst (metricsRaw fetch w s))) key = map_of (rsp_Header w) key"
    "map_of (rsp_Header (fst (websocketTelemetry up w s))) key = map_of (rsp_Header w) key" for i
    using assms by (simp_all add: handler_defs case_prod_beta Let_def split: sum.splits fetched.splits)
  then show ?thesis using assms by (simp add: routes_def Let_def http_Error_def)
qed

lemma hs_call_frame [simp]:
  "hs_cfg (snd (hs_call f s)) = hs_cfg s"
  "hs_devices (snd (hs_call f s)) = hs_devices s"
  "brg_world (hs_bridge (snd (hs_call f s))) = snd (f (brg_world (hs_bridge s)))"
  "fst (hs_call f s) = fst (f (brg_world (hs_bridge s)))"
  by (simp_all add: hs_call_def case_prod_beta)

abbreviation hs_store :: "HttpServer \<Rightarrow> Store" where
  "hs_store s \<equiv> w_store (brg_world (hs_bridge s))"

lemma PublishCommand_store [simp]:
  "w_store (brg_world (snd (PublishCommand d p b))) = w_store (brg_world b)"
  by (simp add: PublishCommand_def Client_Send_def case_prod_beta Let_def split: option.splits)

text \<open>The tables after a request: only a registration writes, and only to \<open>devices\<close>.\<close>

definition same_tables :: "Store \<Rightarrow> Store \<Rightarrow> bool" where
  "same_tables st st' =
     (db_devices st' = db_devices st \<and> db_messages st' = db_messages st \<and> db_offline st' = db_offline st)"

lemma query_tables [simp]:
  "same_tables st (snd (GetDevice i st))"
  "same_tables st (snd (ListDevices st))"
  "same_tables st (snd (GetTelemetry i n st))"
  "same_tables st (snd (ListMessages n st))"
  "same_tables st (snd (GetMetricsSummary st))"
  by (auto simp: same_tables_def GetDevice_def ListDevices_def GetTelemetry_def ListMessages_def
      queryMessages_def GetMetricsSummary_def db_exec_def Let_def split: option.splits sum.splits)

lemma RegisterDevice_tables [simp]:
  "db_messages (snd (RegisterDevice i n m st)) = db_messages st"
  "db_offline (snd (RegisterDevice i n m st)) = db_offline st"
  by (auto simp: RegisterDevice_def db_exec_def Let_def split: option.splits sum.splits prod.splits)

lemma same_tables_refl [simp]: "same_tables st st"
  by (simp add: same_tables_def)

lemma handler_tables:
  "same_tables (hs_store s) (hs_store (snd (healthz w s)))"
  "same_tables (hs_store s) (hs_store (snd (http_issueToken D i w s)))"
  "same_tables (hs_store s) (hs_store (snd (listDevices w s)))"
  "same_tables (hs_store s) (hs_store (snd (deviceTelemetry r i w s)))"
  "same_tables (hs_store s) (hs_store (snd (sendCommand r i w s)))"
  "same_tables (hs_store s) (hs_store (snd (listMessages r w s)))"
  "same_tables (hs_store s) (hs_store (snd (metricsSummary w s)))"
  "same_tables (hs_store s) (hs_store (snd (metricsRaw fetch w s)))"
  "same_tables (hs_store s) (hs_store (snd (websocketTelemetry up w s)))"
  by (simp_all add: handler_defs Devices_IssueToken_def Devices_List_def Devices_Telemetry_def
      Devices_Messages_def case_prod_beta Let_def split: sum.splits fetched.splits)

lemma registerDevice_tables:
  "db_messages (hs_store (snd (registerDevice r w s))) = db_messages (hs_store s)"
  "db_offline (hs_store (snd (registerDevice r w s))) = db_offline (hs_store s)"
  by (simp_all add: registerDevice_def Devices_Register_def case_prod_beta split: sum.splits)

lemma routes_tables:
  assumes "\<not> (req_Method r = ''POST'' \<and> req_Path r = [''devices'', ''register''])"
  shows "same_tables (hs_store s) (hs_store (snd (routes D fetch up r w s)))"
proof -
  have "req_Path r \<noteq> [''devices'', ''register''] \<or> req_Method r \<notin> set (allowed_methods (req_Path r))"
    using assms by (auto simp: allowed_methods_def)
  then show ?thesis
    unfolding routes_def Let_def by (auto simp: handler_tables)
qed

lemma ServeHTTP_store_wf:
  assumes "store_wf (hs_store s)"
  shows "store_wf (hs_store (snd (ServeHTTP D fetch up r s)))"
proof (cases "req_Method r = ''POST'' \<and> req_Path r = [''devices'', ''register'']")
  case True
  then show ?thesis
    using assms by (simp add: ServeHTTP_def cors_def Let_def routes_def allowed_methods_def
        registerDevice_def Devices_Register_def case_prod_beta keeps_keys split: sum.splits)
next
  case False
  have "same_tables (hs_store s) (hs_store (snd (routes D fetch up r w s)))" for w
    by (rule routes_tables) (use False in blast)
  then have "same_tables (hs_store s) (hs_store (snd (ServeHTTP D fetch up r s)))"
    unfolding ServeHTTP_def cors_def Let_def by auto
  with assms show ?thesis by (simp add: same_tables_def store_wf_def)
qed

section \<open>Properties\<close>


text \<open>
  C19: the API writes to the database only when a device is registered: whatever the request,
  the tables of messages and of queued messages are unchanged, and the table of devices is
  unchanged unless the request is \<open>POST /devices/register\<close>.
\<close>

theorem ServeHTTP_tables:
  assumes "ServeHTTP D fetch up r s = (rsp, s')"
  shows "db_messages (hs_store s') = db_messages (hs_store s)
    \<and> db_offline (hs_store s') = db_offline (hs_store s)
    \<and> (db_devices (hs_store s') \<noteq> db_devices (hs_store s) \<longrightarrow>
         req_Method r = ''POST'' \<and> req_Path r = [''devices'', ''register''])"
proof -
  have eq: "s' = snd (ServeHTTP D fetch up r s)" using assms by simp
  show ?thesis
  proof (cases "req_Method r = ''POST'' \<and> req_Path r = [''devices'', ''register'']")
    case True
    then show ?thesis
      unfolding eq ServeHTTP_def by (simp add: cors_def Let_def routes_def allowed_methods_def registerDevice_tables)
  next
    case False
    have "same_tables (hs_store s) (hs_store (snd (routes D fetch up r w s)))" for w
      by (rule routes_tables) (use False in blast)
    then have "same_tables (hs_store s) (hs_store s')"
      unfolding eq ServeHTTP_def cors_def Let_def by auto
    with False show ?thesis by (simp add: same_tables_def)
  qed
qed

section \<open>Concrete runs\<close>

text \<open>A server over the bridge of the concrete run, and the registration of a device.\<close>

definition sample_server :: HttpServer where
  "sample_server = NewServer bridge_config (NewDeviceService (Service_New sample_auth) 0)
     (setClient sample_client sample_bridge)"

definition sample_request :: "string \<Rightarrow> string list \<Rightarrow> Request" where
  "sample_request meth path =
     \<lparr>req_Method = meth, req_Path = path, req_Origin = [], req_Limit = [],
      req_Register = Inr (''d1'', ''pump'', None), req_Body = Inr ''{on}''\<rparr>"

definition no_fetch :: "string \<Rightarrow> fetched" where
  "no_fetch url = Unreachable ''connection refused''"

abbreviation serve :: "Request \<Rightarrow> HttpServer \<Rightarrow> Response \<times> HttpServer" where
  "serve \<equiv> ServeHTTP (\<lambda>_. ''0s'') no_fetch (Inl ''not a handshake'')"

definition registered_server :: HttpServer where
  "registered_server = snd (serve (sample_request ''POST'' [''devices'', ''register'']) sample_server)"

lemma serve_plain:
  "req_Origin r = [] \<Longrightarrow> req_Method r \<noteq> ''OPTIONS'' \<Longrightarrow>
     ServeHTTP D fetch up r s = routes D fetch up r fresh_response s"
  by (simp add: ServeHTTP_def cors_def)

lemma registered_server_eq:
  "registered_server = snd (registerDevice (sample_request ''POST'' [''devices'', ''register'']) fresh_response
     sample_server)"
  by (simp add: registered_server_def serve_plain routes_def allowed_methods_def sample_request_def)

theorem ServeHTTP_tables_witness:
  "db_messages (hs_store registered_server) = [] \<and> map row_id (db_devices (hs_store registered_server)) = [''d1'']"
proof -
  have "map row_id (db_devices (hs_store registered_server)) = [''d1'']"
    and "db_messages (hs_store sample_server) = []"
    by (simp_all add: registered_server_eq sample_request_def registerDevice_def hs_call_def brg_call_def
        Devices_Register_def on_store_def RegisterDevice_def db_exec_def upsert_device_def scanDevice_def
        marshal_metadata_def sample_server_def NewServer_def setClient_def sample_bridge_def NewBridge_def
        d1_world_def calm_world_def empty_store_def Let_def)
  moreover have "serve (sample_request ''POST'' [''devices'', ''register'']) sample_server =
      (fst (serve (sample_request ''POST'' [''devices'', ''register'']) sample_server), registered_server)"
    unfolding registered_server_def by (rule prod.collapse [symmetric])
  from ServeHTTP_tables [OF this] have "db_messages (hs_store registered_server) = db_messages (hs_store sample_server)"
    by (rule conjunct1)
  ultimately show ?thesis by (metis (no_types))
qed

end
