(* ===== verification/Daemon.thy ===== *)
theory Daemon
  imports Broker Http
begin

text \<open>
  Starting and stopping: \<open>cmd/crabmqd/main.go\<close>, the QUIC listener of
  \<open>internal/transport/quic/server.go\<close>, opening the database (\<open>api/db/store.go\<close>), the
  metrics endpoint and the HTTP server's \<open>Serve\<close>. What a library call returns is an argument;
  a goroutine's result is what it sends on its channel.
\<close>

section \<open>The database\<close>

text \<open>\<open>CREATE ... IF NOT EXISTS\<close>: one statement that leaves existing tables as they are.\<close>

definition EnsureSchema :: "Store \<Rightarrow> error option \<times> Store" where
  "EnsureSchema st =
     (case db_exec st of
        (Some err, st) \<Rightarrow> (Some (''ensure schema: '' @ err), st)
      | (None, st) \<Rightarrow> (None, st))"

text \<open>
  \<open>Open\<close> on a database with the rows of \<open>st\<close>; the flag tells whether the handle was closed
  again.
\<close>

definition Open :: "error option \<Rightarrow> error option \<Rightarrow> Store \<Rightarrow> (error + Store) \<times> bool" where
  "Open opened pinged st =
     (case opened of
        Some err \<Rightarrow> (Inl (''open postgres: '' @ err), False)
      | None \<Rightarrow>
          (case pinged of
             Some err \<Rightarrow> (Inl (''ping postgres: '' @ err), False)
           | None \<Rightarrow>
               (case EnsureSchema st of
                  (Some err, st) \<Rightarrow> (Inl err, True)
                | (None, st) \<Rightarrow> (Inr st, False))))"

section \<open>The listener\<close>

record 'cert TLSConfig =
  tls_NextProtos :: "string list"
  tls_Certificates :: "'cert list"
  tls_MinVersion :: nat

definition VersionTLS13 :: nat where
  "VersionTLS13 = 0x0304"

text \<open>
  The template of the generated certificate; key usages and the two names are constants of it.
  The serial number is the clock's nanoseconds since 1970, and each clock reading is an argument.
\<close>

record certificate =
  crt_SerialNumber :: int
  crt_NotBefore :: time
  crt_NotAfter :: time
  crt_KeyUsage :: "string list"
  crt_ExtKeyUsage :: "string list"
  crt_IPAddresses :: "string list"
  crt_DNSNames :: "string list"

definition unix_epoch :: time where
  "unix_epoch = 62135596800 * Second"

definition certificate_template :: "time \<Rightarrow> time \<Rightarrow> time \<Rightarrow> certificate" where
  "certificate_template now1 now2 now3 =
     \<lparr>crt_SerialNumber = now1 - unix_epoch, crt_NotBefore = now2 - Hour,
      crt_NotAfter = now3 + 365 * 24 * Hour,
      crt_KeyUsage = [''DigitalSignature'', ''KeyEncipherment''], crt_ExtKeyUsage = [''ServerAuth''],
      crt_IPAddresses = [''127.0.0.1''], crt_DNSNames = [''localhost'']\<rparr>"

text \<open>The calls of the crypto libraries: generating a key, signing the template, reading the key pair.\<close>

definition generateSelfSignedCertificate ::
  "error + 'key \<Rightarrow> (certificate \<Rightarrow> 'key \<Rightarrow> error + 'der) \<Rightarrow> ('der \<Rightarrow> 'key \<Rightarrow> error + 'cert) \<Rightarrow>
   time \<Rightarrow> time \<Rightarrow> time \<Rightarrow> error + 'cert" where
  "generateSelfSignedCertificate GenerateKey CreateCertificate X509KeyPair now1 now2 now3 =
     (case GenerateKey of
        Inl err \<Rightarrow> Inl (''generate private key: '' @ err)
      | Inr privateKey \<Rightarrow>
          (case CreateCertificate (certificate_template now1 now2 now3) privateKey of
             Inl err \<Rightarrow> Inl (''create certificate: '' @ err)
           | Inr certDER \<Rightarrow>
               (case X509KeyPair certDER privateKey of
                  Inl err \<Rightarrow> Inl (''parse keypair: '' @ err)
                | Inr certificate \<Rightarrow> Inr certificate)))"

definition tlsConfig ::
  "(string \<Rightarrow> string \<Rightarrow> error + 'cert) \<Rightarrow> error + 'cert \<Rightarrow> BrokerConfig \<Rightarrow> error + 'cert TLSConfig" where
  "tlsConfig LoadX509KeyPair generated cfg =
     (if brk_CertFile cfg \<noteq> [] \<and> brk_KeyFile cfg \<noteq> [] then
        (case LoadX509KeyPair (brk_CertFile cfg) (brk_KeyFile cfg) of
           Inl err \<Rightarrow> Inl (''load tls keypair: '' @ err)
         | Inr cert \<Rightarrow>
             Inr \<lparr>tls_NextProtos = [brk_ProtocolName cfg], tls_Certificates = [cert],
                  tls_MinVersion = VersionTLS13\<rparr>)
      else
        (case generated of
           Inl err \<Rightarrow> Inl err
         | Inr cert \<Rightarrow>
             Inr \<lparr>tls_NextProtos = [brk_ProtocolName cfg], tls_Certificates = [cert],
                  tls_MinVersion = VersionTLS13\<rparr>))"

text \<open>A result of \<open>Accept\<close>: a connection, or an error with whether the context had ended.\<close>

datatype accepted = Accepted conn | AcceptFailed error bool

text \<open>
  The loop of \<open>Listen\<close>: the connections for which \<open>handleConn\<close> was started. The result is
  \<open>None\<close> while it waits for a connection.
\<close>

fun accept_loop :: "accepted list \<Rightarrow> conn list \<Rightarrow> error option option \<times> conn list" where
  "accept_loop [] started = (None, started)"
| "accept_loop (Accepted c # rest) started = accept_loop rest (started @ [c])"
| "accept_loop (AcceptFailed err cancelled # rest) started =
     (Some (if cancelled then None else Some (''accept quic connection: '' @ err)), started)"

definition Listen ::
  "error + 'cert TLSConfig \<Rightarrow> error option \<Rightarrow> accepted list \<Rightarrow> error option option \<times> conn list" where
  "Listen tls listening accepts =
     (case tls of
        Inl err \<Rightarrow> (Some (Some err), [])
      | Inr _ \<Rightarrow>
          (case listening of
             Some err \<Rightarrow> (Some (Some (''listen quic: '' @ err)), [])
           | None \<Rightarrow> accept_loop accepts []))"

text \<open>
  \<open>handleConn\<close>: without a stream the connection is closed and no handler runs; the broker's
  handler is \<open>handleConnection\<close>.
\<close>

definition handleConn ::
  "error option \<Rightarrow> conn \<Rightarrow> (error + Packet) list \<Rightarrow> Server \<Rightarrow> bool \<times> Server" where
  "handleConn streamed c received s =
     (case streamed of
        Some err \<Rightarrow> (False, s\<lparr>srv_world := Close c (srv_world s)\<rparr>)
      | None \<Rightarrow> handleConnection c received s)"

section \<open>The servers\<close>

text \<open>How \<open>ListenAndServe\<close> of an HTTP server ends.\<close>

datatype serve_end = ErrServerClosed | ServeFailed error

definition Metrics_Start :: "serve_end \<Rightarrow> error option" where
  "Metrics_Start e =
     (case e of ErrServerClosed \<Rightarrow> None | ServeFailed err \<Rightarrow> Some (''metrics server: '' @ err))"

definition Http_Serve :: "serve_end \<Rightarrow> error option" where
  "Http_Serve e = (case e of ErrServerClosed \<Rightarrow> None | ServeFailed err \<Rightarrow> Some err)"

text \<open>
  The broker as \<open>runBroker\<close> builds it from the configuration, and \<open>Run\<close>: the end of the
  metrics endpoint is only logged, the result is the listener's.
\<close>

definition runBroker :: "Config \<Rightarrow> world \<Rightarrow> Server" where
  "runBroker cfg w = Server_New (cfg_Auth cfg) (brk_RateLimitPerMin (cfg_Broker cfg)) w"

definition Run ::
  "(string \<Rightarrow> string \<Rightarrow> error + 'cert) \<Rightarrow> error + 'cert \<Rightarrow> error option \<Rightarrow> accepted list \<Rightarrow> Config \<Rightarrow>
   error option option \<times> conn list" where
  "Run LoadX509KeyPair generated listening accepts cfg =
     Listen (tlsConfig LoadX509KeyPair generated (cfg_Broker cfg)) listening accepts"

text \<open>
  What the \<open>select\<close> of \<open>runAPI\<close> and \<open>runAll\<close> meets first: the end of the context or
  the result of one of the two goroutines.
\<close>

datatype first_end = CtxDone | ErrCh "error option"

definition await :: "first_end \<Rightarrow> error option" where
  "await e = (case e of CtxDone \<Rightarrow> None | ErrCh err \<Rightarrow> err)"

section \<open>The daemon\<close>

datatype Level = LevelDebug | LevelInfo | LevelWarn | LevelError

definition newLogger :: "string \<Rightarrow> Level" where
  "newLogger level =
     (if level = ''debug'' then LevelDebug
      else if level = ''warn'' then LevelWarn
      else if level = ''error'' then LevelError
      else LevelInfo)"

text \<open>
  The exit status of \<open>main\<close>: \<open>opened\<close> is the result of \<open>Open\<close>, the other arguments
  are the results of the three commands.
\<close>

definition main_exit ::
  "string list \<Rightarrow> error + Store \<Rightarrow> error option \<Rightarrow> error option \<Rightarrow> error option \<Rightarrow> nat" where
  "main_exit Args opened broker api both =
     (let command = (if 1 < length Args then Args ! 1 else ''all'');
          status = (\<lambda>r. case r of Some err \<Rightarrow> 1 | None \<Rightarrow> 0)
      in case opened of
           Inl err \<Rightarrow> 1
         | Inr store \<Rightarrow>
             if command = ''broker'' then status broker
             else if command = ''api'' then status api
             else if command = ''all'' then status both
             else 2)"

section \<open>Lemmas\<close>

text \<open>
  The listener hands every accepted connection to a handler, in order, and returns without an
  error only when the context has ended.
\<close>

lemma accept_loop_outcome:
  "accept_loop as started = (res, conns) \<Longrightarrow>
     \<exists>cs rest. as = map Accepted cs @ rest \<and> conns = started @ cs
       \<and> (case res of
            None \<Rightarrow> rest = []
          | Some None \<Rightarrow> \<exists>err rest'. rest = AcceptFailed err True # rest'
          | Some (Some e) \<Rightarrow> \<exists>err rest'. rest = AcceptFailed err False # rest'
              \<and> e = ''accept quic connection: '' @ err)"
proof (induction as started rule: accept_loop.induct)
  case (1 started)
  then show ?case by auto
next
  case (2 c rest started)
  from "2.IH" "2.prems" obtain cs rest' where "rest = map Accepted cs @ rest'" "conns = (started @ [c]) @ cs"
    and "case res of
            None \<Rightarrow> rest' = []
          | Some None \<Rightarrow> \<exists>err rest''. rest' = AcceptFailed err True # rest''
          | Some (Some e) \<Rightarrow> \<exists>err rest''. rest' = AcceptFailed err False # rest''
              \<and> e = ''accept quic connection: '' @ err" by auto
  then show ?case by (intro exI [of _ "c # cs"] exI [of _ rest']) simp
next
  case (3 err cancelled rest started)
  then show ?case by (intro exI [of _ "[]"] exI [of _ "AcceptFailed err cancelled # rest"]) auto
qed

text \<open>Opening the database keeps the rows of the tables.\<close>

lemma Open_rows:
  "fst (Open opened pinged st) = Inr st' \<Longrightarrow> same_tables st st'"
  by (auto simp: Open_def EnsureSchema_def db_exec_def same_tables_def split: option.splits)

end
