(* ===== verification/End_To_End.thy ===== *)
theory End_To_End
  imports Guarantees Daemon
begin

text \<open>
  The processes together: what the API and the client library write is what the broker reads,
  and what the broker writes is what they read. The broker's state and the state of the API
  process are separate values; the packets in between are named.
\<close>

section \<open>The bridge's side of a handshake\<close>

definition subscribe_request :: "Client \<Rightarrow> Subscription list \<Rightarrow> string \<Rightarrow> time \<Rightarrow> Packet" where
  "subscribe_request client subs i now =
     zero_Packet\<lparr>pkt_Type := PacketSubscribe, pkt_PacketID := i,
       pkt_ClientID := ccf_ClientID (cli_cfg client), pkt_Subscriptions := subs, pkt_Timestamp := now\<rparr>"

text \<open>What the bridge writes does not depend on what it reads, as long as that is a \<open>CONNACK\<close>.\<close>

lemma handshake_writes:
  assumes "\<And>n q. w_link (brg_world b) n (cli_stream client) q = None"
  obtains t1 i t2 where
    "\<And>a k. att_connack a = Inr k \<Longrightarrow> pkt_Type k = PacketConnAck \<Longrightarrow>
       w_wire (brg_world (snd (bridge_handshake a client b))) = w_wire (brg_world b)
         @ [(cli_stream client, connect_request client [(''role'', ''bridge'')] t1),
            (cli_stream client, subscribe_request client [telemetry_subscription] i t2)]"
  using assms
  by (intro that [of "fst (TimestampNow (brg_world b))" "fst (NewPacketID (brg_world b))"
        "fst (TimestampNow (snd (TimestampNow (brg_world b))))"])
    (simp add: bridge_handshake_def brg_call_def Client_Connect_def Client_Subscribe_def Client_Send_def
      Send_def TimestampNow_def NewPacketID_def connect_request_def subscribe_request_def Let_def
      case_prod_beta split: sum.splits)

lemma handshake_result:
  assumes "\<And>n q. w_link (brg_world b) n (cli_stream client) q = None"
    and "att_connack a = Inr k" and "pkt_Type k = PacketConnAck" and "att_suback a = Inr q"
  shows "fst (bridge_handshake a client b) =
    (if pkt_Type q = PacketSubAck then None else Some ''api bridge expected SUBACK'')"
  using assms
  by (simp add: bridge_handshake_def brg_call_def Client_Connect_def Client_Subscribe_def Client_Send_def
      Send_def TimestampNow_def NewPacketID_def Let_def case_prod_beta)

section \<open>The broker's side\<close>

lemma link_world [simp]:
  "w_link (snd (Send c p w)) = w_link w"
  "w_link (snd (on_store f w)) = w_link w"
  "w_link (snd (Pending cl w)) = w_link w"
  by (auto simp: Send_def on_store_def Pending_def case_prod_beta split: option.splits sum.splits)

lemma link_calls [simp]:
  "w_link (srv_world (snd (srv_now s))) = w_link (srv_world s)"
  "w_link (srv_world (snd (srv_send c p s))) = w_link (srv_world s)"
  "w_link (srv_world (snd (reply c b s))) = w_link (srv_world s)"
  by (simp_all add: srv_now_def TimestampNow_def srv_send_def reply_def case_prod_beta)

lemma link_handlers [simp]:
  "w_link (srv_world (snd (authenticate c r s))) = w_link (srv_world s)"
  "w_link (srv_world (snd (deliver_loop c ps s))) = w_link (srv_world s)"
  "w_link (srv_world (snd (deliverOffline cl c s))) = w_link (srv_world s)"
  "w_link (srv_world (snd (admit cl s))) = w_link (srv_world s)"
proof -
  show deliver: "w_link (srv_world (snd (deliver_loop c ps s))) = w_link (srv_world s)" for ps s
    by (induction ps arbitrary: s) (simp_all add: case_prod_beta split: option.splits)
  have "w_link (srv_world (snd (check_connect r s))) = w_link (srv_world s)" for s
    by (simp add: check_connect_def case_prod_beta Let_def split: sum.splits)
  moreover have "w_link (srv_world (snd (open_session c cl clm s))) = w_link (srv_world s)" for cl clm s
    by (simp add: open_session_def case_prod_beta Let_def split: option.splits)
  ultimately show "w_link (srv_world (snd (authenticate c r s))) = w_link (srv_world s)"
    by (simp add: authenticate_def case_prod_beta split: sum.splits)
  show "w_link (srv_world (snd (deliverOffline cl c s))) = w_link (srv_world s)"
    by (simp add: deliverOffline_def case_prod_beta deliver split: sum.splits)
  show "w_link (srv_world (snd (admit cl s))) = w_link (srv_world s)"
    by (simp add: admit_def case_prod_beta Let_def)
qed

lemma deliverOffline_queue [simp]:
  "db_offline (w_store (srv_world (snd (deliverOffline cl c s)))) = db_offline (w_store (srv_world s))"
  by (simp add: deliverOffline_def case_prod_beta split: sum.splits)

text \<open>A client without queued messages gets nothing between its \<open>CONNACK\<close> and its next reply.\<close>

lemma deliverOffline_none:
  assumes "\<forall>r \<in> set (db_offline (w_store (srv_world s))). off_ClientID r \<noteq> cl"
  shows "w_wire (srv_world (snd (deliverOffline cl c s))) = w_wire (srv_world s)"
proof (cases "fst (Pending cl (srv_world s))")
  case (Inl e)
  then show ?thesis by (simp add: deliverOffline_def case_prod_beta)
next
  case (Inr ps)
  from Pending_rows [OF Inr] obtain rows where "ps = map (pending_packet \<circ> scanOffline) rows"
    and "set rows = {r \<in> set (db_offline (w_store (srv_world s))). off_ClientID r = cl}" by blast
  with assms have "set rows = {}" and "ps = map (pending_packet \<circ> scanOffline) rows" by auto
  then have "ps = []" by simp
  with Inr show ?thesis by (simp add: deliverOffline_def case_prod_beta)
qed

text \<open>A \<open>SUBSCRIBE\<close> of an administrator that the limiter admits, over a link without errors.\<close>

lemma admin_subscribe:
  assumes "pkt_Type p = PacketSubscribe" and "pkt_Subscriptions p \<noteq> []"
    and "clm_Role claims = ''admin''" and "fst (admit cl s)"
    and link: "\<And>n q. w_link (srv_world s) n c q = None"
  shows "\<exists>s' t. handlePacket c cl claims p s = (True, s')
    \<and> w_wire (srv_world s') = w_wire (srv_world s) @ [(c, SubAck (pkt_PacketID p) t)]
    \<and> srv_subscriptions s' = Registry_Add (srv_subscriptions s) cl (pkt_Subscriptions p)"
proof -
  let ?s0 = "snd (admit cl s)"
  let ?s1 = "metric (add_Subscriptions (int (length (pkt_Subscriptions p))))
     (?s0\<lparr>srv_subscriptions := Registry_Add (srv_subscriptions ?s0) cl (pkt_Subscriptions p),
         srv_sessions := AddSubscriptions (srv_sessions ?s0) cl (pkt_Subscriptions p)\<rparr>)"
  let ?r = "reply c (SubAck (pkt_PacketID p)) ?s1"
  have ok: "fst ?r = None" by (rule reply_linked) (use link in simp)
  have "check_subscriptions claims (pkt_Subscriptions p) = None"
    using assms(3) by (simp add: check_subscriptions_None CanSubscribe_None_iff)
  then have "handlePacket c cl claims p s = (True, metric inc_PacketsOut (snd ?r))"
    using assms(1,2,4) ok
    by (simp add: handlePacket_def case_prod_beta dispatch_def handleSubscribe_def Let_def
        split: option.splits)
  with reply_wire [OF ok] show ?thesis by auto
qed

lemma admit_fresh: "map_of (rl_seen (srv_limiter s)) cl = None \<Longrightarrow> fst (admit cl s)"
  by (simp add: admit_def Allow_def case_prod_beta Let_def)

text \<open>The token the bridge issues to itself is an administrator's.\<close>

lemma admin_token_parsed:
  assumes "lib_round_trip lib" and "IssueAdminToken lib issued auth cl ttl = Inr token"
    and "now < lib_NewNumericDate lib (issued + (if ttl \<le> 0 then svc_adminTTL auth else ttl))"
  shows "\<exists>claims. Parse lib now auth token = Inr claims \<and> clm_Role claims = ''admin'' \<and> clm_ClientID claims = cl"
  using Parse_issueToken [OF assms(1) assms(2) [unfolded IssueAdminToken_def Let_def] assms(3)] by simp

section \<open>Properties\<close>


text \<open>What the broker writes between the \<open>CONNACK\<close> and the first reply, when messages are queued.\<close>

lemma deliverOffline_first:
  assumes "deliverOffline cl c s = (None, s')"
    and "r \<in> set (db_offline (w_store (srv_world s)))" and "off_ClientID r = cl"
  shows "\<exists>q rest. w_wire (srv_world s') = w_wire (srv_world s) @ (c, q) # rest \<and> pkt_Type q = PacketPublish"
proof -
  from assms(1) obtain ps where ps: "fst (Pending cl (srv_world s)) = Inr ps"
    by (cases "fst (Pending cl (srv_world s))") (auto simp: deliverOffline_def case_prod_beta)
  let ?s0 = "s\<lparr>srv_world := snd (Pending cl (srv_world s))\<rparr>"
  have loop: "deliver_loop c ps ?s0 = (None, s')"
    using assms(1) ps by (simp add: deliverOffline_def case_prod_beta)
  from Pending_rows [OF ps] obtain rows where rows: "ps = map (pending_packet \<circ> scanOffline) rows"
    and "set rows = {r \<in> set (db_offline (w_store (srv_world s))). off_ClientID r = cl}" by blast
  with assms(2,3) have "r \<in> set rows" by blast
  then obtain r0 rest where "rows = r0 # rest" by (cases rows) auto
  with rows have "ps = pending_packet (scanOffline r0) # map (pending_packet \<circ> scanOffline) rest" by simp
  with deliver_loop_all [of c ps ?s0] loop show ?thesis by (auto simp: pending_packet_def)
qed


text \<open>What the API answers to the two requests that lead to the broker.\<close>

lemma ServeHTTP_token:
  assumes "ServeHTTP D fetch up r s = (rsp, s')" and "req_Method r = ''POST''"
    and "req_Path r = [''devices'', d, ''token'']"
  shows "\<exists>w. http_issueToken D d w s = (rsp, s')"
  using assms unfolding ServeHTTP_def cors_def Let_def
  by (auto simp: routes_def allowed_methods_def Let_def)

lemma ServeHTTP_command:
  assumes "ServeHTTP D fetch up r s = (rsp, s')" and "req_Method r = ''POST''"
    and "req_Path r = [''devices'', d, ''command'']"
  shows "\<exists>w. sendCommand r d w s = (rsp, s')"
  using assms unfolding ServeHTTP_def cors_def Let_def
  by (auto simp: routes_def allowed_methods_def Let_def)

lemma GetDevice_InrD:
  "fst (GetDevice d st) = Inr dev \<Longrightarrow> d \<in> row_id ` set (db_devices st)"
  by (auto simp: GetDevice_def db_exec_def find_Some_iff split: option.splits)

lemma http_issueToken_TokenD:
  assumes "http_issueToken D d w s = (rsp, s')" and "rsp_Body rsp = JSONBody (TokenPayload token ttl)"
  shows "d \<in> row_id ` set (db_devices (hs_store s))
    \<and> IssueDeviceToken (w_jwt (brg_world (hs_bridge s)))
        (w_clock (brg_world (hs_bridge s)) (w_ticks (brg_world (hs_bridge s))))
        (ds_auth (hs_devices s)) d (ds_tokenTTL (hs_devices s)) = Inr token"
  using assms GetDevice_InrD [of d "hs_store s"]
  by (auto simp: http_issueToken_def Devices_IssueToken_def case_prod_beta TimestampNow_def on_store_def
      split: sum.splits)

lemma PublishCommand_InrD:
  assumes "PublishCommand d payload b = (Inr p, b')"
  shows "\<exists>client. brg_client b = Some client
    \<and> w_wire (brg_world b') = w_wire (brg_world b) @ [(cli_stream client, p)]
    \<and> pkt_Type p = PacketPublish \<and> pkt_Topic p = command_topic d
    \<and> pkt_QoS p = api_CommandQoS (cfg_API (brg_cfg b)) \<and> pkt_Payload p = payload"
proof -
  from assms obtain client where client: "brg_client b = Some client"
    by (cases "brg_client b") (auto simp: PublishCommand_def)
  let ?b1 = "snd (brg_call TimestampNow (snd (brg_call NewPacketID b)))"
  have p: "fst (brg_call (Client_Send client p) ?b1) = None" "b' = snd (brg_call (Client_Send client p) ?b1)"
    "pkt_Type p = PacketPublish" "pkt_Topic p = command_topic d"
    "pkt_QoS p = api_CommandQoS (cfg_API (brg_cfg b))" "pkt_Payload p = payload"
    using assms unfolding PublishCommand_def client
    by (auto simp: case_prod_beta Let_def command_topic_def split: option.splits)
  then show ?thesis using client by (simp add: Client_Send_def Send_wire)
qed

lemma sendCommand_PacketD:
  assumes "sendCommand r d w s = (rsp, s')" and "rsp_Body rsp = JSONBody (PacketPayload p)"
  shows "\<exists>body. req_Body r = Inr body \<and> PublishCommand d
      (Some (if length (TrimSpace body) = 0 then ''{}'' else body)) (hs_bridge s) = (Inr p, hs_bridge s')"
  using assms by (auto simp: sendCommand_def Let_def split: sum.splits prod.splits)



text \<open>Over a link without errors and a database without faults, offline delivery succeeds.\<close>

lemma deliver_loop_linked:
  "(\<And>n q. w_link (srv_world s) n c q = None) \<Longrightarrow> fst (deliver_loop c ps s) = None"
proof (induction ps arbitrary: s)
  case Nil
  then show ?case by simp
next
  case (Cons p ps)
  have "fst (srv_send c p s) = None"
    using Cons.prems by (simp add: srv_send_def Send_def case_prod_beta)
  with Cons.IH [of "metric inc_PacketsOut (snd (srv_send c p s))"] Cons.prems show ?case
    by (simp add: case_prod_beta)
qed

lemma deliverOffline_linked:
  assumes "\<And>n q. w_link (srv_world s) n c q = None"
    and "\<And>n. db_fault (w_store (srv_world s)) n = None" and "\<And>n. db_rows_err (w_store (srv_world s)) n = None"
  shows "fst (deliverOffline cl c s) = None"
proof -
  have "\<exists>ps. fst (Pending cl (srv_world s)) = Inr ps"
    using assms(2,3) by (simp add: Pending_def case_prod_beta GetOfflineMessages_def db_exec_def Let_def)
  then obtain ps where ps: "fst (Pending cl (srv_world s)) = Inr ps" ..
  have "fst (deliver_loop c ps (s\<lparr>srv_world := snd (Pending cl (srv_world s))\<rparr>)) = None"
    by (rule deliver_loop_linked) (use assms(1) in simp)
  with ps show ?thesis by (simp add: deliverOffline_def case_prod_beta)
qed

text \<open>
  C11: queued messages survive a restart of the broker. When the daemon opens the database
  again and a client connects to the new broker with a valid token, over a link without errors
  and a database without faults, it is told that no session exists and gets every message that
  was queued for it before the restart, each once and the ones available first first.
\<close>

theorem restart_delivers_queue:
  assumes "fst (Open None None st) = Inr st'"
    and "bs = runBroker cfg (w\<lparr>w_store := st'\<rparr>)"
    and "\<And>n. db_fault st n = None" and "\<And>n. db_rows_err st n = None"
    and "pkt_Type p = PacketConnect"
    and "Parse (w_jwt w) (w_clock w (w_ticks w)) (Service_New (cfg_Auth cfg)) (pkt_Token p) = Inr claims"
    and "pkt_ClientID p = cl" and "cl \<noteq> []" and "clm_Role claims = ''device'' \<Longrightarrow> clm_DeviceID claims = cl"
    and "\<And>n q. w_link w n c q = None"
  shows "\<exists>s' t rows. handleConnection c [Inr p] bs = (True, s')
    \<and> w_wire (srv_world s') = w_wire w @ (c, ConnAck ''accepted'' False t)
        # map (\<lambda>r. (c, pending_packet (scanOffline r))) rows
    \<and> mset rows = filter_mset (\<lambda>r. off_ClientID r = cl) (mset (db_offline st))
    \<and> sorted (map off_AvailableAt rows)"
proof -
  have st': "db_offline st' = db_offline st" "db_fault st' = db_fault st" "db_rows_err st' = db_rows_err st"
    using assms(1) by (auto simp: Open_def EnsureSchema_def db_exec_def split: option.splits)
  have bs: "srv_world bs = w\<lparr>w_store := st'\<rparr>" "srv_auth bs = Service_New (cfg_Auth cfg)"
    "srv_sessions bs = []"
    by (simp_all add: assms(2) runBroker_def Server_New_def NewStore_def)
  obtain s1 subs t where auth: "authenticate c (Inr p) bs = (Inr (cl, claims, subs), s1)"
    and w1: "w_wire (srv_world s1) = w_wire w @ [(c, ConnAck ''accepted'' False t)]"
    using accept_connect [OF assms(5), of bs claims cl c] assms(6-10)
    by (auto simp: bs session_known_def)
  have store: "w_store (srv_world s1) = st'" and link: "w_link (srv_world s1) = w_link w"
    using authenticate_frame(4) [of c "Inr p" bs] link_handlers(1) [of c "Inr p" bs] by (simp_all add: auth bs)
  have "fst (deliverOffline cl c s1) = None"
    by (rule deliverOffline_linked) (simp_all add: store link st' assms(3,4,10))
  then have "deliverOffline cl c s1 = (None, snd (deliverOffline cl c s1))" by (simp add: prod_eq_iff)
  from deliverOffline_rows [OF this] obtain rows
    where "mset rows = filter_mset (\<lambda>r. off_ClientID r = cl) (mset (db_offline st))"
      and "sorted (map off_AvailableAt rows)"
      and "w_wire (srv_world (snd (deliverOffline cl c s1))) =
        w_wire (srv_world s1) @ map (\<lambda>r. (c, pending_packet (scanOffline r))) rows"
    by (auto simp: store st')
  moreover have "handleConnection c [Inr p] bs = (True, snd (deliverOffline cl c s1))"
    by (simp add: auth)
  ultimately show ?thesis using w1 by auto
qed

section \<open>Concrete runs\<close>

lemma sample_links: "w_link (brg_world sample_bridge) n c q = None" "w_link (srv_world run0) n c q = None"
  by (simp_all add: sample_bridge_def NewBridge_def d1_world_def calm_world_def run0_def)

lemma sample_client_cfg:
  "ccf_ClientID (cli_cfg sample_client) = ''ops''" "ccf_Token (cli_cfg sample_client) = ''adm''"
  by (simp_all add: sample_client_def dial_config_def)

lemma sample_admin_token: "IssueAdminToken sample_lib 0 (Service_New sample_auth) ''ops'' 0 = Inr ''adm''"
  by code_simp


text \<open>A broker that holds a telemetry message for the bridge.\<close>

definition ops_row :: OfflineMessage where
  "ops_row = \<lparr>off_PacketID = ''t1'', off_ClientID = ''ops'', off_Topic = ''device/d1/telemetry'', off_QoS = 1,
     off_Payload = Some ''{}'', off_EnqueuedAt = 2, off_AvailableAt = 2\<rparr>"

definition queued_broker :: Server where
  "queued_broker = run0\<lparr>srv_world :=
     (srv_world run0)\<lparr>w_store := (w_store (srv_world run0))\<lparr>db_offline := [ops_row]\<rparr>\<rparr>\<rparr>"

definition bridge_request :: Packet where
  "bridge_request = connect_request sample_client [(''role'', ''bridge'')] 1"

lemma queued_broker_runs:
  "fst (authenticate 5 (Inr bridge_request) queued_broker) = Inr (''ops'', admin_claims, [])"
  "fst (deliverOffline ''ops'' 5 (snd (authenticate 5 (Inr bridge_request) queued_broker))) = None"
  by (simp_all add: queued_broker_def run0_def bridge_request_def connect_request_def sample_client_cfg
      connect_eval deliverOffline_def Pending_def GetOfflineMessages_def db_exec_def scan_def Let_def
      ops_row_def cong: let_weak_cong)


text \<open>The command of the concrete request, and the broker of the concrete run.\<close>

definition api_command :: Packet where
  "api_command = zero_Packet\<lparr>pkt_Type := PacketPublish, pkt_PacketID := ''u'', pkt_ClientID := ''ops'',
     pkt_Topic := command_topic ''d1'', pkt_QoS := 1, pkt_Payload := Some ''{on}''\<rparr>"

lemma bridge_settings:
  "api_CommandQoS (cfg_API bridge_config) = 1" "api_BridgeClientID (cfg_API bridge_config) = ''ops''"
  "brg_cfg (hs_bridge sample_server) = bridge_config"
  by (simp_all add: bridge_config_def Load_def envInt_def Let_def sample_server_def NewServer_def
      setClient_def sample_bridge_def NewBridge_def)

lemma TrimSpace_body: "length (TrimSpace ''{on}'') \<noteq> 0"
  by code_simp

lemma api_command_answer:
  "rsp_Body (fst (serve (sample_request ''POST'' [''devices'', ''d1'', ''command'']) sample_server)) =
     JSONBody (PacketPayload api_command)"
proof -
  have "serve (sample_request ''POST'' [''devices'', ''d1'', ''command'']) sample_server =
      sendCommand (sample_request ''POST'' [''devices'', ''d1'', ''command'']) ''d1'' fresh_response sample_server"
    by (simp add: serve_plain routes_def allowed_methods_def sample_request_def Let_def)
  then show ?thesis
    using TrimSpace_body bridge_settings
    by (simp add: sendCommand_def sample_request_def PublishCommand_def sample_server_def NewServer_def
        setClient_def sample_bridge_def NewBridge_def brg_call_def NewPacketID_def TimestampNow_def
        Client_Send_def Send_def d1_world_def calm_world_def api_command_def command_topic_def zero_Packet_def
        Let_def)
qed

lemma run3_api_command: "fst (handlePublish 2 ''ops'' admin_claims api_command run3) = None"
  by (simp add: run3_def publish_eval api_command_def run_session_def surroundings_eval cong: let_weak_cong)


text \<open>The token of the concrete run, for a registered device.\<close>

definition device_client :: Client where
  "device_client = \<lparr>cli_cfg = (cli_cfg sample_client)\<lparr>ccf_ClientID := ''d1'', ccf_Token := ''tok''\<rparr>, cli_stream = 9\<rparr>"

lemma registered_world:
  "w_jwt (brg_world (hs_bridge registered_server)) = sample_lib"
  "w_clock (brg_world (hs_bridge registered_server)) n = 0"
  "hs_devices registered_server = NewDeviceService (Service_New sample_auth) 0"
  "\<exists>dev. fst (GetDevice ''d1'' (hs_store registered_server)) = Inr dev"
  by (simp_all add: registered_server_eq sample_request_def registerDevice_def hs_call_def brg_call_def
      Devices_Register_def on_store_def RegisterDevice_def GetDevice_def db_exec_def upsert_device_def
      scanDevice_def marshal_metadata_def sample_server_def NewServer_def setClient_def sample_bridge_def
      NewBridge_def d1_world_def calm_world_def empty_store_def Let_def)

lemma api_token_answer:
  "rsp_Body (fst (serve (sample_request ''POST'' [''devices'', ''d1'', ''token'']) registered_server)) =
     JSONBody (TokenPayload ''tok'' ''0s'')"
proof -
  have "serve (sample_request ''POST'' [''devices'', ''d1'', ''token'']) registered_server =
      http_issueToken (\<lambda>_. ''0s'') ''d1'' fresh_response registered_server"
    by (simp add: serve_plain routes_def allowed_methods_def sample_request_def Let_def)
  then show ?thesis
    using registered_world sample_token
    by (auto simp: http_issueToken_def Devices_IssueToken_def case_prod_beta TimestampNow_def
        NewDeviceService_def on_store_def)
qed


theorem restart_delivers_queue_witness:
  "\<exists>s' rows. handleConnection 5 [Inr bridge_request] (runBroker bridge_config (d1_world\<lparr>w_store :=
       (empty_store\<lparr>db_offline := [ops_row], db_stmts := 1\<rparr>)\<rparr>)) = (True, s') \<and> mset rows = {#ops_row#}"
proof -
  let ?st = "empty_store\<lparr>db_offline := [ops_row]\<rparr>"
  have o: "fst (Open None None ?st) = Inr (empty_store\<lparr>db_offline := [ops_row], db_stmts := 1\<rparr>)"
    by (simp add: Open_def EnsureSchema_def db_exec_def empty_store_def)
  have p: "pkt_Type bridge_request = PacketConnect" "pkt_Token bridge_request = ''adm''"
    "pkt_ClientID bridge_request = ''ops''"
    by (simp_all add: bridge_request_def connect_request_def sample_client_cfg)
  have "cfg_Auth bridge_config = sample_auth" by (simp add: bridge_config_def Let_def)
  then have a: "Parse (w_jwt d1_world) (w_clock d1_world (w_ticks d1_world)) (Service_New (cfg_Auth bridge_config))
      (pkt_Token bridge_request) = Inr admin_claims"
    using sample_Parse(2) by (simp add: p d1_world_def calm_world_def)
  from restart_delivers_queue [OF o refl _ _ p(1) a p(3)] show ?thesis
    by (auto simp: empty_store_def d1_world_def calm_world_def claims_fields ops_row_def)
qed

end
