(* ===== verification/Codec.thy ===== *)
theory Codec
  imports Database Config "HOL-Library.List_Lexorder" "HOL-Library.Char_ord"
begin

text \<open>
  The packet codec, \<open>internal/protocol/encoder/json.go\<close> and
  \<open>internal/protocol/decoder/json.go\<close>: what \<open>encoding/json\<close> does with the struct
  \<open>Packet\<close> and its tags, as a translation between packets and JSON documents. The characters
  of a document are not modelled: a stream is the sequence of its documents, and four functions of
  the library that read or write characters are the fields of an argument:
  \<^item> \<open>txt_time\<close> and \<open>txt_parse_time\<close> are \<open>Time.MarshalJSON\<close> and
    \<open>Time.UnmarshalJSON\<close> (the time is written as a string);
  \<^item> \<open>txt_document\<close> checks the text of a \<open>RawMessage\<close> and reads it as a document, and
    \<open>txt_print\<close> is the text of a value as the decoder meets it in the stream.
\<close>

section \<open>Strings\<close>

text \<open>
  The number of bytes of the character at the front of a string, 0 when they are no valid UTF-8
  encoding.
\<close>

definition in_range :: "nat \<Rightarrow> nat \<Rightarrow> nat \<Rightarrow> bool" where
  "in_range lo hi b = (lo \<le> b \<and> b \<le> hi)"

definition utf8_front :: "nat list \<Rightarrow> nat" where
  "utf8_front bs =
     (case bs of
        [] \<Rightarrow> 0
      | b0 # rest \<Rightarrow>
          if b0 < 128 then 1
          else (case rest of
             [] \<Rightarrow> 0
           | b1 # rest \<Rightarrow>
               if in_range 194 223 b0 then (if in_range 128 191 b1 then 2 else 0)
               else (case rest of
                  [] \<Rightarrow> 0
                | b2 # rest \<Rightarrow>
                    if in_range 224 239 b0 then
                      (if in_range (if b0 = 224 then 160 else 128) (if b0 = 237 then 159 else 191) b1
                          \<and> in_range 128 191 b2 then 3 else 0)
                    else (case rest of
                       [] \<Rightarrow> 0
                     | b3 # rest \<Rightarrow>
                         if in_range 240 244 b0
                            \<and> in_range (if b0 = 240 then 144 else 128) (if b0 = 244 then 143 else 191) b1
                            \<and> in_range 128 191 b2 \<and> in_range 128 191 b3 then 4 else 0))))"

text \<open>An invalid byte is written as the replacement character U+FFFD.\<close>

function coerce_utf8 :: "string \<Rightarrow> string" where
  "coerce_utf8 s =
     (if s = [] then []
      else (let n = utf8_front (map of_char (take 4 s))
            in if n = 0 then map char_of [239, 191, 189 :: nat] @ coerce_utf8 (tl s)
               else take n s @ coerce_utf8 (drop n s)))"
  by pat_completeness auto
termination by (relation "measure length") auto

declare coerce_utf8.simps [simp del]

text \<open>
  Names of fields are compared without regard to case: ASCII letters, and the two other characters
  that fold to one of them (the long s and the Kelvin sign).
\<close>

fun fold_name :: "nat list \<Rightarrow> nat list" where
  "fold_name [] = []"
| "fold_name (b # bs) =
     (if b = 197 \<and> take 1 bs = [191] then 83 # fold_name (drop 1 bs)
      else if b = 226 \<and> take 2 bs = [132, 170] then 75 # fold_name (drop 2 bs)
      else (if in_range 97 122 b then b - 32 else b) # fold_name bs)"

definition same_name :: "string \<Rightarrow> string \<Rightarrow> bool" where
  "same_name a b = (fold_name (map of_char a) = fold_name (map of_char b))"

section \<open>Encoding\<close>

record text_lib =
  txt_time :: "time \<Rightarrow> error + string"
  txt_parse_time :: "string \<Rightarrow> error + time"
  txt_document :: "string \<Rightarrow> error + json"
  txt_print :: "json \<Rightarrow> string"

definition json_string :: "string \<Rightarrow> json" where
  "json_string s = JStr (coerce_utf8 s)"

definition json_int :: "int \<Rightarrow> json" where
  "json_int n = JNum (decimal_int n)"

text \<open>A field with \<open>omitempty\<close>: left out when its value is empty.\<close>

definition omitempty :: "bool \<Rightarrow> string \<Rightarrow> json \<Rightarrow> (string \<times> json) list" where
  "omitempty is_empty name v = (if is_empty then [] else [(name, v)])"

definition encode_subscription :: "Subscription \<Rightarrow> json" where
  "encode_subscription s = JObj [(''topic'', json_string (sub_Topic s)), (''qos'', json_int (sub_QoS s))]"

text \<open>A map is written with its keys sorted.\<close>

definition encode_metadata :: "string dict \<Rightarrow> json" where
  "encode_metadata m = JObj (map (\<lambda>(k, v). (coerce_utf8 k, json_string v)) (sort_key fst m))"

definition encode_payload :: "text_lib \<Rightarrow> RawMessage \<Rightarrow> error + json option" where
  "encode_payload lib r =
     (if raw_len r = 0 then Inr None
      else case txt_document lib (the r) of Inl err \<Rightarrow> Inl err | Inr doc \<Rightarrow> Inr (Some doc))"

definition Encode :: "text_lib \<Rightarrow> Packet \<Rightarrow> error + json" where
  "Encode lib p =
     (case encode_payload lib (pkt_Payload p) of
        Inl err \<Rightarrow> Inl err
      | Inr payload \<Rightarrow>
          (case txt_time lib (pkt_Timestamp p) of
             Inl err \<Rightarrow> Inl err
           | Inr stamp \<Rightarrow>
               Inr (JObj
                 ([(''type'', json_string (pkt_Type p))]
                  @ omitempty (pkt_PacketID p = []) ''packetId'' (json_string (pkt_PacketID p))
                  @ omitempty (pkt_ClientID p = []) ''clientId'' (json_string (pkt_ClientID p))
                  @ omitempty (pkt_Token p = []) ''token'' (json_string (pkt_Token p))
                  @ omitempty (pkt_Topic p = []) ''topic'' (json_string (pkt_Topic p))
                  @ omitempty (pkt_QoS p = 0) ''qos'' (json_int (pkt_QoS p))
                  @ omitempty (payload = None) ''payload'' (the payload)
                  @ [(''timestamp'', JStr stamp)]
                  @ omitempty (pkt_Subscriptions p = []) ''subscriptions''
                      (JArr (map encode_subscription (pkt_Subscriptions p)))
                  @ omitempty (\<not> pkt_SessionPresent p) ''sessionPresent'' (JBool (pkt_SessionPresent p))
                  @ omitempty (pkt_Status p = []) ''status'' (json_string (pkt_Status p))
                  @ omitempty (pkt_Code p = []) ''code'' (json_string (pkt_Code p))
                  @ omitempty (pkt_Error p = []) ''error'' (json_string (pkt_Error p))
                  @ omitempty (pkt_Metadata p = []) ''metadata'' (encode_metadata (pkt_Metadata p))))))"

section \<open>Decoding\<close>

text \<open>\<open>null\<close> leaves a string, a number, a bool or a time as it was.\<close>

definition decode_string :: "json \<Rightarrow> string \<Rightarrow> error + string" where
  "decode_string v old =
     (case v of
        JNull \<Rightarrow> Inr old
      | JStr s \<Rightarrow> Inr s
      | _ \<Rightarrow> Inl ''json: cannot unmarshal into Go value of type string'')"

definition decode_int :: "json \<Rightarrow> int \<Rightarrow> error + int" where
  "decode_int v old =
     (case v of
        JNull \<Rightarrow> Inr old
      | JNum n \<Rightarrow> Atoi n
      | _ \<Rightarrow> Inl ''json: cannot unmarshal into Go value of type int'')"

definition decode_bool :: "json \<Rightarrow> bool \<Rightarrow> error + bool" where
  "decode_bool v old =
     (case v of
        JNull \<Rightarrow> Inr old
      | JBool b \<Rightarrow> Inr b
      | _ \<Rightarrow> Inl ''json: cannot unmarshal into Go value of type bool'')"

definition decode_time :: "text_lib \<Rightarrow> json \<Rightarrow> time \<Rightarrow> error + time" where
  "decode_time lib v old =
     (case v of
        JNull \<Rightarrow> Inr old
      | JStr s \<Rightarrow> txt_parse_time lib s
      | _ \<Rightarrow> Inl ''Time.UnmarshalJSON: input is not a JSON string'')"

fun decode_subscription_fields :: "(string \<times> json) list \<Rightarrow> Subscription \<Rightarrow> error + Subscription" where
  "decode_subscription_fields [] s = Inr s"
| "decode_subscription_fields ((k, v) # fs) s =
     (if same_name k ''topic'' then
        (case decode_string v (sub_Topic s) of
           Inl err \<Rightarrow> Inl err
         | Inr t \<Rightarrow> decode_subscription_fields fs (s\<lparr>sub_Topic := t\<rparr>))
      else if same_name k ''qos'' then
        (case decode_int v (sub_QoS s) of
           Inl err \<Rightarrow> Inl err
         | Inr n \<Rightarrow> decode_subscription_fields fs (s\<lparr>sub_QoS := n\<rparr>))
      else Inl (''json: unknown field '' @ k))"

definition decode_subscription :: "json \<Rightarrow> error + Subscription" where
  "decode_subscription v =
     (let zero = \<lparr>sub_Topic = [], sub_QoS = 0\<rparr>
      in case v of
           JNull \<Rightarrow> Inr zero
         | JObj fs \<Rightarrow> decode_subscription_fields fs zero
         | _ \<Rightarrow> Inl ''json: cannot unmarshal into Go value of type types.Subscription'')"

fun decode_list :: "(json \<Rightarrow> error + 'a) \<Rightarrow> json list \<Rightarrow> error + 'a list" where
  "decode_list f [] = Inr []"
| "decode_list f (v # vs) =
     (case f v of
        Inl err \<Rightarrow> Inl err
      | Inr x \<Rightarrow> (case decode_list f vs of Inl err \<Rightarrow> Inl err | Inr xs \<Rightarrow> Inr (x # xs)))"

definition decode_subscriptions :: "json \<Rightarrow> error + Subscription list" where
  "decode_subscriptions v =
     (case v of
        JNull \<Rightarrow> Inr []
      | JArr vs \<Rightarrow> decode_list decode_subscription vs
      | _ \<Rightarrow> Inl ''json: cannot unmarshal into Go value of type []types.Subscription'')"

text \<open>The entries of an object are added to the map that is there.\<close>

fun decode_entries :: "(string \<times> json) list \<Rightarrow> string dict \<Rightarrow> error + string dict" where
  "decode_entries [] m = Inr m"
| "decode_entries ((k, v) # fs) m =
     (case decode_string v [] of
        Inl err \<Rightarrow> Inl err
      | Inr s \<Rightarrow> decode_entries fs (AList.update k s m))"

definition decode_metadata :: "json \<Rightarrow> string dict \<Rightarrow> error + string dict" where
  "decode_metadata v old =
     (case v of
        JNull \<Rightarrow> Inr []
      | JObj fs \<Rightarrow> decode_entries fs old
      | _ \<Rightarrow> Inl ''json: cannot unmarshal into Go value of type map[string]string'')"

definition with_result :: "error + 'a \<Rightarrow> ('a \<Rightarrow> 'b) \<Rightarrow> error + 'b" where
  "with_result r f = (case r of Inl err \<Rightarrow> Inl err | Inr x \<Rightarrow> Inr (f x))"

text \<open>One member of the object; unknown names are errors (\<open>DisallowUnknownFields\<close>).\<close>

definition decode_field :: "text_lib \<Rightarrow> string \<Rightarrow> json \<Rightarrow> Packet \<Rightarrow> error + Packet" where
  "decode_field lib k v p =
     (if same_name k ''type'' then
        with_result (decode_string v (pkt_Type p)) (\<lambda>x. p\<lparr>pkt_Type := x\<rparr>)
      else if same_name k ''packetId'' then
        with_result (decode_string v (pkt_PacketID p)) (\<lambda>x. p\<lparr>pkt_PacketID := x\<rparr>)
      else if same_name k ''clientId'' then
        with_result (decode_string v (pkt_ClientID p)) (\<lambda>x. p\<lparr>pkt_ClientID := x\<rparr>)
      else if same_name k ''token'' then
        with_result (decode_string v (pkt_Token p)) (\<lambda>x. p\<lparr>pkt_Token := x\<rparr>)
      else if same_name k ''topic'' then
        with_result (decode_string v (pkt_Topic p)) (\<lambda>x. p\<lparr>pkt_Topic := x\<rparr>)
      else if same_name k ''qos'' then
        with_result (decode_int v (pkt_QoS p)) (\<lambda>x. p\<lparr>pkt_QoS := x\<rparr>)
      else if same_name k ''payload'' then Inr (p\<lparr>pkt_Payload := Some (txt_print lib v)\<rparr>)
      else if same_name k ''timestamp'' then
        with_result (decode_time lib v (pkt_Timestamp p)) (\<lambda>x. p\<lparr>pkt_Timestamp := x\<rparr>)
      else if same_name k ''subscriptions'' then
        with_result (decode_subscriptions v) (\<lambda>x. p\<lparr>pkt_Subscriptions := x\<rparr>)
      else if same_name k ''sessionPresent'' then
        with_result (decode_bool v (pkt_SessionPresent p)) (\<lambda>x. p\<lparr>pkt_SessionPresent := x\<rparr>)
      else if same_name k ''status'' then
        with_result (decode_string v (pkt_Status p)) (\<lambda>x. p\<lparr>pkt_Status := x\<rparr>)
      else if same_name k ''code'' then
        with_result (decode_string v (pkt_Code p)) (\<lambda>x. p\<lparr>pkt_Code := x\<rparr>)
      else if same_name k ''error'' then
        with_result (decode_string v (pkt_Error p)) (\<lambda>x. p\<lparr>pkt_Error := x\<rparr>)
      else if same_name k ''metadata'' then
        with_result (decode_metadata v (pkt_Metadata p)) (\<lambda>x. p\<lparr>pkt_Metadata := x\<rparr>)
      else Inl (''json: unknown field '' @ k))"

fun decode_fields :: "text_lib \<Rightarrow> (string \<times> json) list \<Rightarrow> Packet \<Rightarrow> error + Packet" where
  "decode_fields lib [] p = Inr p"
| "decode_fields lib ((k, v) # fs) p =
     (case decode_field lib k v p of Inl err \<Rightarrow> Inl err | Inr p \<Rightarrow> decode_fields lib fs p)"

definition Decode :: "text_lib \<Rightarrow> json \<Rightarrow> error + Packet" where
  "Decode lib doc =
     (case doc of
        JNull \<Rightarrow> Inr zero_Packet
      | JObj fs \<Rightarrow> decode_fields lib fs zero_Packet
      | _ \<Rightarrow> Inl ''json: cannot unmarshal into Go value of type types.Packet'')"

section \<open>Lemmas\<close>

text \<open>A string that is valid UTF-8 is written as it is.\<close>

definition valid_utf8 :: "string \<Rightarrow> bool" where
  "valid_utf8 s = (coerce_utf8 s = s)"

lemma decode_field_names [simp]:
  "decode_field lib ''type'' v p = with_result (decode_string v (pkt_Type p)) (\<lambda>x. p\<lparr>pkt_Type := x\<rparr>)"
  "decode_field lib ''packetId'' v p = with_result (decode_string v (pkt_PacketID p)) (\<lambda>x. p\<lparr>pkt_PacketID := x\<rparr>)"
  "decode_field lib ''clientId'' v p = with_result (decode_string v (pkt_ClientID p)) (\<lambda>x. p\<lparr>pkt_ClientID := x\<rparr>)"
  "decode_field lib ''token'' v p = with_result (decode_string v (pkt_Token p)) (\<lambda>x. p\<lparr>pkt_Token := x\<rparr>)"
  "decode_field lib ''topic'' v p = with_result (decode_string v (pkt_Topic p)) (\<lambda>x. p\<lparr>pkt_Topic := x\<rparr>)"
  "decode_field lib ''qos'' v p = with_result (decode_int v (pkt_QoS p)) (\<lambda>x. p\<lparr>pkt_QoS := x\<rparr>)"
  "decode_field lib ''payload'' v p = Inr (p\<lparr>pkt_Payload := Some (txt_print lib v)\<rparr>)"
  "decode_field lib ''timestamp'' v p =
     with_result (decode_time lib v (pkt_Timestamp p)) (\<lambda>x. p\<lparr>pkt_Timestamp := x\<rparr>)"
  "decode_field lib ''subscriptions'' v p =
     with_result (decode_subscriptions v) (\<lambda>x. p\<lparr>pkt_Subscriptions := x\<rparr>)"
  "decode_field lib ''sessionPresent'' v p =
     with_result (decode_bool v (pkt_SessionPresent p)) (\<lambda>x. p\<lparr>pkt_SessionPresent := x\<rparr>)"
  "decode_field lib ''status'' v p = with_result (decode_string v (pkt_Status p)) (\<lambda>x. p\<lparr>pkt_Status := x\<rparr>)"
  "decode_field lib ''code'' v p = with_result (decode_string v (pkt_Code p)) (\<lambda>x. p\<lparr>pkt_Code := x\<rparr>)"
  "decode_field lib ''error'' v p = with_result (decode_string v (pkt_Error p)) (\<lambda>x. p\<lparr>pkt_Error := x\<rparr>)"
  "decode_field lib ''metadata'' v p =
     with_result (decode_metadata v (pkt_Metadata p)) (\<lambda>x. p\<lparr>pkt_Metadata := x\<rparr>)"
  by (simp_all add: decode_field_def same_name_def in_range_def)

text \<open>
  A field that was written, or left out because it is empty, is read back, when the field it is
  read into is still empty.
\<close>

lemma decode_omitempty:
  assumes "\<not> e \<Longrightarrow> decode_field lib k v p = Inr p'" and "e \<Longrightarrow> p' = p"
  shows "decode_fields lib (omitempty e k v @ fs) p = decode_fields lib fs p'"
  using assms by (cases e) (simp_all add: omitempty_def)

lemma decode_json_string [simp]: "valid_utf8 s \<Longrightarrow> decode_string (json_string s) old = Inr s"
  by (simp add: decode_string_def json_string_def valid_utf8_def)

definition int64 :: "int \<Rightarrow> bool" where
  "int64 n = (- (2 ^ 63) \<le> n \<and> n < 2 ^ 63)"

lemma decode_json_int [simp]: "int64 n \<Longrightarrow> decode_int (json_int n) old = Inr n"
  using Atoi_decimal_int(1) [of n] by (simp add: decode_int_def json_int_def int64_def)

lemma decode_encode_subscription:
  "valid_utf8 (sub_Topic s) \<Longrightarrow> int64 (sub_QoS s) \<Longrightarrow> decode_subscription (encode_subscription s) = Inr s"
  by (simp add: decode_subscription_def encode_subscription_def same_name_def in_range_def)

lemma decode_encode_subscriptions:
  "\<forall>s \<in> set subs. valid_utf8 (sub_Topic s) \<and> int64 (sub_QoS s) \<Longrightarrow>
     decode_list decode_subscription (map encode_subscription subs) = Inr subs"
  by (induction subs) (simp_all add: decode_encode_subscription)

lemma decode_entries_map_of:
  assumes "\<forall>(k, v) \<in> set m. valid_utf8 k \<and> valid_utf8 v"
  shows "\<exists>m'. decode_entries (map (\<lambda>(k, v). (coerce_utf8 k, json_string v)) m) acc = Inr m'
    \<and> map_of m' = map_of acc ++ map_of (rev m)"
  using assms
proof (induction m arbitrary: acc)
  case Nil
  then show ?case by simp
next
  case (Cons kv m)
  obtain k v where kv: "kv = (k, v)" by (cases kv)
  with Cons.prems have "coerce_utf8 k = k" and "decode_string (json_string v) [] = Inr v"
    by (simp_all add: valid_utf8_def [of k])
  moreover have "map_of acc ++ map_of (rev (kv # m)) = map_of (AList.update k v acc) ++ map_of (rev m)"
    by (simp add: kv)
  moreover obtain m' where
    "decode_entries (map (\<lambda>(k, v). (coerce_utf8 k, json_string v)) m) (AList.update k v acc) = Inr m'"
    "map_of m' = map_of (AList.update k v acc) ++ map_of (rev m)"
    using Cons.IH [of "AList.update k v acc"] Cons.prems by fastforce
  ultimately show ?case
    unfolding \<open>map_of acc ++ map_of (rev (kv # m)) = _\<close> by (intro exI [of _ m']) (simp add: kv)
qed

lemma decode_encode_metadata:
  assumes "distinct (map fst m)" and "\<forall>(k, v) \<in> set m. valid_utf8 k \<and> valid_utf8 v"
  shows "\<exists>m'. decode_metadata (encode_metadata m) [] = Inr m' \<and> map_of m' = map_of m"
proof -
  let ?m = "sort_key fst m"
  obtain m' where d: "decode_entries (map (\<lambda>(k, v). (coerce_utf8 k, json_string v)) ?m) [] = Inr m'"
    and m': "map_of m' = map_of (rev ?m)"
    using decode_entries_map_of [of ?m "[]"] assms(2) by auto
  have "distinct (map fst (rev ?m))"
    using assms(1) mset_eq_imp_distinct_iff [of "map fst (rev ?m)" "map fst m"] by simp
  then have "map_of (rev ?m) = map_of m"
    using assms(1) map_of_inject_set [of "rev ?m" m] by simp
  with d m' show ?thesis by (simp add: decode_metadata_def encode_metadata_def)
qed

section \<open>Properties\<close>

text \<open>
  What the round trip relies on: the time is written and read back, and the payload is the text
  under which its document is met again (it is in compact form).
\<close>

definition text_faithful :: "text_lib \<Rightarrow> Packet \<Rightarrow> bool" where
  "text_faithful lib p =
     ((\<exists>s. txt_time lib (pkt_Timestamp p) = Inr s \<and> txt_parse_time lib s = Inr (pkt_Timestamp p))
      \<and> (\<forall>b. pkt_Payload p = Some b \<and> b \<noteq> [] \<longrightarrow>
           (\<exists>doc. txt_document lib b = Inr doc \<and> txt_print lib doc = b)))"

text \<open>A packet that a Go program can hold: strings in UTF-8, numbers of 64 bits, a map with distinct keys.\<close>

definition sendable :: "Packet \<Rightarrow> bool" where
  "sendable p =
     (list_all valid_utf8 [pkt_Type p, pkt_PacketID p, pkt_ClientID p, pkt_Token p, pkt_Topic p,
        pkt_Status p, pkt_Code p, pkt_Error p]
      \<and> int64 (pkt_QoS p)
      \<and> (\<forall>s \<in> set (pkt_Subscriptions p). valid_utf8 (sub_Topic s) \<and> int64 (sub_QoS s))
      \<and> distinct (map fst (pkt_Metadata p))
      \<and> (\<forall>(k, v) \<in> set (pkt_Metadata p). valid_utf8 k \<and> valid_utf8 v))"

lemma encode_payload_faithful:
  assumes "text_faithful lib p"
  shows "\<exists>payload. encode_payload lib (pkt_Payload p) = Inr payload
    \<and> map_option (txt_print lib) payload = (if pkt_Payload p = Some [] then None else pkt_Payload p)"
proof (cases "raw_len (pkt_Payload p) = 0")
  case True
  then show ?thesis by (auto simp: encode_payload_def raw_len_def split: option.splits)
next
  case False
  then obtain b where b: "pkt_Payload p = Some b" "b \<noteq> []"
    by (auto simp: raw_len_def split: option.splits)
  with assms obtain doc where "txt_document lib b = Inr doc" and "txt_print lib doc = b"
    by (auto simp: text_faithful_def)
  with b show ?thesis by (simp add: encode_payload_def raw_len_def)
qed

text \<open>Reading back one field of the encoded packet.\<close>

lemma decode_written:
  "valid_utf8 s \<Longrightarrow> pkt_PacketID q = [] \<Longrightarrow>
     decode_fields lib (omitempty (s = []) ''packetId'' (json_string s) @ fs) q =
     decode_fields lib fs (q\<lparr>pkt_PacketID := s\<rparr>)"
  "valid_utf8 s \<Longrightarrow> pkt_ClientID q = [] \<Longrightarrow>
     decode_fields lib (omitempty (s = []) ''clientId'' (json_string s) @ fs) q =
     decode_fields lib fs (q\<lparr>pkt_ClientID := s\<rparr>)"
  "valid_utf8 s \<Longrightarrow> pkt_Token q = [] \<Longrightarrow>
     decode_fields lib (omitempty (s = []) ''token'' (json_string s) @ fs) q =
     decode_fields lib fs (q\<lparr>pkt_Token := s\<rparr>)"
  "valid_utf8 s \<Longrightarrow> pkt_Topic q = [] \<Longrightarrow>
     decode_fields lib (omitempty (s = []) ''topic'' (json_string s) @ fs) q =
     decode_fields lib fs (q\<lparr>pkt_Topic := s\<rparr>)"
  "int64 n \<Longrightarrow> pkt_QoS q = 0 \<Longrightarrow>
     decode_fields lib (omitempty (n = 0) ''qos'' (json_int n) @ fs) q =
     decode_fields lib fs (q\<lparr>pkt_QoS := n\<rparr>)"
  "pkt_Payload q = None \<Longrightarrow>
     decode_fields lib (omitempty (payload = None) ''payload'' (the payload) @ fs) q =
     decode_fields lib fs (q\<lparr>pkt_Payload := map_option (txt_print lib) payload\<rparr>)"
  "\<forall>s \<in> set subs. valid_utf8 (sub_Topic s) \<and> int64 (sub_QoS s) \<Longrightarrow> pkt_Subscriptions q = [] \<Longrightarrow>
     decode_fields lib (omitempty (subs = []) ''subscriptions'' (JArr (map encode_subscription subs)) @ fs) q =
     decode_fields lib fs (q\<lparr>pkt_Subscriptions := subs\<rparr>)"
  "\<not> pkt_SessionPresent q \<Longrightarrow>
     decode_fields lib (omitempty (\<not> b) ''sessionPresent'' (JBool b) @ fs) q =
     decode_fields lib fs (q\<lparr>pkt_SessionPresent := b\<rparr>)"
  "valid_utf8 s \<Longrightarrow> pkt_Status q = [] \<Longrightarrow>
     decode_fields lib (omitempty (s = []) ''status'' (json_string s) @ fs) q =
     decode_fields lib fs (q\<lparr>pkt_Status := s\<rparr>)"
  "valid_utf8 s \<Longrightarrow> pkt_Code q = [] \<Longrightarrow>
     decode_fields lib (omitempty (s = []) ''code'' (json_string s) @ fs) q =
     decode_fields lib fs (q\<lparr>pkt_Code := s\<rparr>)"
  "valid_utf8 s \<Longrightarrow> pkt_Error q = [] \<Longrightarrow>
     decode_fields lib (omitempty (s = []) ''error'' (json_string s) @ fs) q =
     decode_fields lib fs (q\<lparr>pkt_Error := s\<rparr>)"
  "decode_metadata (encode_metadata m) [] = Inr m' \<Longrightarrow> pkt_Metadata q = [] \<Longrightarrow>
     decode_fields lib (omitempty (m = []) ''metadata'' (encode_metadata m)) q =
     Inr (q\<lparr>pkt_Metadata := (if m = [] then [] else m')\<rparr>)"
  by (cases q; cases payload;
      auto simp: omitempty_def with_result_def decode_bool_def decode_subscriptions_def
        decode_encode_subscriptions)+

text \<open>
  C15: what one side of a connection encodes the other side decodes: every packet whose strings
  are valid UTF-8 is encoded without an error, and decoding the document gives the packet back,
  with every omitted field empty again; only a payload that was empty but not nil comes back as nil.
\<close>

theorem Decode_Encode:
  assumes "text_faithful lib p" and "sendable p"
  shows "\<exists>doc q. Encode lib p = Inr doc \<and> Decode lib doc = Inr q
    \<and> map_of (pkt_Metadata q) = map_of (pkt_Metadata p)
    \<and> q = p\<lparr>pkt_Payload := (if pkt_Payload p = Some [] then None else pkt_Payload p),
            pkt_Metadata := pkt_Metadata q\<rparr>"
proof -
  from assms(1) obtain stamp where stamp: "txt_time lib (pkt_Timestamp p) = Inr stamp"
      "txt_parse_time lib stamp = Inr (pkt_Timestamp p)"
    by (auto simp: text_faithful_def)
  let ?pl = "if pkt_Payload p = Some [] then None else pkt_Payload p"
  obtain payload where payload: "encode_payload lib (pkt_Payload p) = Inr payload"
      "map_option (txt_print lib) payload = ?pl"
    using encode_payload_faithful [OF assms(1)] by blast
  from assms(2) obtain m where m: "decode_metadata (encode_metadata (pkt_Metadata p)) [] = Inr m"
      "map_of m = map_of (pkt_Metadata p)"
    using decode_encode_metadata [of "pkt_Metadata p"] by (auto simp: sendable_def)
  let ?m = "if pkt_Metadata p = [] then [] else m"
  let ?q = "p\<lparr>pkt_Payload := ?pl, pkt_Metadata := ?m\<rparr>"
  obtain doc where doc: "Encode lib p = Inr doc" by (simp add: Encode_def payload stamp)
  have "case_sum Inl (Decode lib) (Encode lib p) =
      Inr (p\<lparr>pkt_Payload := map_option (txt_print lib) payload, pkt_Metadata := ?m\<rparr>)"
    using assms(2) m(1)
    by (simp add: Encode_def payload(1) stamp Decode_def sendable_def decode_written zero_Packet_def
        with_result_def decode_time_def split del: if_split)
  then have "Decode lib doc = Inr ?q" by (simp add: doc payload(2))
  with doc m(2) show ?thesis by (intro exI [of _ doc] exI [of _ ?q]) simp
qed

section \<open>Concrete runs\<close>

text \<open>Times in decimal notation, documents that are strings.\<close>

definition sample_text :: text_lib where
  "sample_text =
     \<lparr>txt_time = (\<lambda>t. Inr (decimal_int t)), txt_parse_time = Atoi, txt_document = (\<lambda>b. Inr (JStr b)),
      txt_print = (\<lambda>v. case v of JStr s \<Rightarrow> s | _ \<Rightarrow> [])\<rparr>"

definition coded_packet :: Packet where
  "coded_packet = zero_Packet\<lparr>pkt_Type := PacketSubscribe, pkt_PacketID := ''p-1'', pkt_QoS := -3,
     pkt_Payload := Some ''{}'', pkt_Timestamp := 5,
     pkt_Subscriptions := [\<lparr>sub_Topic = ''device/+/telemetry'', sub_QoS = 1\<rparr>],
     pkt_Metadata := [(''z'', ''1''), (''a'', ''2'')]\<rparr>"

theorem Decode_Encode_witness:
  "\<exists>doc q. Encode sample_text coded_packet = Inr doc \<and> Decode sample_text doc = Inr q
     \<and> map_of (pkt_Metadata q) ''a'' = Some ''2'' \<and> pkt_QoS q = -3"
proof -
  have "text_faithful sample_text coded_packet"
    using Atoi_decimal_int(1) [of 5]
    by (simp add: text_faithful_def sample_text_def coded_packet_def)
  moreover have "sendable coded_packet" by code_simp
  ultimately obtain doc q where d: "Encode sample_text coded_packet = Inr doc" "Decode sample_text doc = Inr q"
    and m: "map_of (pkt_Metadata q) = map_of (pkt_Metadata coded_packet)"
    and q: "q = coded_packet\<lparr>pkt_Payload := (if pkt_Payload coded_packet = Some [] then None
        else pkt_Payload coded_packet), pkt_Metadata := pkt_Metadata q\<rparr>"
    using Decode_Encode by blast
  have "pkt_QoS q = pkt_QoS coded_packet" by (subst q) simp
  with d m show ?thesis by (auto simp: coded_packet_def)
qed

end
