(* ===== verification/Tools.thy ===== *)
theory Tools
  imports Bridge Acl
begin

text \<open>
  The two programs that use the client library: the command line client
  \<open>cmd/crabmq-cli/main.go\<close> and the device simulator \<open>cmd/crabmq-sim/main.go\<close>. Each lives
  in the surroundings of its own process (a \<open>world\<close>). What the program reads from elsewhere is
  an argument: the parsed flags, the results of dialling, of reading packets and of HTTP requests,
  the ticks of a timer with the (random) payload of each, and whether a context was cancelled.
\<close>

section \<open>The command line client\<close>

record cli_flags =
  fl_addr :: string
  fl_client :: string
  fl_token :: string
  fl_topic :: string
  fl_payload :: string
  fl_qos :: int

text \<open>The defaults of the flags; \<open>client\<close> differs between the two commands.\<close>

definition cli_defaults :: "environment \<Rightarrow> string \<Rightarrow> cli_flags" where
  "cli_defaults getenv client =
     \<lparr>fl_addr = env getenv ''CRABMQ_BROKER_ADDR'' ''127.0.0.1:1884'',
      fl_client = env getenv ''CRABMQ_CLIENT_ID'' client, fl_token = getenv ''CRABMQ_TOKEN'',
      fl_topic = [], fl_payload = ''{}'', fl_qos = 1\<rparr>"

definition cli_config :: "cli_flags \<Rightarrow> ClientConfig" where
  "cli_config fl =
     \<lparr>ccf_Addr = fl_addr fl, ccf_ClientID = fl_client fl, ccf_Token = fl_token fl, ccf_ProtocolName = [],
      ccf_WriteTimeout = 0, ccf_ReadTimeout = 0\<rparr>"

text \<open>
  What the surroundings answer: dialling, opening the stream, the read of \<open>Connect\<close>, the read
  that follows it, and the reads of the loop of \<open>runSubscribe\<close>. Every read has a deadline, so
  each of the first two returns.
\<close>

record peer =
  pr_dial :: "error + conn"
  pr_stream :: "error option"
  pr_connack :: "error + Packet"
  pr_second :: "error + Packet"
  pr_reads :: "(error + Packet) list"

definition dial_peer :: "peer \<Rightarrow> ClientConfig \<Rightarrow> world \<Rightarrow> (error + Client) \<times> world" where
  "dial_peer pr cfg w = Client_Dial (\<lambda>_. pr_dial pr) (\<lambda>_. pr_stream pr) cfg w"

text \<open>
  \<open>runPublish\<close> after the flags: the result with the packet whose type and identifier are
  printed. The deferred \<open>Close\<close> runs on every return after dialling.
\<close>

definition runPublish ::
  "(string \<Rightarrow> bool) \<Rightarrow> error + cli_flags \<Rightarrow> peer \<Rightarrow> world \<Rightarrow> (error + Packet option) \<times> world" where
  "runPublish Valid parsed pr w =
     (case parsed of
        Inl err \<Rightarrow> (Inl err, w)
      | Inr fl \<Rightarrow>
          (case dial_peer pr (cli_config fl) w of
             (Inl err, w) \<Rightarrow> (Inl err, w)
           | (Inr client, w) \<Rightarrow>
               (case Client_Connect client [(''source'', ''go-cli'')] (pr_connack pr) w of
                  (Inl err, w) \<Rightarrow> (Inl err, Client_Close client w)
                | (Inr _, w) \<Rightarrow>
                    if \<not> Valid (fl_payload fl)
                    then (Inl ''payload must be valid json'', Client_Close client w)
                    else
                      (case Client_Publish client (fl_topic fl) (fl_qos fl) (Some (fl_payload fl)) w of
                         (Some err, w) \<Rightarrow> (Inl err, Client_Close client w)
                       | (None, w) \<Rightarrow>
                           if 0 < fl_qos fl then
                             (case ReadPacket (pr_second pr) of
                                Inl err \<Rightarrow> (Inl err, Client_Close client w)
                              | Inr packet \<Rightarrow> (Inr (Some packet), Client_Close client w))
                           else (Inr None, Client_Close client w)))))"

text \<open>The loop of \<open>runSubscribe\<close>: every packet is printed; a failed acknowledgement is ignored.\<close>

fun subscribe_loop ::
  "Client \<Rightarrow> (error + Packet) list \<Rightarrow> Packet list \<Rightarrow> world \<Rightarrow> (error option \<times> Packet list) \<times> world" where
  "subscribe_loop client [] printed w = ((None, printed), w)"
| "subscribe_loop client (decoded # rest) printed w =
     (case ReadPacket decoded of
        Inl err \<Rightarrow> ((Some err, printed), Client_Close client w)
      | Inr packet \<Rightarrow>
          (let w = (if pkt_Type packet = PacketPublish \<and> 0 < pkt_QoS packet
                    then snd (SendPubAck client (pkt_PacketID packet) w) else w)
           in subscribe_loop client rest (printed @ [packet]) w))"

definition runSubscribe ::
  "error + cli_flags \<Rightarrow> peer \<Rightarrow> world \<Rightarrow> (error option \<times> Packet list) \<times> world" where
  "runSubscribe parsed pr w =
     (case parsed of
        Inl err \<Rightarrow> ((Some err, []), w)
      | Inr fl \<Rightarrow>
          (case dial_peer pr (cli_config fl) w of
             (Inl err, w) \<Rightarrow> ((Some err, []), w)
           | (Inr client, w) \<Rightarrow>
               (case Client_Connect client [(''source'', ''go-cli'')] (pr_connack pr) w of
                  (Inl err, w) \<Rightarrow> ((Some err, []), Client_Close client w)
                | (Inr _, w) \<Rightarrow>
                    (case Client_Subscribe client [\<lparr>sub_Topic = fl_topic fl, sub_QoS = 1\<rparr>] w of
                       (Some err, w) \<Rightarrow> ((Some err, []), Client_Close client w)
                     | (None, w) \<Rightarrow>
                         (case ReadPacket (pr_second pr) of
                            Inl err \<Rightarrow> ((Some err, []), Client_Close client w)
                          | Inr _ \<Rightarrow> subscribe_loop client (pr_reads pr) [] w)))))"

text \<open>The exit status of \<open>main\<close>, given how the chosen command ends.\<close>

definition cli_exit :: "string list \<Rightarrow> (string list \<Rightarrow> error option) \<Rightarrow> (string list \<Rightarrow> error option) \<Rightarrow> nat" where
  "cli_exit Args publish subscribe =
     (if length Args < 2 then 2
      else if Args ! 1 = ''publish'' then (case publish (drop 2 Args) of Some err \<Rightarrow> 1 | None \<Rightarrow> 0)
      else if Args ! 1 = ''subscribe'' then (case subscribe (drop 2 Args) of Some err \<Rightarrow> 1 | None \<Rightarrow> 0)
      else 2)"

section \<open>The simulator: settings\<close>

record simulatorConfig =
  sim_Count :: int
  sim_BrokerAddr :: string
  sim_APIBaseURL :: string
  sim_DevicePrefix :: string
  sim_Interval :: duration

text \<open>
  \<open>fmt.Sscanf\<close> with the verb \<open>%d\<close>: spaces are skipped, a newline is an error, then a sign
  and at least one digit are read, and the rest of the input is ignored.
\<close>

function skip_space :: "string \<Rightarrow> error + string" where
  "skip_space s =
     (if HasPrefix s [CHR 0x0A] \<or> HasPrefix s [CHR 0x0D, CHR 0x0A] then Inl ''unexpected newline''
      else case find (HasPrefix s) space_encodings of
             None \<Rightarrow> Inr s
           | Some e \<Rightarrow> skip_space (drop (length e) s))"
  by pat_completeness auto
termination
proof (relation "measure length")
  fix s e
  assume "find (HasPrefix s) space_encodings = Some e"
  then have "e \<noteq> []" and "HasPrefix s e"
    using space_encodings_nonempty by (auto simp: find_Some_iff)
  then have "s \<noteq> []" by (auto simp: HasPrefix_iff)
  with \<open>e \<noteq> []\<close> show "(drop (length e) s, s) \<in> measure length" by simp
qed simp

declare skip_space.simps [simp del]

definition is_digit :: "char \<Rightarrow> bool" where
  "is_digit c = (digit c \<noteq> None)"

definition Sscanf_d :: "string \<Rightarrow> error + int" where
  "Sscanf_d s =
     (case skip_space s of
        Inl err \<Rightarrow> Inl err
      | Inr [] \<Rightarrow> Inl ''unexpected EOF''
      | Inr (c # rest) \<Rightarrow>
          (let signed = (c = CHR ''-'' \<or> c = CHR ''+'');
               ds = takeWhile is_digit (if signed then rest else c # rest)
           in if ds = [] then Inl ''expected integer''
              else Atoi_unsigned (c # rest) (c = CHR ''-'') ds))"

definition sim_envInt :: "environment \<Rightarrow> string \<Rightarrow> int \<Rightarrow> int" where
  "sim_envInt getenv key fallback =
     (let value = getenv key
      in if value = [] then fallback
         else case Sscanf_d value of Inl err \<Rightarrow> fallback | Inr parsed \<Rightarrow> parsed)"

definition sim_config :: "(string \<Rightarrow> error + duration) \<Rightarrow> environment \<Rightarrow> simulatorConfig" where
  "sim_config ParseDuration getenv =
     \<lparr>sim_Count = sim_envInt getenv ''CRABMQ_SIM_DEVICE_COUNT'' 50,
      sim_BrokerAddr = env getenv ''CRABMQ_BROKER_ADDR'' ''127.0.0.1:1884'',
      sim_APIBaseURL = env getenv ''CRABMQ_API_URL'' ''http://127.0.0.1:8080'',
      sim_DevicePrefix = env getenv ''CRABMQ_SIM_PREFIX'' ''sim-device'',
      sim_Interval = envDuration ParseDuration getenv ''CRABMQ_SIM_INTERVAL'' (5 * Second)\<rparr>"

text \<open>\<open>fmt.Sprintf("%s-%03d", prefix, index+1)\<close>: the devices that \<open>main\<close> starts.\<close>

definition sim_deviceID :: "string \<Rightarrow> nat \<Rightarrow> string" where
  "sim_deviceID pre index =
     (let n = decimal (index + 1)
      in pre @ ''-'' @ replicate (3 - length n) (CHR ''0'') @ n)"

definition sim_devices :: "simulatorConfig \<Rightarrow> string list" where
  "sim_devices cfg = map (sim_deviceID (sim_DevicePrefix cfg)) [0..<nat (sim_Count cfg)]"

section \<open>The simulator: one device\<close>

text \<open>
  An answer to an HTTP request: an error of the client, or the status code, the status line and
  the body (or the error of reading it).
\<close>

datatype http_answer = HttpError error | HttpAnswer nat string "error + string"

definition doJSON :: "string \<Rightarrow> http_answer \<Rightarrow> (string \<Rightarrow> error + 'a) \<Rightarrow> error + 'a" where
  "doJSON url answer unmarshal =
     (case answer of
        HttpError err \<Rightarrow> Inl err
      | HttpAnswer code status body \<Rightarrow>
          (case body of
             Inl err \<Rightarrow> Inl err
           | Inr text \<Rightarrow>
               if 300 \<le> code then Inl (url @ '' returned '' @ status @ '': '' @ text)
               else unmarshal text))"

text \<open>\<open>token_of\<close> is \<open>json.Unmarshal\<close> into the struct with the field \<open>token\<close>.\<close>

definition ensureToken ::
  "(string \<Rightarrow> error + string) \<Rightarrow> simulatorConfig \<Rightarrow> string \<Rightarrow> http_answer \<Rightarrow> http_answer \<Rightarrow> error + string" where
  "ensureToken token_of cfg deviceID registered issued =
     (case doJSON (sim_APIBaseURL cfg @ ''/devices/register'') registered (\<lambda>_. Inr ()) of
        Inl err \<Rightarrow> Inl err
      | Inr _ \<Rightarrow> doJSON (sim_APIBaseURL cfg @ ''/devices/'' @ deviceID @ ''/token'') issued token_of)"

text \<open>One packet in \<open>readCommands\<close>: the error that ends the reader, if any.\<close>

definition read_command :: "Client \<Rightarrow> error + Packet \<Rightarrow> world \<Rightarrow> error option \<times> world" where
  "read_command client decoded w =
     (case ReadPacket decoded of
        Inl err \<Rightarrow> (Some err, w)
      | Inr packet \<Rightarrow>
          if pkt_Type packet = PacketPublish \<and> 0 < pkt_QoS packet
          then SendPubAck client (pkt_PacketID packet) w
          else (None, w))"

text \<open>
  What happens while \<open>runTelemetryLoop\<close> runs: the reader's goroutine gets the result of a read,
  the timer ticks, the context is cancelled, or the loop sees the reader's error. The reader
  stops at its first error, which waits in the channel until the loop takes it.
\<close>

datatype sim_event = Received "error + Packet" | Tick string | Cancelled error | ReaderDone

fun runTelemetryLoop ::
  "Client \<Rightarrow> string \<Rightarrow> sim_event list \<Rightarrow> error option \<Rightarrow> world \<Rightarrow> error option \<times> world" where
  "runTelemetryLoop client deviceID [] errCh w = (None, w)"
| "runTelemetryLoop client deviceID (Received decoded # es) errCh w =
     (case errCh of
        Some err \<Rightarrow> runTelemetryLoop client deviceID es errCh w
      | None \<Rightarrow> (case read_command client decoded w of (e, w) \<Rightarrow> runTelemetryLoop client deviceID es e w))"
| "runTelemetryLoop client deviceID (Tick payload # es) errCh w =
     (case Client_Publish client (''device/'' @ deviceID @ ''/telemetry'') 1 (Some payload) w of
        (Some err, w) \<Rightarrow> (Some err, w)
      | (None, w) \<Rightarrow> runTelemetryLoop client deviceID es errCh w)"
| "runTelemetryLoop client deviceID (Cancelled err # es) errCh w = (Some err, w)"
| "runTelemetryLoop client deviceID (ReaderDone # es) errCh w =
     (case errCh of
        Some err \<Rightarrow> (Some err, w)
      | None \<Rightarrow> runTelemetryLoop client deviceID es errCh w)"

record sim_attempt =
  sa_alive :: bool
  sa_register :: http_answer
  sa_token :: http_answer
  sa_dial :: "error + conn"
  sa_stream :: "error option"
  sa_connack :: "error + Packet"
  sa_suback :: "error + Packet"
  sa_events :: "sim_event list"
  sa_sleep :: wake

text \<open>From \<open>Connect\<close> to the end of the telemetry loop; \<open>None\<close> while the loop runs.\<close>

definition sim_session :: "sim_attempt \<Rightarrow> string \<Rightarrow> Client \<Rightarrow> world \<Rightarrow> error option \<times> world" where
  "sim_session a deviceID client w =
     (case Client_Connect client [(''kind'', ''simulator'')] (sa_connack a) w of
        (Inl err, w) \<Rightarrow> (Some err, Client_Close client w)
      | (Inr _, w) \<Rightarrow>
          (case Client_Subscribe client
                  [\<lparr>sub_Topic = ''device/'' @ deviceID @ ''/command'', sub_QoS = 1\<rparr>] w of
             (Some err, w) \<Rightarrow> (Some err, Client_Close client w)
           | (None, w) \<Rightarrow>
               (case ReadPacket (sa_suback a) of
                  Inl err \<Rightarrow> (Some err, Client_Close client w)
                | Inr _ \<Rightarrow>
                    (case runTelemetryLoop client deviceID (sa_events a) None w of
                       (None, w) \<Rightarrow> (None, w)
                     | (Some err, w) \<Rightarrow> (Some err, Client_Close client w)))))"

text \<open>The loop of \<open>runDevice\<close>; the flag is \<open>True\<close> while it runs.\<close>

fun runDevice ::
  "(string \<Rightarrow> error + string) \<Rightarrow> simulatorConfig \<Rightarrow> string \<Rightarrow> sim_attempt list \<Rightarrow> world \<Rightarrow> bool \<times> world" where
  "runDevice token_of cfg deviceID [] w = (True, w)"
| "runDevice token_of cfg deviceID (a # rest) w =
     (if \<not> sa_alive a then (False, w)
      else case ensureToken token_of cfg deviceID (sa_register a) (sa_token a) of
             Inl err \<Rightarrow> if sleepContext (sa_sleep a) then runDevice token_of cfg deviceID rest w else (False, w)
           | Inr token \<Rightarrow>
               (case Client_Dial (\<lambda>_. sa_dial a) (\<lambda>_. sa_stream a)
                       \<lparr>ccf_Addr = sim_BrokerAddr cfg, ccf_ClientID = deviceID, ccf_Token = token,
                        ccf_ProtocolName = [], ccf_WriteTimeout = 0, ccf_ReadTimeout = 0\<rparr> w of
                  (Inl err, w) \<Rightarrow> if sleepContext (sa_sleep a) then runDevice token_of cfg deviceID rest w else (False, w)
                | (Inr client, w) \<Rightarrow>
                    (case sim_session a deviceID client w of
                       (None, w) \<Rightarrow> (True, w)
                     | (Some err, w) \<Rightarrow>
                         if sleepContext (sa_sleep a) then runDevice token_of cfg deviceID rest w else (False, w))))"

section \<open>What a simulated device writes\<close>

text \<open>Everything written between two states of the surroundings satisfies a predicate.\<close>

definition wrote :: "(conn \<times> Packet \<Rightarrow> bool) \<Rightarrow> world \<Rightarrow> world \<Rightarrow> bool" where
  "wrote P w w' = (\<exists>outs. w_wire w' = w_wire w @ outs \<and> (\<forall>x \<in> set outs. P x))"

lemma wrote_same: "w_wire w' = w_wire w \<Longrightarrow> wrote P w w'"
  by (simp add: wrote_def)

lemma wrote_trans [trans]: "wrote P w w1 \<Longrightarrow> wrote P w1 w2 \<Longrightarrow> wrote P w w2"
  by (auto simp: wrote_def)

lemma wrote_close [simp]: "wrote P w (Client_Close client w') = wrote P w w'"
  by (simp add: wrote_def)

text \<open>
  A packet of device \<open>d\<close>: under its identifier, publishing telemetry of its own only,
  subscribing to its own commands only.
\<close>

definition own_packet :: "string \<Rightarrow> conn \<times> Packet \<Rightarrow> bool" where
  "own_packet d x =
     (pkt_ClientID (snd x) = d
      \<and> (pkt_Type (snd x) = PacketPublish \<longrightarrow> pkt_Topic (snd x) = ''device/'' @ d @ ''/telemetry'')
      \<and> (pkt_Type (snd x) = PacketSubscribe \<longrightarrow>
           map sub_Topic (pkt_Subscriptions (snd x)) = [command_topic d]))"

lemma wrote_calls:
  assumes "ccf_ClientID (cli_cfg client) = d"
  shows "wrote (own_packet d) w (snd (Client_Connect client md r w))"
    and "wrote (own_packet d) w (snd (Client_Subscribe client [\<lparr>sub_Topic = command_topic d, sub_QoS = q\<rparr>] w))"
    and "wrote (own_packet d) w (snd (Client_Publish client (''device/'' @ d @ ''/telemetry'') n payload w))"
    and "wrote (own_packet d) w (snd (SendPubAck client i w))"
  using assms
  by (auto simp: wrote_def own_packet_def Client_Connect_def Client_Subscribe_def Client_Publish_def
      SendPubAck_def Client_Send_def Send_wire TimestampNow_def NewPacketID_def case_prod_beta Let_def
      split: option.splits sum.splits)

lemma wrote_read_command:
  "ccf_ClientID (cli_cfg client) = d \<Longrightarrow> wrote (own_packet d) w (snd (read_command client r w))"
  by (simp add: read_command_def wrote_calls wrote_same split: sum.splits)

lemma wrote_telemetry:
  assumes "ccf_ClientID (cli_cfg client) = d"
  shows "wrote (own_packet d) w (snd (runTelemetryLoop client d es errCh w))"
proof (induction es arbitrary: errCh w)
  case Nil
  then show ?case by (simp add: wrote_same)
next
  case (Cons e es)
  show ?case
  proof (cases e)
    case (Received r)
    with Cons.IH wrote_trans [OF wrote_read_command [OF assms, of w r] Cons.IH] show ?thesis
      by (simp add: case_prod_beta split: option.splits)
  next
    case (Tick payload)
    with wrote_calls(3) [OF assms, of w 1 "Some payload"]
      wrote_trans [OF wrote_calls(3) [OF assms, of w 1 "Some payload"] Cons.IH] show ?thesis
      by (simp add: case_prod_beta split: option.splits)
  next
    case (Cancelled err)
    then show ?thesis by (simp add: wrote_same)
  next
    case ReaderDone
    with Cons.IH show ?thesis by (simp add: wrote_same split: option.splits)
  qed
qed

lemma wrote_session:
  assumes "ccf_ClientID (cli_cfg client) = d"
  shows "wrote (own_packet d) w (snd (sim_session a d client w))"
proof -
  let ?w1 = "snd (Client_Connect client [(''kind'', ''simulator'')] (sa_connack a) w)"
  let ?w2 = "snd (Client_Subscribe client [\<lparr>sub_Topic = command_topic d, sub_QoS = 1\<rparr>] ?w1)"
  let ?w3 = "snd (runTelemetryLoop client d (sa_events a) None ?w2)"
  have 1: "wrote (own_packet d) w ?w1" by (rule wrote_calls(1) [OF assms])
  then have 2: "wrote (own_packet d) w ?w2" by (rule wrote_trans) (rule wrote_calls(2) [OF assms])
  then have 3: "wrote (own_packet d) w ?w3" by (rule wrote_trans) (rule wrote_telemetry [OF assms])
  show ?thesis
    unfolding sim_session_def command_topic_def [symmetric]
    using 1 2 3 by (simp add: case_prod_beta split: sum.splits option.splits)
qed

lemma Client_Dial_facts:
  "Client_Dial dial open_stream cfg w = (r, w') \<Longrightarrow> w_wire w' = w_wire w
     \<and> (\<forall>client. r = Inr client \<longrightarrow> ccf_ClientID (cli_cfg client) = ccf_ClientID cfg)"
  by (auto simp: Client_Dial_def dial_config_def Let_def split: sum.splits option.splits)

lemma wrote_runDevice: "wrote (own_packet d) w (snd (runDevice token_of cfg d as w))"
proof (induction as arbitrary: w)
  case Nil
  then show ?case by (simp add: wrote_same)
next
  case (Cons a as)
  show ?case
  proof (cases "sa_alive a")
    case False
    then show ?thesis by (simp add: wrote_same)
  next
    case alive: True
    show ?thesis
    proof (cases "ensureToken token_of cfg d (sa_register a) (sa_token a)")
      case (Inl err)
      with alive Cons.IH show ?thesis by (simp add: wrote_same)
    next
      case (Inr token)
      let ?dial = "Client_Dial (\<lambda>_. sa_dial a) (\<lambda>_. sa_stream a)
         \<lparr>ccf_Addr = sim_BrokerAddr cfg, ccf_ClientID = d, ccf_Token = token,
          ccf_ProtocolName = [], ccf_WriteTimeout = 0, ccf_ReadTimeout = 0\<rparr> w"
      obtain r w1 where dial: "?dial = (r, w1)" by fastforce
      have w1: "wrote P w w2" if "wrote P w1 w2" for P w2
        using Client_Dial_facts [OF dial] that by (simp add: wrote_def)
      show ?thesis
      proof (cases r)
        case (Inl err)
        with alive Inr dial Cons.IH show ?thesis by (simp add: w1 wrote_same)
      next
        case client: (Inr client)
        then have "ccf_ClientID (cli_cfg client) = d" using Client_Dial_facts [OF dial] by simp
        then have s: "wrote (own_packet d) w (snd (sim_session a d client w1))"
          by (intro w1 wrote_session)
        with alive Inr dial client wrote_trans [OF s Cons.IH] show ?thesis
          by (simp add: case_prod_beta split: option.splits)
      qed
    qed
  qed
qed

lemma telemetry_allowed:
  assumes "clm_Role claims = ''device''"
  shows "CanPublish claims (''device/'' @ clm_DeviceID claims @ ''/telemetry'') = None"
proof -
  have "''device/'' @ d @ ''/telemetry'' \<noteq> front @ ''/command''" for d front
  proof
    assume "''device/'' @ d @ ''/telemetry'' = front @ ''/command''"
    then have "last (''device/'' @ d @ ''/telemetry'') = last (front @ ''/command'')" by (rule arg_cong)
    then show False by simp
  qed
  with assms show ?thesis by (auto simp: CanPublish_None_iff)
qed

section \<open>Properties\<close>

text \<open>
  C16: a simulated device stays within its rights. Whatever the API, the broker and the link
  answer, over any number of reconnections: everything it writes carries its own identifier, and
  with a token of this device the broker's authorization accepts every topic it publishes to and
  every filter it subscribes to.
\<close>

theorem simulator_within_rights:
  assumes "runDevice token_of cfg d as w = (running, w')"
    and "clm_Role claims = ''device''" and "clm_DeviceID claims = d"
  shows "\<exists>outs. w_wire w' = w_wire w @ outs \<and> (\<forall>(c, p) \<in> set outs. pkt_ClientID p = d
    \<and> (pkt_Type p = PacketPublish \<longrightarrow> CanPublish claims (pkt_Topic p) = None)
    \<and> (pkt_Type p = PacketSubscribe \<longrightarrow> pkt_Subscriptions p \<noteq> []
        \<and> (\<forall>s \<in> set (pkt_Subscriptions p). CanSubscribe claims (sub_Topic s) = None)))"
proof -
  from wrote_runDevice [of d w token_of cfg as] assms(1)
  obtain outs where w': "w_wire w' = w_wire w @ outs" and own: "\<forall>x \<in> set outs. own_packet d x"
    by (auto simp: wrote_def)
  have "CanPublish claims (''device/'' @ d @ ''/telemetry'') = None"
    using telemetry_allowed [OF assms(2)] assms(3) by simp
  moreover have "CanSubscribe claims (command_topic d) = None"
    using assms(2,3) by (simp add: CanSubscribe_None_iff)
  ultimately show ?thesis
    using w' own by (intro exI [of _ outs]) (fastforce simp: own_packet_def)
qed

text \<open>
  The subscriber of the command line client prints every packet and acknowledges every
  \<open>PUBLISH\<close> with a QoS above 0, from the third packet on: the second one is taken for the
  \<open>SUBACK\<close> without a look at its type. A message that the broker had queued for the client is
  delivered before the \<open>SUBACK\<close>, so the first such message is neither printed nor acknowledged.
\<close>

lemma ack_linked:
  assumes "\<And>n q. w_link w n (cli_stream client) q = None"
  shows "ack_log (w_wire (snd (SendPubAck client i w))) = ack_log (w_wire w) @ [(cli_stream client, PacketPubAck, i)]"
proof -
  have "fst (SendPubAck client i w) = None"
    using assms by (simp add: SendPubAck_def Client_Send_def Send_def TimestampNow_def)
  then show ?thesis by (simp add: ack_log_SendPubAck)
qed

lemma subscribe_loop_prints:
  assumes "\<And>n q. w_link w n (cli_stream client) q = None"
  shows "fst (subscribe_loop client (map Inr ps) printed w) = (None, printed @ ps)
    \<and> ack_log (w_wire (snd (subscribe_loop client (map Inr ps) printed w))) =
        ack_log (w_wire w) @ map (ack_entry client) (to_ack ps)"
  using assms
proof (induction ps arbitrary: printed w)
  case Nil
  then show ?case by (simp add: to_ack_def publishes_def)
next
  case (Cons p ps)
  show ?case
  proof (cases "pkt_Type p = PacketPublish \<and> 0 < pkt_QoS p")
    case True
    then show ?thesis
      using Cons.IH [of "snd (SendPubAck client (pkt_PacketID p) w)"] Cons.prems ack_linked [OF Cons.prems]
      by (simp add: to_ack_def publishes_def ack_entry_def)
  next
    case False
    then have "to_ack (p # ps) = to_ack ps" by (auto simp: to_ack_def publishes_def)
    then show ?thesis using False Cons.IH [of w] Cons.prems by (auto simp: Let_def)
  qed
qed

lemma runSubscribe_skips_second:
  assumes "pr_dial pr = Inr c" and "pr_stream pr = None"
    and "pr_connack pr = Inr k" and "pr_second pr = Inr q" and "pr_reads pr = map Inr ps" and "pkt_Type k = PacketConnAck"
    and "\<And>n q. w_link w n c q = None"
  shows "fst (runSubscribe (Inr fl) pr w) = (None, ps)"
proof -
  obtain client where client: "dial_peer pr (cli_config fl) w = (Inr client, w)" and c: "cli_stream client = c"
    using assms(1,2) by (auto simp: dial_peer_def Client_Dial_def Let_def)
  let ?w1 = "snd (Client_Connect client [(''source'', ''go-cli'')] (Inr k) w)"
  let ?subs = "[\<lparr>sub_Topic = fl_topic fl, sub_QoS = 1\<rparr>]"
  have "fst (Client_Connect client [(''source'', ''go-cli'')] (Inr k) w) = Inr k"
    using assms(6,7) c by (simp add: Client_Connect_def Client_Send_def Send_def TimestampNow_def Let_def)
  moreover have "fst (Client_Subscribe client ?subs ?w1) = None"
    using assms(7) c Client_Connect_frame(2) [of client "[(''source'', ''go-cli'')]" "Inr k" w]
    by (simp add: Client_Subscribe_def Client_Send_def Send_def TimestampNow_def NewPacketID_def)
  moreover have "fst (subscribe_loop client (map Inr ps) [] (snd (Client_Subscribe client ?subs ?w1))) = (None, ps)"
    using subscribe_loop_prints [of "snd (Client_Subscribe client ?subs ?w1)" client ps "[]"] assms(7) c by simp
  ultimately show ?thesis
    by (simp add: runSubscribe_def client assms(3-5) case_prod_beta)
qed

section \<open>Concrete runs\<close>

definition sample_sim :: sim_attempt where
  "sample_sim =
     \<lparr>sa_alive = True, sa_register = HttpAnswer 201 ''201 Created'' (Inr ''{}''),
      sa_token = HttpAnswer 200 ''200 OK'' (Inr ''tok''), sa_dial = Inr 3, sa_stream = None,
      sa_connack = Inr (ConnAck ''accepted'' False 1), sa_suback = Inr (SubAck ''u'' 1),
      sa_events = [Tick ''{}'', Received (Inr (sample_packet ''c1'' ''device/d1/command'')), Cancelled ''context canceled''],
      sa_sleep = ContextDone\<rparr>"

definition sim_run :: "bool \<times> world" where
  "sim_run = runDevice Inr (sim_config (\<lambda>_. Inl []) (\<lambda>_. [])) ''d1'' [sample_sim] d1_world"

theorem simulator_within_rights_witness:
  "length (w_wire (snd sim_run)) = 4 \<and> (pkt_ClientID \<circ> snd) ` set (w_wire (snd sim_run)) \<subseteq> {''d1''}"
proof -
  have "runDevice Inr (sim_config (\<lambda>_. Inl []) (\<lambda>_. [])) ''d1'' [sample_sim] d1_world = (fst sim_run, snd sim_run)"
    by (simp add: sim_run_def)
  from simulator_within_rights [OF this, of d1_claims]
  have "(pkt_ClientID \<circ> snd) ` set (w_wire (snd sim_run)) \<subseteq> {''d1''}"
    by (fastforce simp: d1_claims_def d1_world_def calm_world_def)
  moreover have "length (w_wire (snd sim_run)) = 4" by code_simp
  ultimately show ?thesis by simp
qed

end
