(* ===== verification/Spec2Isabelle.thy ===== *)
theory Spec2Isabelle
  imports End_To_End Codec Tools
begin

text \<open>
  CrabMQ: a publish/subscribe broker over QUIC, its HTTP API and its tools.

  \<^bold>\<open>The program.\<close> A device opens a QUIC connection, authenticates with a JWT in a
  \<open>CONNECT\<close> packet and then subscribes and publishes. The broker
  (\<open>internal/broker\<close>) checks the token and the topic rights, keeps a session and a
  subscription list per client, limits the packet rate, stores every publication in PostgreSQL
  and fans it out: live to connected subscribers, into the offline queue for absent subscribers
  with QoS above 0; queued messages are delivered on the next connection and removed by a
  \<open>PUBACK\<close>. The API (\<open>api\<close>) registers devices, issues their tokens, shows what is
  stored, and keeps one connection of its own to the broker (the bridge), over which it sends
  commands to devices and receives their telemetry, which it pushes to WebSocket connections. The
  daemon \<open>crabmqd\<close> runs broker, API or both over one database; \<open>crabmq-cli\<close> and
  \<open>crabmq-sim\<close> are clients of the broker, the latter also of the API.

  \<^bold>\<open>Theories and sources.\<close>
  \<^item> \<^verbatim>\<open>Prelude\<close>: the types that stand for Go's, parts of \<open>strings\<close>, rule collections,
    shared lemmas on lists, dictionaries and runs.
  \<^item> \<^verbatim>\<open>Packets\<close>, \<^verbatim>\<open>Topics\<close>: \<open>pkg/qtt/types\<close>, \<open>internal/protocol/packets\<close>,
    \<open>pkg/qtt/utils\<close>.
  \<^item> \<^verbatim>\<open>Jwt\<close>, \<^verbatim>\<open>Acl\<close>: \<open>internal/auth\<close>.
  \<^item> \<^verbatim>\<open>Config\<close>: \<open>internal/config/config.go\<close> with \<open>strconv.Atoi\<close> and
    \<open>strings.TrimSpace\<close>.
  \<^item> \<^verbatim>\<open>Metrics\<close>: \<open>internal/metrics\<close>. \<^verbatim>\<open>Database\<close>: \<open>api/db/store.go\<close>, the rows of the three
    tables and one operation per method.
  \<^item> \<^verbatim>\<open>Subscriptions\<close>, \<^verbatim>\<open>Sessions\<close>, \<^verbatim>\<open>Limiter\<close>: the registry, the session store and the rate
    limiter of \<open>internal/broker\<close>.
  \<^item> \<^verbatim>\<open>World\<close>: clock, identifiers, streams, map order, JWT library and database, as the answers to
    numbered calls. \<^verbatim>\<open>Queues\<close>: \<open>internal/queue\<close>. \<^verbatim>\<open>Router\<close>: \<open>internal/broker/router\<close>,
    over any connection and any queue.
  \<^item> \<^verbatim>\<open>Broker\<close>: \<open>internal/broker/server/server.go\<close>; \<^verbatim>\<open>Broker_Facts\<close> says what each handler keeps.
  \<^item> \<^verbatim>\<open>Runs\<close>: the interleaved runs of all connection handlers, a step relation with its reachable
    states and invariants; \<^verbatim>\<open>Isolation\<close> and \<^verbatim>\<open>Wire\<close> confine what a device is sent; \<^verbatim>\<open>Scenario\<close> is a
    concrete run; \<^verbatim>\<open>Guarantees\<close> holds the properties of single handlers and connections.
  \<^item> \<^verbatim>\<open>Codec\<close>: \<open>internal/protocol/encoder\<close> and \<open>decoder\<close>, between packets and JSON
    documents.
  \<^item> \<^verbatim>\<open>Client\<close>: \<open>pkg/qtt/client\<close>. \<^verbatim>\<open>Bridge\<close>: \<open>api/services/bridge.go\<close> and
    \<open>hub.go\<close>. \<^verbatim>\<open>Http\<close>: \<open>api/services/devices.go\<close> and \<open>api/handlers/http.go\<close>.
  \<^item> \<^verbatim>\<open>Tools\<close>: \<open>cmd/crabmq-cli\<close> and \<open>cmd/crabmq-sim\<close>. \<^verbatim>\<open>Daemon\<close>:
    \<open>cmd/crabmqd\<close>, \<open>internal/transport/quic\<close>, opening the database, the server loops.
  \<^item> \<^verbatim>\<open>End_To_End\<close>: broker and API together. This theory holds the properties of every reachable
    state.

  \<^bold>\<open>State and operations.\<close> A Go struct is a record with the struct's fields, less mutexes
  and loggers; an operation takes the state and returns it updated, next to its result; an error
  is a value. A \<open>map\<close> is an association list with distinct keys, and the order in which it is
  ranged over is read from the world. Integers are Go's 64-bit \<open>int\<close>s; where a value can
  leave a smaller range (the \<open>SMALLINT\<close> columns, \<open>Atoi\<close>) the check is written out, and no
  operation of the code adds to a value that a client chooses.

  \<^bold>\<open>What is shown.\<close>
  \<^item> Confidentiality and authenticity in every run: \<open>device_receives_only_its_commands\<close>,
    \<open>device_messages_are_its_own\<close>, \<open>handlers_hold_verified_tokens\<close>.
  \<^item> Invariants of every reachable state: \<open>registry_and_sessions_agree\<close>,
    \<open>active_sessions_exact\<close>, \<open>packets_out_exact\<close>, \<open>tables_keep_schema\<close>.
  \<^item> Delivery: \<open>acknowledged_publish_not_lost\<close>, \<open>deliverOffline_complete\<close>,
    \<open>restart_delivers_queue\<close>, \<open>Enqueue_Pending_roundtrip\<close>.
  \<^item> One connection: \<open>authenticate_sound\<close>, \<open>issued_token_connects\<close>,
    \<open>subscribe_all_or_nothing\<close>, \<open>failed_connect_harmless\<close>, \<open>limited_packet_ignored\<close>,
    \<open>handler_ends\<close>, and \<open>handleConnection_refines\<close>: a handler is a sequence of steps
    of the step relation.
  \<^item> Broker and API together: \<open>command_reaches_device\<close>, \<open>api_token_opens_session\<close>,
    \<open>bridge_connects\<close>, \<open>consume_exact\<close>, \<open>Start_disconnects\<close>, \<open>cors_exact\<close>,
    \<open>ServeHTTP_tables\<close>; \<open>simulator_within_rights\<close> for the simulator.
  \<^item> Components against reference definitions: \<open>MatchTopic_meaning\<close>,
    \<open>Registry_Match_exact\<close>, \<open>Decode_Encode\<close>, the bounds of the limiter
    (\<open>Allow_rate_bound\<close>, \<open>Allow_exact_in_window\<close>, \<open>Allow_clients_independent\<close>) and the
    queries of the database.
  \<^item> Behaviour the code should not have, as it is: \<open>old_connection_ends_new_session\<close>,
    \<open>Enqueue_second_client_lost\<close>, \<open>puback_removes_foreign_row\<close>,
    \<open>lost_connack_ghost_session\<close>, \<open>bridge_cannot_resume\<close>, and the lemmas
    \<open>CanSubscribe_wildcard_device\<close>, \<open>GetTelemetry_underscore_leak\<close>,
    \<open>puback_gauge_drifts\<close>, \<open>runSubscribe_skips_second\<close>.

  \<^bold>\<open>Interfaces.\<close> \<open>subscription_store\<close> is the contract of registry and session store;
  \<open>packet_conn\<close> and \<open>offline_queue\<close> are what the router relies on, joined in
  \<open>router_env\<close>; \<open>client_queue\<close> is a queue per client; \<open>event_sink\<close> is the hub as
  the bridge uses it; \<open>step_invariant\<close> carries an invariant from one step of the broker to
  every reachable state. Each is interpreted on the operations of the model.

  \<^bold>\<open>Loops.\<close> No operation needs fuel: a loop of the code runs over a list (the results of
  successive reads, accepts or attempts, the rows of a query, the levels of a topic), and a loop
  that waits for more input says so in its result. An interleaving is at packet boundaries: a
  handler reacts to one packet before another handler does; the finer interleavings that the
  mutexes of the stores allow inside one reaction are not modelled.

  \<^bold>\<open>Parameters.\<close> The JWT library (\<open>jwt_lib\<close>, with \<open>lib_verifies\<close> and
  \<open>lib_round_trip\<close> as what it promises), PostgreSQL's faults, value conversions and row
  orders (fields of \<open>Store\<close>), streams and clocks (\<open>world\<close>), the text functions of
  \<open>encoding/json\<close> (\<open>text_lib\<close>), \<open>time.ParseDuration\<close> and \<open>Duration.String\<close>,
  QUIC, TLS and HTTP calls and what the other side of a connection sends.

  \<^bold>\<open>Not modelled.\<close> The characters of JSON documents, the text of usage messages and logs, the
  Prometheus text format, \<open>MustJSON\<close> (no caller) and the memory-level data races: library
  code, or without effect on the state. The deadlines of streams are part of the link's answers.
  The Rust programs of the repository (a parser, a command line client and an earlier prototype
  of the broker) are separate programs.
\<close>

section \<open>Every reachable state of the broker\<close>




definition broker_api :: HttpServer where
  "broker_api = sample_server\<lparr>hs_bridge := (hs_bridge sample_server)\<lparr>brg_world := srv_world run4\<rparr>\<rparr>"




text \<open>
  C27: in every reachable state the counter of sent packets is the number of packets that
  were written to the connections, less the \<open>ERROR\<close> packets, which the broker does not
  count.
\<close>

theorem packets_out_exact:
  assumes "reachable auth rate w0 (s, A)" and "w_wire w0 = []"
  shows "m_PacketsOut (srv_metrics s) =
    int (length (filter (\<lambda>(c, p). pkt_Type p \<noteq> PacketError) (w_wire (srv_world s))))"
  using reachable_balance [OF assms(1)] assms(2) by (simp add: out_balance_def counted_def)

theorem packets_out_exact_witness: "m_PacketsOut (srv_metrics run4) = 5"
  using packets_out_exact [OF run_reachable(4)]
  by (simp add: run4_def command_packet_def sample_packet_def)

text \<open>
  C5: in every reachable state each running handler was admitted with a token whose HMAC
  verifies under the configured secret; it acts under a non-empty client identifier, that of the
  token's device when the token is a device's, and the client's session is still known.
\<close>

theorem handlers_hold_verified_tokens:
  assumes "reachable auth rate w0 (s, A)" and "store_wf (w_store w0)"
    and "lib_verifies verify (w_jwt w0)" and "A c = Some (cl, claims)"
  shows "(\<exists>token now alg. Parse (w_jwt w0) now (Service_New auth) token = Inr claims
      \<and> verify (HMAC alg) (cfg_JWTSecret auth) token)
    \<and> cl \<noteq> [] \<and> (clm_Role claims = ''device'' \<longrightarrow> clm_DeviceID claims = cl)
    \<and> session_known (srv_sessions s) cl"
proof -
  from reachable_authenticated [OF assms(1)] assms(4) obtain s0 received subs s1
    where srv: "service_of auth w0 s0" and a: "authenticate c received s0 = (Inr (cl, claims, subs), s1)"
    by fastforce
  from authenticate_InrD [OF a] obtain s' where "check_connect received s0 = (Inr (cl, claims), s')"
    by blast
  from check_connect_InrD [OF this] srv obtain token now
    where p: "Parse (w_jwt w0) now (Service_New auth) token = Inr claims"
    by (auto simp: service_of_def)
  have "handler_ok (srv_sessions s) (cl, claims)"
    using reachable_inv [OF assms(1,2)] assms(4) by (auto simp: broker_inv_def handlers_ok_def)
  with p Parse_verified [OF assms(3) p] show ?thesis
    by (fastforce simp: handler_ok_def Service_New_def)
qed

theorem handlers_hold_verified_tokens_witness:
  "(\<exists>token now. Parse sample_lib now (Service_New sample_auth) token = Inr d1_claims)
   \<and> session_known (srv_sessions run4) ''d1''"
proof -
  have "lib_verifies (\<lambda>m k t. k = ''key'' \<and> t \<in> {''tok'', ''adm''}) (w_jwt d1_world)"
    using sample_lib_verifies by simp
  from handlers_hold_verified_tokens [OF run_reachable(4) _ this, of 1 "''d1''" d1_claims]
  show ?thesis by (auto simp: two_handlers_def)
qed



text \<open>
  C7: authenticity of the message log: in every such run, every message stored as
  published by the device is on a topic under the device's own prefix and is not a command.
\<close>

theorem device_messages_are_its_own:
  assumes "reachable_without d auth rate w0 (s, A)" and "store_wf (w_store w0)"
    and "messages_owned d (db_messages (w_store w0))"
    and "m \<in> set (db_messages (w_store (srv_world s)))" and "msg_ClientID m = d"
  shows "HasPrefix (msg_Topic m) (''device/'' @ d @ ''/'') \<and> \<not> HasSuffix (msg_Topic m) ''/command''"
  using reachable_messages [OF assms(1-3)] assms(4,5) by (auto simp: messages_owned_def)

theorem device_messages_are_its_own_witness:
  "HasPrefix (msg_Topic (inbound_message ''d1'' (telemetry_packet\<lparr>pkt_ClientID := ''d1''\<rparr>))) ''device/d1/''"
  using device_messages_are_its_own [OF run3_telemetry_without,
      of "inbound_message ''d1'' (telemetry_packet\<lparr>pkt_ClientID := ''d1''\<rparr>)"]
  by (simp add: messages_owned_def run3_telemetry_def stage_def calm_world_def inbound_message_def)

end
